(* ===== verification/Prelude.thy ===== *)
theory Prelude
  imports Main "HOL-Library.Char_ord" "HOL-Library.List_Lexorder" "HOL-Library.Multiset"
begin

text \<open>
  The shared ground of the development: the collections of facts the component proofs feed to
  the simplifier, and generic facts on lists, multisets and finite maps.

  Go strings are byte strings, and an Isabelle \<^typ>\<open>char\<close> is a byte, so a Go
  \<^verbatim>\<open>string\<close> is a \<^typ>\<open>string\<close>. The order on strings comes from \<open>Char_ord\<close> and
  \<open>List_Lexorder\<close>: it compares byte by byte, as Go's \<^verbatim>\<open><\<close> on strings and
  \<^verbatim>\<open>sort.Strings\<close> do.
\<close>

named_theorems store_simps \<open>what the operations of the in-memory stores do\<close>
named_theorems wf_intros \<open>operations keep values well formed\<close>
named_theorems len_bounds \<open>bounds on the length of rendered text\<close>

section \<open>Results\<close>

text \<open>A fallible Go function returns a value or an error; an error is kept as its text.\<close>

type_synonym 'a result = "string + 'a"

section \<open>Wrapping signed integers\<close>

text \<open>The value a 64-bit Go \<^verbatim>\<open>int\<close> holds after an arithmetic operation with result \<open>x\<close>.\<close>

definition wrap64 :: "int \<Rightarrow> int" where
  "wrap64 x = (x + 2 ^ 63) mod 2 ^ 64 - 2 ^ 63"

lemma wrap64_id: "- (2 ^ 63) \<le> x \<Longrightarrow> x < 2 ^ 63 \<Longrightarrow> wrap64 x = x"
  by (simp add: wrap64_def)

lemma wrap64_bounds: "- (2 ^ 63) \<le> wrap64 x \<and> wrap64 x < 2 ^ 63"
  using pos_mod_bound [of "2 ^ 64" "x + 2 ^ 63"] by (simp add: wrap64_def)

section \<open>Lists\<close>

text \<open>Sorting the distinct elements of a list: how the code reads the keys of a Go map in order.\<close>

definition sorted_keys :: "string list \<Rightarrow> string list" where
  "sorted_keys ks = sort (remdups ks)"

lemma set_sorted_keys [simp]: "set (sorted_keys ks) = set ks"
  by (simp add: sorted_keys_def)

lemma distinct_sorted_keys [simp]: "distinct (sorted_keys ks)"
  by (simp add: sorted_keys_def)

lemma sorted_sorted_keys [simp]: "sorted (sorted_keys ks)"
  by (simp add: sorted_keys_def)

lemma sorted_keys_Nil_iff [simp]: "sorted_keys ks = [] \<longleftrightarrow> ks = []"
  by (metis set_empty set_sorted_keys)

lemma sorted_keys_strict: "sorted_wrt (<) (sorted_keys ks)"
  by (simp add: strict_sorted_iff)

lemma sorted_keys_unique: "sorted_wrt (<) xs \<Longrightarrow> set xs = set ks \<Longrightarrow> sorted_keys ks = xs"
  by (metis distinct_sorted_keys set_sorted_keys sorted_distinct_set_unique sorted_sorted_keys
      strict_sorted_iff)

lemma sum_list_filter_if:
  "sum_list (map (\<lambda>x. if P x then (1::nat) else 0) xs) = length (filter P xs)"
  by (induction xs) auto

lemma length_filter_partition2:
  assumes "\<And>x. x \<in> set xs \<Longrightarrow> P x \<noteq> Q x"
  shows "length (filter P xs) + length (filter Q xs) = length xs"
  using assms by (induction xs) auto

text \<open>Iteration over a Go map visits its keys in an order the runtime picks.\<close>

definition iteration_order :: "('a list \<Rightarrow> 'a list) \<Rightarrow> bool" where
  "iteration_order perm \<longleftrightarrow> (\<forall>xs. mset (perm xs) = mset xs)"

lemma iteration_order_set: "iteration_order perm \<Longrightarrow> set (perm xs) = set xs"
  by (metis iteration_order_def set_mset_mset)

lemma iteration_order_distinct: "iteration_order perm \<Longrightarrow> distinct (perm xs) = distinct xs"
  by (metis iteration_order_def distinct_count_atmost_1 set_mset_mset)

lemma iteration_order_id [simp]: "iteration_order (\<lambda>xs. xs)"
  by (simp add: iteration_order_def)

lemma iteration_order_rev [simp]: "iteration_order rev"
  by (simp add: iteration_order_def)

section \<open>Finite maps as association lists sorted by key\<close>

text \<open>
  A Go \<^verbatim>\<open>map[string]T\<close> that is serialised or compared is kept as an association list with
  strictly increasing keys, so that two maps are equal when their lists are.
\<close>

definition wf_keys :: "(string \<times> 'v) list \<Rightarrow> bool" where
  "wf_keys m \<longleftrightarrow> sorted_wrt (<) (map fst m)"

definition del_key :: "string \<Rightarrow> (string \<times> 'v) list \<Rightarrow> (string \<times> 'v) list" where
  "del_key k m = filter (\<lambda>kv. fst kv \<noteq> k) m"

fun set_key :: "string \<Rightarrow> 'v \<Rightarrow> (string \<times> 'v) list \<Rightarrow> (string \<times> 'v) list" where
  "set_key k v [] = [(k, v)]"
| "set_key k v ((k', v') # m) =
     (if k < k' then (k, v) # (k', v') # m
      else if k = k' then (k, v) # m
      else (k', v') # set_key k v m)"

lemma wf_keys_Nil [simp]: "wf_keys []"
  by (simp add: wf_keys_def)

lemma wf_keys_Cons [simp]:
  "wf_keys ((k, v) # m) \<longleftrightarrow> (\<forall>k' \<in> fst ` set m. k < k') \<and> wf_keys m"
  by (auto simp: wf_keys_def)

lemma wf_keys_distinct: "wf_keys m \<Longrightarrow> distinct (map fst m)"
  by (simp add: wf_keys_def strict_sorted_iff)

lemma wf_keys_sorted: "wf_keys m \<Longrightarrow> sorted_keys (map fst m) = map fst m"
  by (rule sorted_keys_unique) (simp_all add: wf_keys_def)

lemma map_of_del_key [simp]: "map_of (del_key k m) = (map_of m)(k := None)"
  by (induction m) (auto simp: del_key_def fun_eq_iff)

lemma keys_del_key: "fst ` set (del_key k m) = fst ` set m - {k}"
  by (auto simp: del_key_def)

lemma set_del_key_subset: "set (del_key k m) \<subseteq> set m"
  by (auto simp: del_key_def)

lemma wf_keys_del_key [wf_intros]: "wf_keys m \<Longrightarrow> wf_keys (del_key k m)"
  by (induction m) (auto simp: del_key_def)

lemma map_of_set_key [simp]: "map_of (set_key k v m) = (map_of m)(k \<mapsto> v)"
  by (induction k v m rule: set_key.induct) (auto simp: fun_eq_iff)

lemma keys_set_key: "fst ` set (set_key k v m) = insert k (fst ` set m)"
  by (induction k v m rule: set_key.induct) auto

lemma set_set_key_subset: "set (set_key k v m) \<subseteq> insert (k, v) (set m)"
  by (induction k v m rule: set_key.induct) auto

lemma wf_keys_set_key [wf_intros]: "wf_keys m \<Longrightarrow> wf_keys (set_key k v m)"
  by (induction k v m rule: set_key.induct) (auto simp: keys_set_key)

lemma wf_keys_filter [wf_intros]: "wf_keys m \<Longrightarrow> wf_keys (filter P m)"
  by (induction m) auto

lemma wf_keys_map_snd [simp]: "wf_keys (map (\<lambda>(k, v). (k, f k v)) m) = wf_keys m"
  by (simp add: wf_keys_def comp_def case_prod_beta)

lemma map_of_mem: "map_of m k = Some v \<Longrightarrow> (k, v) \<in> set m"
  by (rule map_of_SomeD)

lemma map_of_wf_mem: "wf_keys m \<Longrightarrow> (k, v) \<in> set m \<Longrightarrow> map_of m k = Some v"
  by (simp add: wf_keys_distinct)

text \<open>A well-formed list is determined by the finite map it stands for.\<close>

lemma assoc_of_keys: "distinct (map fst m) \<Longrightarrow> m = map (\<lambda>k. (k, the (map_of m k))) (map fst m)"
  by (simp add: comp_def) (rule map_idI [symmetric], auto)

lemma wf_keys_ext:
  assumes "wf_keys m" and "wf_keys n" and "map_of m = map_of n"
  shows "m = n"
proof -
  have "fst ` set m = fst ` set n"
    using assms(3) by (metis dom_map_of_conv_image_fst)
  then have "map fst m = map fst n"
    using assms(1,2) by (metis list.set_map sorted_keys_unique wf_keys_def)
  then show ?thesis
    using assms by (metis assoc_of_keys wf_keys_distinct)
qed

end
