(* ===== verification/Go_Strings.thy ===== *)
theory Go_Strings
  imports Prelude
begin

text \<open>
  The part of Go's \<^verbatim>\<open>strings\<close>, \<^verbatim>\<open>strconv\<close> and \<^verbatim>\<open>fmt\<close> packages that the program
  calls, on byte strings: prefixes and suffixes, trimming, splitting and joining, lower case,
  decimal numbers.
\<close>

section \<open>Characters\<close>

abbreviation nl :: char where "nl \<equiv> CHR 0x0A"
abbreviation dquote :: char where "dquote \<equiv> CHR 0x22"
abbreviation squote :: char where "squote \<equiv> CHR 0x27"
abbreviation backslash :: char where "backslash \<equiv> CHR 0x5C"
abbreviation slash :: char where "slash \<equiv> CHR ''/''"

text \<open>\<^verbatim>\<open>unicode.IsSpace\<close>: the one-byte spaces, and the two- and three-byte UTF-8 forms.\<close>

definition ascii_space :: "char \<Rightarrow> bool" where
  "ascii_space c \<longleftrightarrow> c = CHR '' '' \<or> c = CHR 0x09 \<or> c = nl \<or> c = CHR 0x0B \<or> c = CHR 0x0C \<or> c = CHR 0x0D"

definition space2 :: "char \<Rightarrow> char \<Rightarrow> bool" where
  "space2 a b \<longleftrightarrow> a = CHR 0xC2 \<and> (b = CHR 0x85 \<or> b = CHR 0xA0)"

definition space3 :: "char \<Rightarrow> char \<Rightarrow> char \<Rightarrow> bool" where
  "space3 a b c \<longleftrightarrow>
     (a = CHR 0xE1 \<and> b = CHR 0x9A \<and> c = CHR 0x80) \<or>
     (a = CHR 0xE2 \<and> b = CHR 0x80 \<and>
        (CHR 0x80 \<le> c \<and> c \<le> CHR 0x8A \<or> c = CHR 0xA8 \<or> c = CHR 0xA9 \<or> c = CHR 0xAF)) \<or>
     (a = CHR 0xE2 \<and> b = CHR 0x81 \<and> c = CHR 0x9F) \<or>
     (a = CHR 0xE3 \<and> b = CHR 0x80 \<and> c = CHR 0x80)"

section \<open>Prefixes, suffixes, substrings\<close>

definition HasPrefix :: "string \<Rightarrow> string \<Rightarrow> bool" where
  "HasPrefix s p \<longleftrightarrow> take (length p) s = p"

definition HasSuffix :: "string \<Rightarrow> string \<Rightarrow> bool" where
  "HasSuffix s p \<longleftrightarrow> length p \<le> length s \<and> drop (length s - length p) s = p"

definition TrimPrefix :: "string \<Rightarrow> string \<Rightarrow> string" where
  "TrimPrefix s p = (if HasPrefix s p then drop (length p) s else s)"

definition TrimSuffix :: "string \<Rightarrow> string \<Rightarrow> string" where
  "TrimSuffix s p = (if HasSuffix s p then take (length s - length p) s else s)"

fun Contains :: "string \<Rightarrow> string \<Rightarrow> bool" where
  "Contains [] p = (p = [])"
| "Contains (c # s) p = (HasPrefix (c # s) p \<or> Contains s p)"

lemma HasPrefix_iff: "HasPrefix s p \<longleftrightarrow> (\<exists>r. s = p @ r)"
  unfolding HasPrefix_def by (metis append_eq_conv_conj append_take_drop_id)

lemma HasPrefix_append [simp]: "HasPrefix (p @ r) p"
  by (simp add: HasPrefix_def)

lemma HasSuffix_iff: "HasSuffix s p \<longleftrightarrow> (\<exists>r. s = r @ p)"
proof
  assume "HasSuffix s p"
  then show "\<exists>r. s = r @ p"
    unfolding HasSuffix_def by (metis append_take_drop_id)
next
  assume "\<exists>r. s = r @ p"
  then show "HasSuffix s p"
    by (auto simp: HasSuffix_def)
qed

lemma TrimPrefix_append [simp]: "TrimPrefix (p @ r) p = r"
  by (simp add: TrimPrefix_def)

lemma TrimSuffix_append [simp]: "TrimSuffix (r @ p) p = r"
  by (simp add: TrimSuffix_def HasSuffix_iff)

lemma Contains_iff: "Contains s p \<longleftrightarrow> (\<exists>u v. s = u @ p @ v)"
proof (induction s)
  case Nil
  then show ?case by auto
next
  case (Cons c s)
  have "(\<exists>u v. c # s = u @ p @ v) \<longleftrightarrow> (\<exists>v. c # s = p @ v) \<or> (\<exists>u v. s = u @ p @ v)"
    by (metis append_Cons append_Nil list.exhaust list.inject)
  then show ?case using Cons by (simp add: HasPrefix_iff)
qed

section \<open>Trimming\<close>

text \<open>
  Dropping spaces at the front of a byte string, given the two- and three-byte spaces as they are
  met in that direction. \<^verbatim>\<open>strings.TrimSpace\<close> does it from both ends.
\<close>

fun trim_by :: "(char \<Rightarrow> char \<Rightarrow> bool) \<Rightarrow> (char \<Rightarrow> char \<Rightarrow> char \<Rightarrow> bool) \<Rightarrow> string \<Rightarrow> string" where
  "trim_by s2 s3 [] = []"
| "trim_by s2 s3 [a] = (if ascii_space a then [] else [a])"
| "trim_by s2 s3 [a, b] =
     (if ascii_space a then trim_by s2 s3 [b]
      else if s2 a b then [] else [a, b])"
| "trim_by s2 s3 (a # b # c # r) =
     (if ascii_space a then trim_by s2 s3 (b # c # r)
      else if s2 a b then trim_by s2 s3 (c # r)
      else if s3 a b c then trim_by s2 s3 r
      else a # b # c # r)"

definition trim_front :: "string \<Rightarrow> string" where
  "trim_front s = trim_by space2 space3 s"

definition trim_back :: "string \<Rightarrow> string" where
  "trim_back s = rev (trim_by (\<lambda>a b. space2 b a) (\<lambda>a b c. space3 c b a) (rev s))"

definition TrimSpace :: "string \<Rightarrow> string" where
  "TrimSpace s = trim_back (trim_front s)"

lemma length_trim_by: "length (trim_by s2 s3 s) \<le> length s"
  by (induction s2 s3 s rule: trim_by.induct) auto

lemma length_TrimSpace [len_bounds]: "length (TrimSpace s) \<le> length s"
  unfolding TrimSpace_def trim_back_def trim_front_def
  by (metis length_rev length_trim_by order_trans)

lemma TrimSpace_Nil [simp]: "TrimSpace [] = []"
  by (simp add: TrimSpace_def trim_back_def trim_front_def)

text \<open>\<^verbatim>\<open>strings.TrimLeft\<close>, \<^verbatim>\<open>strings.TrimRight\<close> and \<^verbatim>\<open>strings.Trim\<close> with a cutset of ASCII bytes.\<close>

definition TrimLeft :: "string \<Rightarrow> string \<Rightarrow> string" where
  "TrimLeft s cutset = dropWhile (\<lambda>c. c \<in> set cutset) s"

definition TrimRight :: "string \<Rightarrow> string \<Rightarrow> string" where
  "TrimRight s cutset = rev (dropWhile (\<lambda>c. c \<in> set cutset) (rev s))"

definition Trim :: "string \<Rightarrow> string \<Rightarrow> string" where
  "Trim s cutset = TrimRight (TrimLeft s cutset) cutset"

section \<open>Splitting and joining\<close>

fun split_on :: "char \<Rightarrow> string \<Rightarrow> string list" where
  "split_on c [] = [[]]"
| "split_on c (x # xs) =
     (if x = c then [] # split_on c xs
      else (case split_on c xs of [] \<Rightarrow> [[x]] | y # ys \<Rightarrow> (x # y) # ys))"

fun join :: "string \<Rightarrow> string list \<Rightarrow> string" where
  "join sep [] = []"
| "join sep [x] = x"
| "join sep (x # y # ys) = x @ sep @ join sep (y # ys)"

text \<open>\<^verbatim>\<open>strings.SplitN(s, sep, 2)\<close> for a one-byte separator: the parts around its first occurrence.\<close>

fun split2 :: "char \<Rightarrow> string \<Rightarrow> (string \<times> string) option" where
  "split2 c [] = None"
| "split2 c (x # xs) =
     (if x = c then Some ([], xs)
      else (case split2 c xs of None \<Rightarrow> None | Some (a, b) \<Rightarrow> Some (x # a, b)))"

lemma split_on_not_Nil [simp]: "split_on c s \<noteq> []"
  by (cases s) (auto split: list.splits)

lemma join_Cons: "xs \<noteq> [] \<Longrightarrow> join sep (x # xs) = x @ sep @ join sep xs"
  by (cases xs) auto

lemma join_split_on: "join [c] (split_on c s) = s"
proof (induction s)
  case Nil
  show ?case by simp
next
  case (Cons x s)
  obtain y ys where s: "split_on c s = y # ys"
    by (cases "split_on c s") auto
  show ?case
    using Cons s by (cases ys) (auto simp: join_Cons)
qed

lemma split_on_clean: "c \<notin> set s \<Longrightarrow> split_on c s = [s]"
  by (induction s) auto

lemma split_on_parts: "x \<in> set (split_on c s) \<Longrightarrow> c \<notin> set x"
proof (induction s arbitrary: x)
  case (Cons a s)
  then show ?case by (auto split: if_splits list.splits)
qed simp

lemma split_on_append:
  assumes "c \<notin> set p"
  shows "split_on c (p @ c # s) = p # split_on c s"
  using assms by (induction p) (auto split: list.splits)

lemma split_on_join:
  assumes "xs \<noteq> []" and "\<forall>x \<in> set xs. c \<notin> set x"
  shows "split_on c (join [c] xs) = xs"
  using assms
proof (induction xs rule: induct_list012)
  case (3 x y zs)
  then show ?case by (simp add: split_on_append)
qed (auto simp: split_on_clean)

lemma split2_SomeD: "split2 c s = Some (a, b) \<Longrightarrow> s = a @ c # b \<and> c \<notin> set a"
  by (induction s arbitrary: a) (fastforce split: option.splits if_splits)+

lemma split2_append [simp]: "c \<notin> set a \<Longrightarrow> split2 c (a @ c # b) = Some (a, b)"
  by (induction a) auto

lemma split2_None: "split2 c s = None \<longleftrightarrow> c \<notin> set s"
  by (induction s) (auto split: option.splits)

text \<open>The joined length: every part costs its own length, every gap the separator's.\<close>

lemma length_join1: "xs \<noteq> [] \<Longrightarrow> Suc (length (join [c] xs)) = sum_list (map (\<lambda>x. Suc (length x)) xs)"
  by (induction xs rule: induct_list012) auto

lemma length_split_on: "sum_list (map (\<lambda>x. Suc (length x)) (split_on c s)) = Suc (length s)"
  using length_join1 [OF split_on_not_Nil, of c c s] by (simp add: join_split_on)

section \<open>Lower case\<close>

text \<open>
  \<^verbatim>\<open>strings.ToLower\<close>. ASCII letters are lowered; of the other runes exactly two have an ASCII
  lower case, U+0130 (\<open>i\<close>) and U+212A (\<open>k\<close>). The remaining non-ASCII runes are left as they
  are here: the program only compares the result with ASCII text, for which they never matter.
\<close>

definition lower_char :: "char \<Rightarrow> char" where
  "lower_char c = (if CHR ''A'' \<le> c \<and> c \<le> CHR ''Z'' then char_of (of_char c + (32::nat)) else c)"

fun ToLower :: "string \<Rightarrow> string" where
  "ToLower [] = []"
| "ToLower [a] = [lower_char a]"
| "ToLower [a, b] =
     (if a = CHR 0xC4 \<and> b = CHR 0xB0 then ''i'' else lower_char a # ToLower [b])"
| "ToLower (a # b # c # r) =
     (if a = CHR 0xC4 \<and> b = CHR 0xB0 then CHR ''i'' # ToLower (c # r)
      else if a = CHR 0xE2 \<and> b = CHR 0x84 \<and> c = CHR 0xAA then CHR ''k'' # ToLower r
      else lower_char a # ToLower (b # c # r))"

text \<open>\<^verbatim>\<open>strings.EqualFold(s, t)\<close> for a \<open>t\<close> whose letters fold within ASCII only.\<close>

definition EqualFold_ascii :: "string \<Rightarrow> string \<Rightarrow> bool" where
  "EqualFold_ascii s t \<longleftrightarrow> map lower_char s = map lower_char t"

section \<open>Decimal numbers\<close>

definition digit_char :: "nat \<Rightarrow> char" where
  "digit_char d = char_of (48 + d)"

definition hex_digit :: "nat \<Rightarrow> char" where
  "hex_digit n = (if n < 10 then char_of (48 + n) else char_of (87 + n))"

fun nat_str :: "nat \<Rightarrow> string" where
  "nat_str n = (if n < 10 then [digit_char n] else nat_str (n div 10) @ [digit_char (n mod 10)])"

declare nat_str.simps [simp del]

text \<open>\<^verbatim>\<open>fmt.Sprintf("%d", i)\<close>\<close>

definition itoa :: "int \<Rightarrow> string" where
  "itoa i = (if i < 0 then CHR ''-'' # nat_str (nat (- i)) else nat_str (nat i))"

definition is_digit :: "char \<Rightarrow> bool" where
  "is_digit c \<longleftrightarrow> CHR ''0'' \<le> c \<and> c \<le> CHR ''9''"

fun digits_val :: "nat \<Rightarrow> string \<Rightarrow> nat option" where
  "digits_val n [] = Some n"
| "digits_val n (c # cs) =
     (if is_digit c then digits_val (10 * n + (of_char c - 48)) cs else None)"

definition parse_nat :: "string \<Rightarrow> nat option" where
  "parse_nat s = (if s = [] then None else digits_val 0 s)"

text \<open>\<^verbatim>\<open>strconv.Atoi\<close>: an optional sign, decimal digits, the value in the range of \<^verbatim>\<open>int\<close>.\<close>

definition Atoi :: "string \<Rightarrow> int option" where
  "Atoi s =
     (let (neg, ds) = (case s of
            c # cs \<Rightarrow> if c = CHR ''-'' then (True, cs) else if c = CHR ''+'' then (False, cs) else (False, s)
          | [] \<Rightarrow> (False, []))
      in (case parse_nat ds of
            None \<Rightarrow> None
          | Some n \<Rightarrow>
              (let i = (if neg then - int n else int n)
               in if - (2 ^ 63) \<le> i \<and> i < 2 ^ 63 then Some i else None)))"

lemma is_digit_digit_char: "d < 10 \<Longrightarrow> is_digit (digit_char d)"
  by (simp add: is_digit_def digit_char_def less_eq_char_def)

lemma of_char_digit_char: "d < 10 \<Longrightarrow> of_char (digit_char d) = 48 + d"
  by (simp add: digit_char_def)

lemma digits_val_append:
  "digits_val n (s @ t) = Option.bind (digits_val n s) (\<lambda>m. digits_val m t)"
  by (induction n s rule: digits_val.induct) auto

lemma nat_str_not_Nil [simp]: "nat_str n \<noteq> []"
  by (subst nat_str.simps) simp

lemma nat_str_digits: "c \<in> set (nat_str n) \<Longrightarrow> is_digit c"
proof (induction n arbitrary: c rule: nat_str.induct)
  case (1 n)
  then show ?case
    by (subst (asm) (2) nat_str.simps) (auto simp: is_digit_digit_char split: if_splits)
qed

lemma digits_val_nat_str: "digits_val 0 (nat_str n) = Some n"
proof (induction n rule: nat_str.induct)
  case (1 n)
  show ?case
    using 1 by (subst nat_str.simps)
      (auto simp: digits_val_append is_digit_digit_char of_char_digit_char)
qed

lemma parse_nat_nat_str [simp]: "parse_nat (nat_str n) = Some n"
  by (simp add: parse_nat_def digits_val_nat_str)

text \<open>Printing a Go integer and parsing it again gives it back.\<close>

lemma Atoi_itoa: "- (2 ^ 63) \<le> i \<Longrightarrow> i < 2 ^ 63 \<Longrightarrow> Atoi (itoa i) = Some i"
proof -
  assume i: "- (2 ^ 63) \<le> i" "i < 2 ^ 63"
  have no_sign: "nat_str n = c # cs \<Longrightarrow> c \<noteq> CHR ''-'' \<and> c \<noteq> CHR ''+''" for n c cs
    using nat_str_digits [of c n] by (auto simp: is_digit_def less_eq_char_def)
  show ?thesis
  proof (cases "i < 0")
    case True
    with i show ?thesis by (simp add: itoa_def Atoi_def)
  next
    case False
    obtain c cs where s: "nat_str (nat i) = c # cs"
      by (cases "nat_str (nat i)") auto
    have "parse_nat (c # cs) = Some (nat i)"
      using parse_nat_nat_str [of "nat i"] s by simp
    with False i s no_sign [OF s] show ?thesis by (simp add: itoa_def Atoi_def)
  qed
qed

lemma nat_str_inj: "nat_str m = nat_str n \<Longrightarrow> m = n"
  by (metis option.inject parse_nat_nat_str)

lemma nat_str_no_minus: "nat_str n \<noteq> CHR ''-'' # s"
  using nat_str_digits [of "CHR ''-''" n] by (auto simp: is_digit_def less_eq_char_def)

lemma itoa_inj: "itoa i = itoa j \<longleftrightarrow> i = j"
proof
  assume eq: "itoa i = itoa j"
  show "i = j"
  proof (cases "i < 0"; cases "j < 0")
    assume "i < 0" "j < 0"
    with eq have "nat (- i) = nat (- j)" by (simp add: itoa_def nat_str_inj)
    with \<open>i < 0\<close> \<open>j < 0\<close> show ?thesis by simp
  next
    assume "\<not> i < 0" "\<not> j < 0"
    with eq have "nat i = nat j" by (simp add: itoa_def nat_str_inj)
    with \<open>\<not> i < 0\<close> \<open>\<not> j < 0\<close> show ?thesis by simp
  qed (use eq nat_str_no_minus in \<open>auto simp: itoa_def dest: sym\<close>)
qed simp

lemma length_nat_str: "n < 10 ^ d \<Longrightarrow> 0 < d \<Longrightarrow> length (nat_str n) \<le> d"
proof (induction n arbitrary: d rule: nat_str.induct)
  case (1 n)
  show ?case
  proof (cases "n < 10")
    case True
    with "1.prems" show ?thesis by (subst nat_str.simps) simp
  next
    case False
    obtain e where d: "d = Suc e" and e: "0 < e"
      using "1.prems" False by (cases d; cases "d - 1") auto
    have "n div 10 < 10 ^ e"
      using "1.prems"(1) d by (simp add: less_mult_imp_div_less)
    then have "length (nat_str (n div 10)) \<le> e"
      using "1.IH" False e by simp
    then show ?thesis using False d by (subst nat_str.simps) simp
  qed
qed

end
