(* ===== verification/Go_Path.thy ===== *)
theory Go_Path
  imports Go_Strings
begin

text \<open>
  Go's \<^verbatim>\<open>path/filepath\<close> on Unix, as far as the program calls it: \<^verbatim>\<open>Clean\<close>, \<^verbatim>\<open>Dir\<close>,
  \<^verbatim>\<open>Join\<close>, \<^verbatim>\<open>Ext\<close> and \<^verbatim>\<open>Rel\<close>, and the facts about them on which the discovery of
  projects rests: a cleaned path stays as it is, and the parent of a path is shorter.
\<close>

section \<open>Definitions\<close>

text \<open>\<^verbatim>\<open>Clean\<close> keeps a stack of path elements, the last one on top.\<close>

definition clean_step :: "bool \<Rightarrow> string list \<Rightarrow> string \<Rightarrow> string list" where
  "clean_step rooted acc c =
     (if c = [] \<or> c = ''.'' then acc
      else if c = ''..'' then
        (case acc of
           [] \<Rightarrow> (if rooted then [] else [c])
         | a # as \<Rightarrow> (if a = ''..'' then c # acc else as))
      else c # acc)"

definition Clean :: "string \<Rightarrow> string" where
  "Clean p =
     (let rooted = HasPrefix p ''/'';
          out = join ''/'' (rev (foldl (clean_step rooted) [] (split_on slash p)))
      in if rooted then slash # out else if out = [] then ''.'' else out)"

text \<open>The path up to and including its last slash.\<close>

definition upto_last_slash :: "string \<Rightarrow> string" where
  "upto_last_slash p = rev (dropWhile (\<lambda>c. c \<noteq> slash) (rev p))"

definition Dir :: "string \<Rightarrow> string" where
  "Dir p = Clean (upto_last_slash p)"

definition Join :: "string list \<Rightarrow> string" where
  "Join elems = (case dropWhile (\<lambda>e. e = []) elems of [] \<Rightarrow> [] | es \<Rightarrow> Clean (join ''/'' es))"

text \<open>\<^verbatim>\<open>Ext\<close>: from the last dot of the last element, empty if it has none.\<close>

definition Ext :: "string \<Rightarrow> string" where
  "Ext p =
     (let r = rev p; suff = takeWhile (\<lambda>c. c \<noteq> CHR ''.'' \<and> c \<noteq> slash) r
      in case drop (length suff) r of
           c # _ \<Rightarrow> (if c = CHR ''.'' then c # rev suff else [])
         | [] \<Rightarrow> [])"

text \<open>The elements of a cleaned path, none for the current directory.\<close>

definition path_elems :: "string \<Rightarrow> string list" where
  "path_elems p = (if p = ''.'' then [] else filter (\<lambda>c. c \<noteq> []) (split_on slash p))"

fun drop_common :: "string list \<Rightarrow> string list \<Rightarrow> string list \<times> string list" where
  "drop_common (a # as) (b # bs) = (if a = b then drop_common as bs else (a # as, b # bs))"
| "drop_common as bs = (as, bs)"

text \<open>
  \<^verbatim>\<open>Rel(base, target)\<close>: an error (\<open>None\<close>) when only one of the two is rooted, or when the way
  up from the base would pass an unknown parent.
\<close>

definition Rel :: "string \<Rightarrow> string \<Rightarrow> string option" where
  "Rel basepath targpath =
     (let base = Clean basepath; targ = Clean targpath
      in if base = targ then Some ''.''
         else if HasPrefix base ''/'' \<noteq> HasPrefix targ ''/'' then None
         else
           (let (b, t) = drop_common (path_elems base) (path_elems targ)
            in if b \<noteq> [] \<and> hd b = ''..'' then None
               else Some (join ''/'' (replicate (length b) ''..'' @ t))))"

section \<open>Normal paths\<close>

text \<open>A normal element is a file or directory name: not empty, not a dot element, without a slash.\<close>

definition normal_elem :: "string \<Rightarrow> bool" where
  "normal_elem c \<longleftrightarrow> c \<noteq> [] \<and> c \<noteq> ''.'' \<and> c \<noteq> ''..'' \<and> slash \<notin> set c"

text \<open>The relative path with the given elements; the empty one is the current directory.\<close>

definition rel_path :: "string list \<Rightarrow> string" where
  "rel_path es = (if es = [] then ''.'' else join ''/'' es)"

lemma foldl_clean_normal:
  "\<forall>c \<in> set cs. normal_elem c \<Longrightarrow> foldl (clean_step r) acc cs = rev cs @ acc"
  by (induction cs arbitrary: acc) (auto simp: normal_elem_def clean_step_def)

lemma hd_join: "xs \<noteq> [] \<Longrightarrow> hd xs \<noteq> [] \<Longrightarrow> join sep xs \<noteq> [] \<and> hd (join sep xs) = hd (hd xs)"
  by (induction xs rule: induct_list012) auto

lemma join_normal_not_Nil:
  assumes "es \<noteq> []" and "\<forall>c \<in> set es. normal_elem c"
  shows "join ''/'' es \<noteq> []"
  using hd_join [of es "''/''"] assms by (cases es) (simp_all add: normal_elem_def)

lemma not_rooted_join:
  assumes "es \<noteq> []" and "\<forall>c \<in> set es. normal_elem c"
  shows "\<not> HasPrefix (join ''/'' es) ''/''"
proof -
  obtain e r where e: "es = e # r" and ne: "normal_elem e"
    using assms by (cases es) auto
  obtain c s where c: "e = c # s" and "c \<noteq> slash"
    using ne by (cases e) (auto simp: normal_elem_def)
  then show ?thesis
    using hd_join [of es "''/''"] e by (cases "join ''/'' es") (auto simp: HasPrefix_def)
qed

lemma split_join_normal:
  assumes "es \<noteq> []" and "\<forall>c \<in> set es. normal_elem c"
  shows "split_on slash (join ''/'' es) = es"
  using assms by (intro split_on_join) (auto simp: normal_elem_def)

text \<open>Cleaning a normal relative path changes nothing.\<close>

lemma Clean_rel_path: "\<forall>c \<in> set es. normal_elem c \<Longrightarrow> Clean (rel_path es) = rel_path es"
proof (cases "es = []")
  case True
  then show ?thesis
    by (simp add: rel_path_def Clean_def HasPrefix_def clean_step_def)
next
  case False
  assume n: "\<forall>c \<in> set es. normal_elem c"
  have "join ''/'' es \<noteq> []" using False n by (rule join_normal_not_Nil)
  then show ?thesis
    using False n
    by (simp add: rel_path_def Clean_def not_rooted_join split_join_normal foldl_clean_normal)
qed

lemma join_snoc: "xs \<noteq> [] \<Longrightarrow> join sep (xs @ [x]) = join sep xs @ sep @ x"
  by (induction xs rule: induct_list012) auto

lemma upto_last_slash_no: "slash \<notin> set p \<Longrightarrow> upto_last_slash p = []"
  by (simp add: upto_last_slash_def dropWhile_eq_Nil_conv) (metis)

lemma upto_last_slash_append:
  assumes "slash \<notin> set q"
  shows "upto_last_slash (p @ slash # q) = p @ [slash]"
proof -
  have "\<And>x. x \<in> set (rev q) \<Longrightarrow> x \<noteq> slash" using assms by auto
  from dropWhile_append2 [of "rev q" "\<lambda>c. c \<noteq> slash" "slash # rev p", OF this]
  show ?thesis by (simp add: upto_last_slash_def)
qed

lemma Clean_trailing:
  assumes "es \<noteq> []" and "\<forall>c \<in> set es. normal_elem c"
  shows "Clean (join ''/'' es @ ''/'') = join ''/'' es"
proof -
  have ne: "join ''/'' es \<noteq> []" using assms by (rule join_normal_not_Nil)
  have "split_on slash (join ''/'' (es @ [[]])) = es @ [[]]"
    using assms by (intro split_on_join) (auto simp: normal_elem_def)
  then have split: "split_on slash (join ''/'' es @ ''/'') = es @ [[]]"
    using assms by (simp add: join_snoc)
  have "HasPrefix (join ''/'' es @ ''/'') ''/'' = HasPrefix (join ''/'' es) ''/''"
    using ne by (cases "join ''/'' es") (auto simp: HasPrefix_def)
  then show ?thesis
    using assms ne
    by (simp add: Clean_def split not_rooted_join foldl_clean_normal clean_step_def)
qed

text \<open>The parent of a normal relative path drops its last element.\<close>

lemma Dir_rel_path:
  assumes "\<forall>c \<in> set (es @ [e]). normal_elem c"
  shows "Dir (rel_path (es @ [e])) = rel_path es"
proof (cases "es = []")
  case True
  then show ?thesis
    using assms Clean_rel_path [of "[]"]
    by (simp add: Dir_def rel_path_def upto_last_slash_no normal_elem_def
        Clean_def HasPrefix_def clean_step_def)
next
  case False
  have "slash \<notin> set e" using assms by (simp add: normal_elem_def)
  then have "upto_last_slash (join ''/'' (es @ [e])) = join ''/'' es @ ''/''"
    using False upto_last_slash_append [of e "join ''/'' es"] by (simp add: join_snoc)
  with False assms show ?thesis
    by (simp add: Dir_def rel_path_def Clean_trailing)
qed

section \<open>The parent is shorter\<close>

lemma clean_step_weight:
  "sum_list (map (\<lambda>x. Suc (length x)) (clean_step r acc c))
     \<le> sum_list (map (\<lambda>x. Suc (length x)) acc) + (if c = [] then 0 else Suc (length c))"
  by (auto simp: clean_step_def split: list.splits)

lemma foldl_clean_weight:
  "sum_list (map (\<lambda>x. Suc (length x)) (foldl (clean_step r) acc cs))
     \<le> sum_list (map (\<lambda>x. Suc (length x)) acc)
       + sum_list (map (\<lambda>c. if c = [] then 0 else Suc (length c)) cs)"
proof (induction cs arbitrary: acc)
  case (Cons c cs)
  show ?case
    using Cons.IH [of "clean_step r acc c"] clean_step_weight [of r acc c] by simp
qed simp

lemma weight_slack:
  "sum_list (map (\<lambda>c. if c = [] then 0 else Suc (length c)) cs) + length (filter (\<lambda>c. c = []) cs)
     = sum_list (map (\<lambda>x. Suc (length x)) cs)"
  by (induction cs) auto

lemma length_join_rev:
  "acc \<noteq> [] \<Longrightarrow> Suc (length (join [c] (rev acc))) = sum_list (map (\<lambda>x. Suc (length x)) acc)"
  by (subst length_join1) (simp_all flip: rev_map)

lemma split_on_snoc: "split_on c (p @ [c]) = split_on c p @ [[]]"
proof (induction p)
  case (Cons a p)
  then show ?case by (cases "split_on c p") auto
qed simp

lemma split_on_rooted: "split_on c (c # p) = [] # split_on c p"
  by simp

text \<open>Cleaning a path that ends in a slash makes it shorter, unless it is the root or the result is \<^verbatim>\<open>.\<close>.\<close>

lemma Clean_trailing_shorter:
  assumes p: "p = q @ [slash]" and root: "p \<noteq> ''/''"
  shows "length (Clean p) < length p \<or> Clean p = ''.''"
proof -
  define acc where "acc = foldl (clean_step (HasPrefix p ''/'')) [] (split_on slash p)"
  define empties where "empties = length (filter (\<lambda>c. c = []) (split_on slash p))"
  have w: "sum_list (map (\<lambda>x. Suc (length x)) acc) + empties \<le> Suc (length p)"
    using foldl_clean_weight [of "HasPrefix p ''/''" "[]" "split_on slash p"]
      weight_slack [of "split_on slash p"]
    by (simp add: acc_def empties_def length_split_on)
  have e1: "1 \<le> empties" by (simp add: empties_def p split_on_snoc)
  have out: "Suc (length (join ''/'' (rev acc))) = sum_list (map (\<lambda>x. Suc (length x)) acc)"
    if "acc \<noteq> []" using that by (rule length_join_rev)
  show ?thesis
  proof (cases "HasPrefix p ''/''")
    case True
    obtain q' where q: "q = slash # q'"
      using True root p by (cases q) (auto simp: HasPrefix_def)
    then have "2 \<le> empties" by (simp add: empties_def p split_on_snoc)
    moreover have "Clean p = slash # join ''/'' (rev acc)"
      using True by (simp add: Clean_def acc_def)
    ultimately show ?thesis
      using w out q p by (cases "acc = []") auto
  next
    case False
    then have "Clean p = (if join ''/'' (rev acc) = [] then ''.'' else join ''/'' (rev acc))"
      by (simp add: Clean_def acc_def Let_def)
    then show ?thesis
      using w out e1 by (cases "acc = []") auto
  qed
qed

lemma upto_last_slash_cases:
  obtains "upto_last_slash p = []" | q r where "upto_last_slash p = q @ [slash]" "p = q @ [slash] @ r"
proof (cases "dropWhile (\<lambda>c. c \<noteq> slash) (rev p)")
  case Nil
  then show ?thesis using that(1) by (simp add: upto_last_slash_def)
next
  case (Cons c s)
  then have "c = slash" using hd_dropWhile [of "\<lambda>c. c \<noteq> slash" "rev p"] by simp
  moreover have "rev p = takeWhile (\<lambda>c. c \<noteq> slash) (rev p) @ c # s"
    using Cons takeWhile_dropWhile_id [of "\<lambda>c. c \<noteq> slash" "rev p"] by simp
  then have "p = rev s @ [c] @ rev (takeWhile (\<lambda>c. c \<noteq> slash) (rev p))"
    by (metis append.assoc append_Cons append_Nil rev.simps(2) rev_append rev_rev_ident)
  moreover have "upto_last_slash p = rev s @ [c]"
    using Cons by (simp add: upto_last_slash_def)
  ultimately show ?thesis using that(2) by metis
qed

lemma Dir_shorter:
  assumes "p \<noteq> ''/''" and "p \<noteq> ''.''"
  shows "length (Dir p) < length p \<or> Dir p = ''.'' \<or> Dir p = ''/''"
proof (rule upto_last_slash_cases [of p])
  assume "upto_last_slash p = []"
  then show ?thesis
    by (simp add: Dir_def Clean_def HasPrefix_def clean_step_def)
next
  fix q r
  assume q: "upto_last_slash p = q @ [slash]" "p = q @ [slash] @ r"
  show ?thesis
  proof (cases "q = []")
    case True
    with q show ?thesis by (simp add: Dir_def Clean_def HasPrefix_def clean_step_def)
  next
    case False
    then show ?thesis
      using Clean_trailing_shorter [of "q @ [slash]" q] q by (auto simp: Dir_def)
  qed
qed

end
