(* ===== verification/Discovery.thy ===== *)
theory Discovery
  imports Go_Path
begin

text \<open>
  \<^verbatim>\<open>internal/project/discovery.go\<close>: from the files a merge request changes to the
  \<^verbatim>\<open>thule.conf\<close> candidates above them. The model has the climbing loop as a function with a
  proof that it ends, and the facts say which candidates come out: one for every ancestor
  directory, the repository root included, each once.
\<close>

section \<open>Model\<close>

record DiscoveredProject =
  Root :: string
  ConfigPath :: string

definition configFilename :: string where
  "configFilename = ''thule.conf''"

text \<open>The inner loop: the candidates met on the way up from a directory.\<close>

function climb :: "string \<Rightarrow> string list" where
  "climb dir =
     Join [dir, configFilename] #
     (if dir = ''.'' \<or> dir = ''/'' then []
      else (let nxt = Dir dir in if nxt = dir then [] else climb nxt))"
  by pat_completeness auto
termination
proof (relation "measure (\<lambda>d. if d = ''.'' \<or> d = ''/'' then 0 else Suc (length d))")
  fix dir nxt
  assume "\<not> (dir = ''.'' \<or> dir = ''/'')" and "nxt = Dir dir"
  then show "(nxt, dir) \<in> measure (\<lambda>d. if d = ''.'' \<or> d = ''/'' then 0 else Suc (length d))"
    using Dir_shorter [of dir] by auto
qed simp

declare climb.simps [simp del]

text \<open>
  The candidates of all changed files, in the order they are met. The code collects them in a Go
  map, whose iteration order is the parameter \<open>perm\<close>.
\<close>

definition candidates :: "string list \<Rightarrow> string list" where
  "candidates changedFiles =
     concat (map (\<lambda>p. climb (Dir (Clean p))) (filter (\<lambda>p. TrimSpace p \<noteq> []) changedFiles))"

definition DiscoverFromChangedFiles ::
  "(string list \<Rightarrow> string list) \<Rightarrow> string list \<Rightarrow> DiscoveredProject list" where
  "DiscoverFromChangedFiles perm changedFiles =
     map (\<lambda>configPath. \<lparr>Root = Dir configPath, ConfigPath = configPath\<rparr>)
       (perm (remdups (candidates changedFiles)))"

section \<open>The climb ends\<close>

lemma length_climb: "length (climb dir) \<le> (if dir = ''.'' \<or> dir = ''/'' then 1 else length dir + 2)"
proof (induction dir rule: climb.induct)
  case (1 dir)
  show ?case
  proof (cases "dir = ''.'' \<or> dir = ''/'' \<or> Dir dir = dir")
    case True
    then show ?thesis by (subst climb.simps) (auto simp: Let_def)
  next
    case False
    then have "length (climb dir) = Suc (length (climb (Dir dir)))" by (subst climb.simps) (simp add: Let_def)
    moreover have "length (climb (Dir dir)) \<le> (if Dir dir = ''.'' \<or> Dir dir = ''/'' then 1 else length (Dir dir) + 2)"
      using 1 False by simp
    ultimately show ?thesis using Dir_shorter [of dir] False by (auto split: if_splits)
  qed
qed

text \<open>
  C28. Discovery ends on every input, also on paths no repository has (absolute ones, with dots, with
  repeated slashes): the loop over the directories above a changed file makes at most two steps more
  than its directory has bytes.
\<close>

theorem discovery_ends:
  "length (candidates files) \<le> (\<Sum>p\<leftarrow>files. length (Dir (Clean p)) + 2)"
proof (induction files)
  case (Cons p files)
  have "length (climb (Dir (Clean p))) \<le> length (Dir (Clean p)) + 2"
    using length_climb [of "Dir (Clean p)"] by (simp split: if_splits)
  then show ?case using Cons by (simp add: candidates_def)
qed (simp add: candidates_def)

section \<open>Which projects are discovered\<close>

text \<open>A repository path as git reports it: file and directory names joined by slashes.\<close>

definition normal_path :: "string \<Rightarrow> bool" where
  "normal_path p \<longleftrightarrow> (\<forall>c \<in> set (split_on slash p). normal_elem c)"

lemma normal_configFilename [simp]: "normal_elem configFilename"
  by (simp add: normal_elem_def configFilename_def)

lemma normal_path_obtain:
  assumes "normal_path p"
  obtains es e where "p = rel_path (es @ [e])" and "\<forall>c \<in> set (es @ [e]). normal_elem c"
    and "split_on slash p = es @ [e]"
proof -
  have "p = rel_path (split_on slash p)"
    by (simp add: rel_path_def join_split_on)
  then show ?thesis
    using assms that [of "butlast (split_on slash p)" "last (split_on slash p)"]
    by (simp add: normal_path_def)
qed

lemma Join_config:
  assumes "\<forall>c \<in> set es. normal_elem c"
  shows "Join [rel_path es, configFilename] = rel_path (es @ [configFilename])"
proof (cases "es = []")
  case True
  then show ?thesis
    by (simp add: Join_def rel_path_def Clean_def HasPrefix_def clean_step_def configFilename_def)
next
  case False
  have "rel_path es \<noteq> []" using assms False by (simp add: rel_path_def join_normal_not_Nil)
  then have "Join [rel_path es, configFilename] = Clean (rel_path (es @ [configFilename]))"
    using False by (simp add: Join_def rel_path_def join_snoc)
  also have "\<dots> = rel_path (es @ [configFilename])"
    using assms by (intro Clean_rel_path) simp
  finally show ?thesis .
qed

lemma rel_path_not_dot:
  assumes "\<forall>c \<in> set es. normal_elem c" and "es \<noteq> []"
  shows "rel_path es \<noteq> ''.'' \<and> rel_path es \<noteq> ''/''"
proof
  show "rel_path es \<noteq> ''/''"
    using not_rooted_join [of es] assms by (auto simp: rel_path_def HasPrefix_def)
  show "rel_path es \<noteq> ''.''"
  proof
    assume "rel_path es = ''.''"
    then have "join ''/'' es = ''.''" using assms(2) by (simp add: rel_path_def)
    then have "es = [''.'']" using split_join_normal [of es] assms by simp
    then show False using assms(1) by (simp add: normal_elem_def)
  qed
qed

lemma rel_path_Nil [simp]: "rel_path [] = ''.''"
  by (simp add: rel_path_def)

lemma rel_path_inj:
  assumes "\<forall>c \<in> set es. normal_elem c" and "\<forall>c \<in> set fs. normal_elem c"
    and eq: "rel_path es = rel_path fs"
  shows "es = fs"
proof -
  have e: "es \<noteq> [] \<Longrightarrow> rel_path es \<noteq> ''.''" and f: "fs \<noteq> [] \<Longrightarrow> rel_path fs \<noteq> ''.''"
    using rel_path_not_dot assms by blast+
  show ?thesis
  proof (cases "es = []")
    case True
    then show ?thesis using f eq by (metis rel_path_Nil)
  next
    case False
    then have "fs \<noteq> []" using e eq by (metis rel_path_Nil)
    with False eq have "join ''/'' es = join ''/'' fs" by (simp add: rel_path_def)
    then show ?thesis
      using split_join_normal False \<open>fs \<noteq> []\<close> assms(1,2) by metis
  qed
qed

text \<open>The loop visits exactly the ancestors of the directory it starts from.\<close>

lemma climb_rel_path:
  "\<forall>c \<in> set es. normal_elem c \<Longrightarrow>
     climb (rel_path es)
       = map (\<lambda>k. rel_path (take k es @ [configFilename])) (rev [0..<Suc (length es)])"
proof (induction es rule: rev_induct)
  case Nil
  show ?case
    using Join_config [of "[]"] by (subst climb.simps) simp
next
  case (snoc e es)
  have nd: "rel_path (es @ [e]) \<noteq> ''.'' \<and> rel_path (es @ [e]) \<noteq> ''/''"
    using snoc.prems by (intro rel_path_not_dot) auto
  have up: "Dir (rel_path (es @ [e])) = rel_path es"
    using snoc.prems by (rule Dir_rel_path)
  have "rel_path es \<noteq> rel_path (es @ [e])"
    using rel_path_inj [of es "es @ [e]"] snoc.prems by auto
  then have "climb (rel_path (es @ [e]))
      = rel_path (es @ [e, configFilename]) # climb (rel_path es)"
    using nd up Join_config [OF snoc.prems] by (subst climb.simps) simp
  also have "\<dots> = map (\<lambda>k. rel_path (take k (es @ [e]) @ [configFilename]))
      (rev [0..<Suc (length (es @ [e]))])"
    using snoc by simp
  finally show ?case .
qed

lemma climb_file:
  assumes "normal_path p" and "split_on slash p = es @ [e]"
  shows "set (climb (Dir (Clean p)))
    = (\<lambda>k. rel_path (take k es @ [configFilename])) ` {..length es}"
proof -
  have p: "p = rel_path (es @ [e])"
    using assms(2) by (metis join_split_on rel_path_def snoc_eq_iff_butlast)
  have n: "\<forall>c \<in> set (es @ [e]). normal_elem c"
    using assms by (simp add: normal_path_def)
  have "Dir (Clean p) = rel_path es"
    using p n by (simp add: Clean_rel_path Dir_rel_path)
  then show ?thesis
    using n by (simp add: climb_rel_path lessThan_Suc_atMost atLeast0LessThan
        del: upt_Suc)
qed

text \<open>The directories above a file, as element lists.\<close>

definition ancestor_elems :: "string \<Rightarrow> string list list" where
  "ancestor_elems p = map (\<lambda>k. take k (split_on slash p)) [0..<length (split_on slash p)]"

lemma climb_ancestors:
  assumes "normal_path p"
  shows "set (climb (Dir (Clean p)))
    = (\<lambda>es. rel_path (es @ [configFilename])) ` set (ancestor_elems p)"
proof -
  obtain es e where s: "split_on slash p = es @ [e]"
    using assms by (rule normal_path_obtain)
  have "set (ancestor_elems p) = (\<lambda>k. take k es) ` {..length es}"
    using s by (auto simp: ancestor_elems_def atLeast0LessThan less_Suc_eq_le
        simp del: upt_Suc intro!: image_eqI)
  then show ?thesis
    using climb_file [OF assms s] by (simp add: image_image)
qed

lemma ancestor_elems_normal:
  assumes "normal_path p" and "es \<in> set (ancestor_elems p)" and "c \<in> set es"
  shows "normal_elem c"
  using assms by (auto simp: ancestor_elems_def normal_path_def dest: in_set_takeD)

lemma climb_projects:
  assumes "normal_path p"
  shows "(\<lambda>c. \<lparr>Root = Dir c, ConfigPath = c\<rparr>) ` set (climb (Dir (Clean p)))
    = (\<lambda>es. \<lparr>Root = rel_path es, ConfigPath = rel_path (es @ [configFilename])\<rparr>)
        ` set (ancestor_elems p)"
proof -
  have "Dir (rel_path (es @ [configFilename])) = rel_path es" if "es \<in> set (ancestor_elems p)" for es
    using ancestor_elems_normal [OF assms that] by (intro Dir_rel_path) auto
  then show ?thesis
    unfolding climb_ancestors [OF assms] image_image by (intro image_cong) simp_all
qed

text \<open>
  C27. On repository paths, the discovered projects are the ancestor directories of the changed
  files that are not blank, the repository root included: each is listed once, with its directory
  as the root and its \<^verbatim>\<open>thule.conf\<close> as the configuration path, in whatever order the runtime
  iterates over the map.
\<close>

theorem discover_ancestors:
  assumes "iteration_order perm" and "list_all normal_path files"
  shows "set (DiscoverFromChangedFiles perm files)
      = (\<Union>p \<in> {p \<in> set files. TrimSpace p \<noteq> []}.
           (\<lambda>es. \<lparr>Root = rel_path es, ConfigPath = rel_path (es @ [configFilename])\<rparr>)
             ` set (ancestor_elems p))
    \<and> distinct (map ConfigPath (DiscoverFromChangedFiles perm files))"
proof
  have "set (DiscoverFromChangedFiles perm files) =
      (\<lambda>c. \<lparr>Root = Dir c, ConfigPath = c\<rparr>) ` set (candidates files)"
    by (simp add: DiscoverFromChangedFiles_def iteration_order_set [OF assms(1)])
  also have "\<dots> = (\<Union>p \<in> {p \<in> set files. TrimSpace p \<noteq> []}.
      (\<lambda>c. \<lparr>Root = Dir c, ConfigPath = c\<rparr>) ` set (climb (Dir (Clean p))))"
    by (simp add: candidates_def image_UN)
  also have "\<dots> = (\<Union>p \<in> {p \<in> set files. TrimSpace p \<noteq> []}.
      (\<lambda>es. \<lparr>Root = rel_path es, ConfigPath = rel_path (es @ [configFilename])\<rparr>)
        ` set (ancestor_elems p))"
    using assms(2) by (intro SUP_cong refl climb_projects) (simp add: list_all_iff)
  finally show "set (DiscoverFromChangedFiles perm files)
      = (\<Union>p \<in> {p \<in> set files. TrimSpace p \<noteq> []}.
           (\<lambda>es. \<lparr>Root = rel_path es, ConfigPath = rel_path (es @ [configFilename])\<rparr>)
             ` set (ancestor_elems p))" .
  show "distinct (map ConfigPath (DiscoverFromChangedFiles perm files))"
    by (simp add: DiscoverFromChangedFiles_def comp_def iteration_order_distinct [OF assms(1)])
qed

theorem discover_ancestors_witness:
  "\<lparr>Root = ''apps'', ConfigPath = ''apps/thule.conf''\<rparr>
     \<in> set (DiscoverFromChangedFiles rev [''apps/pay.yaml''])"
proof -
  have n: "list_all normal_path [''apps/pay.yaml'']"
    by (simp add: normal_path_def normal_elem_def)
  have a: "[''apps''] \<in> set (ancestor_elems ''apps/pay.yaml'')"
    by (simp add: ancestor_elems_def)
  have t: "TrimSpace ''apps/pay.yaml'' \<noteq> []"
    by (simp add: TrimSpace_def trim_back_def trim_front_def ascii_space_def space2_def space3_def)
  have r: "rel_path [''apps''] = ''apps''" "rel_path ([''apps''] @ [configFilename]) = ''apps/thule.conf''"
    by (simp_all add: rel_path_def configFilename_def)
  show ?thesis
    unfolding discover_ancestors [OF iteration_order_rev n, THEN conjunct1]
    using imageI [OF a, of "\<lambda>es. \<lparr>Root = rel_path es, ConfigPath = rel_path (es @ [configFilename])\<rparr>"]
      t r by simp
qed

text \<open>
  The root is always among them: any event with a file name that is not blank discovers the
  directory \<^verbatim>\<open>.\<close>, whether or not a configuration file exists there.
\<close>

lemma discover_root:
  assumes "iteration_order perm" and "normal_path p" and "p \<in> set files" and "TrimSpace p \<noteq> []"
  shows "''.'' \<in> Root ` set (DiscoverFromChangedFiles perm files)"
proof -
  obtain es e where s: "split_on slash p = es @ [e]"
    using assms(2) by (rule normal_path_obtain)
  have "[] \<in> set (ancestor_elems p)"
    using s by (force simp: ancestor_elems_def simp del: upt_Suc)
  then have "rel_path ([] @ [configFilename]) \<in> set (climb (Dir (Clean p)))"
    unfolding climb_ancestors [OF assms(2)] by (rule imageI)
  then have c: "rel_path [configFilename] \<in> set (candidates files)"
    using assms(3,4) by (auto simp: candidates_def)
  have "Dir (rel_path [configFilename]) = ''.''"
    using Dir_rel_path [of "[]" configFilename] by (simp add: rel_path_def)
  with c show ?thesis
    by (force simp: DiscoverFromChangedFiles_def iteration_order_set [OF assms(1)] image_image)
qed

lemma discover_Nil [simp]:
  assumes "iteration_order perm"
  shows "DiscoverFromChangedFiles perm [] = []"
proof -
  have "set (perm []) = {}" using iteration_order_set [OF assms] by simp
  then show ?thesis by (simp add: DiscoverFromChangedFiles_def candidates_def)
qed

end
