(* ===== verification/Lock.thy ===== *)
theory Lock
  imports Prelude
begin

text \<open>
  \<^verbatim>\<open>internal/lock/memory.go\<close>: the in-memory locker that ties a project directory of a repository
  to one merge request. The mutex makes every operation atomic, so an operation is a function on
  the lock table. The locale \<open>project_locker\<close> states what the orchestrator relies on in terms of
  the owner of a project, and \<open>MemoryLocker\<close> is shown to provide it.
\<close>

section \<open>Model\<close>

record MemoryLocker =
  locks :: "string \<rightharpoonup> (string \<rightharpoonup> int)"

definition NewMemoryLocker :: MemoryLocker where
  "NewMemoryLocker = \<lparr>locks = Map.empty\<rparr>"

text \<open>A Go read of a missing inner map gives the nil map, which has no entry.\<close>

definition repo_locks :: "MemoryLocker \<Rightarrow> string \<Rightarrow> (string \<rightharpoonup> int)" where
  "repo_locks m repo = (case locks m repo of None \<Rightarrow> Map.empty | Some l \<Rightarrow> l)"

definition Acquire :: "string \<Rightarrow> string \<Rightarrow> int \<Rightarrow> MemoryLocker \<Rightarrow> (bool \<times> int) \<times> MemoryLocker" where
  "Acquire repo projectKey mergeReqID m =
     (let m1 = (if locks m repo = None then m\<lparr>locks := (locks m)(repo \<mapsto> Map.empty)\<rparr> else m);
          l = repo_locks m1 repo
      in case l projectKey of
           None \<Rightarrow>
             ((True, mergeReqID), m1\<lparr>locks := (locks m1)(repo \<mapsto> l(projectKey \<mapsto> mergeReqID))\<rparr>)
         | Some owner \<Rightarrow>
             (if owner = mergeReqID then
                ((True, mergeReqID), m1\<lparr>locks := (locks m1)(repo \<mapsto> l(projectKey \<mapsto> mergeReqID))\<rparr>)
              else ((False, owner), m1)))"

definition ReleaseByMR :: "string \<Rightarrow> int \<Rightarrow> MemoryLocker \<Rightarrow> MemoryLocker" where
  "ReleaseByMR repo mergeReqID m =
     (case locks m repo of
        None \<Rightarrow> m
      | Some l \<Rightarrow>
          m\<lparr>locks := (locks m)(repo \<mapsto> (\<lambda>key. if l key = Some mergeReqID then None else l key))\<rparr>)"

definition ListLocks :: "string \<Rightarrow> MemoryLocker \<Rightarrow> (string \<rightharpoonup> int)" where
  "ListLocks repo m = repo_locks m repo"

section \<open>The interface the orchestrator relies on\<close>

locale project_locker =
  fixes acquire :: "string \<Rightarrow> string \<Rightarrow> int \<Rightarrow> 'l \<Rightarrow> (bool \<times> int) \<times> 'l"
    and release :: "string \<Rightarrow> int \<Rightarrow> 'l \<Rightarrow> 'l"
    and owner :: "'l \<Rightarrow> string \<Rightarrow> string \<Rightarrow> int option"
  assumes acquire_granted:
      "owner l repo key = None \<or> owner l repo key = Some mr \<Longrightarrow>
         fst (acquire repo key mr l) = (True, mr) \<and>
         owner (snd (acquire repo key mr l)) = (owner l)(repo := (owner l repo)(key \<mapsto> mr))"
    and acquire_refused:
      "owner l repo key = Some mr' \<Longrightarrow> mr' \<noteq> mr \<Longrightarrow> acquire repo key mr l = ((False, mr'), l)"
    and release_owner:
      "owner (release repo mr l) =
         (owner l)(repo := (\<lambda>key. if owner l repo key = Some mr then None else owner l repo key))"
begin

lemma acquire_cases:
  obtains (granted) "owner l repo key = None \<or> owner l repo key = Some mr"
      and "fst (acquire repo key mr l) = (True, mr)"
      and "owner (snd (acquire repo key mr l)) = (owner l)(repo := (owner l repo)(key \<mapsto> mr))"
  | (refused) mr' where "owner l repo key = Some mr'" and "mr' \<noteq> mr"
      and "acquire repo key mr l = ((False, mr'), l)"
proof (cases "owner l repo key = None \<or> owner l repo key = Some mr")
  case True
  then show ?thesis using granted acquire_granted by blast
next
  case False
  then obtain mr' where "owner l repo key = Some mr'" "mr' \<noteq> mr" by auto
  then show ?thesis using refused acquire_refused by blast
qed

lemma acquire_true_iff:
  "fst (fst (acquire repo key mr l)) \<longleftrightarrow> owner l repo key = None \<or> owner l repo key = Some mr"
  by (rule acquire_cases [of l repo key mr]) auto

text \<open>No request ever takes a project from another merge request.\<close>

lemma acquire_keeps:
  assumes "owner l repo' key' = Some mr'"
  shows "owner (snd (acquire repo key mr l)) repo' key' = Some mr'"
  using assms by (cases rule: acquire_cases [of l repo key mr]) auto

lemma acquire_owner_mono:
  "owner (snd (acquire repo key mr l)) repo' key' = owner l repo' key' \<or>
   (repo' = repo \<and> key' = key \<and> owner l repo' key' = None \<and>
    owner (snd (acquire repo key mr l)) repo' key' = Some mr)"
  by (cases rule: acquire_cases [of l repo key mr]) auto

text \<open>After a release, only the projects that request held in that repository are free.\<close>

lemma release_frees: "owner (release repo mr l) repo key \<noteq> Some mr"
  by (simp add: release_owner)

lemma release_keeps: "owner l repo' key = Some mr' \<Longrightarrow> repo' \<noteq> repo \<or> mr' \<noteq> mr \<Longrightarrow>
  owner (release repo mr l) repo' key = Some mr'"
  by (auto simp: release_owner)

lemma acquire_after_release:
  assumes "owner l repo key = Some mr"
  shows "fst (acquire repo key mr' (release repo mr l)) = (True, mr')"
  using assms acquire_granted [of "release repo mr l" repo key mr'] by (simp add: release_owner)

end

section \<open>The in-memory locker provides it\<close>

definition lock_owner :: "MemoryLocker \<Rightarrow> string \<Rightarrow> string \<Rightarrow> int option" where
  "lock_owner m repo key = ListLocks repo m key"

lemmas lock_defs = lock_owner_def ListLocks_def repo_locks_def

lemma lock_owner_New [simp]: "lock_owner NewMemoryLocker = (\<lambda>_ _. None)"
  by (simp add: fun_eq_iff lock_defs NewMemoryLocker_def)

lemma Acquire_granted:
  assumes "lock_owner l repo key = None \<or> lock_owner l repo key = Some mr"
  shows "fst (Acquire repo key mr l) = (True, mr) \<and>
    lock_owner (snd (Acquire repo key mr l)) = (lock_owner l)(repo := (lock_owner l repo)(key \<mapsto> mr))"
  using assms
  by (cases "locks l repo") (auto simp: lock_defs Acquire_def Let_def fun_eq_iff split: option.splits)

lemma Acquire_refused:
  assumes "lock_owner l repo key = Some mr'" and "mr' \<noteq> mr"
  shows "Acquire repo key mr l = ((False, mr'), l)"
  using assms by (cases "locks l repo") (auto simp: lock_defs Acquire_def Let_def)

lemma ReleaseByMR_owner:
  "lock_owner (ReleaseByMR repo mr l) =
     (lock_owner l)(repo := (\<lambda>key. if lock_owner l repo key = Some mr then None else lock_owner l repo key))"
  by (cases "locks l repo") (auto simp: lock_defs ReleaseByMR_def fun_eq_iff)

interpretation mem_lock: project_locker Acquire ReleaseByMR lock_owner
  by unfold_locales (simp_all add: Acquire_granted Acquire_refused ReleaseByMR_owner)

text \<open>
  A project belongs to at most one merge request: an acquisition succeeds exactly when the
  project is free or already held by the same request, and then only that project changes hands;
  it is refused otherwise, with the holder reported and nothing changed.
\<close>

theorem acquire_spec:
  "Acquire repo key mr l =
     (if lock_owner l repo key = None \<or> lock_owner l repo key = Some mr
      then ((True, mr), snd (Acquire repo key mr l))
      else ((False, the (lock_owner l repo key)), l)) \<and>
   lock_owner (snd (Acquire repo key mr l)) repo' key' =
     (if repo' = repo \<and> key' = key \<and> lock_owner l repo key = None
      then Some mr else lock_owner l repo' key')"
  by (cases rule: mem_lock.acquire_cases [of l repo key mr]) (auto simp: prod_eq_iff)

text \<open>
  Closing a merge request frees exactly the projects it holds in that repository, and each of
  them can then be acquired by any other request.
\<close>

theorem release_then_acquire:
  "(lock_owner (ReleaseByMR repo mr l) repo' key =
      (if repo' = repo \<and> lock_owner l repo key = Some mr then None else lock_owner l repo' key)) \<and>
   (lock_owner l repo key \<in> {None, Some mr} \<longrightarrow>
      fst (Acquire repo key mr' (ReleaseByMR repo mr l)) = (True, mr'))"
  using mem_lock.acquire_granted [of "ReleaseByMR repo mr l" repo key mr']
  by (auto simp: ReleaseByMR_owner)

theorem release_then_acquire_witness:
  "fst (Acquire ''r'' ''apps'' 2 (ReleaseByMR ''r'' 1 (snd (Acquire ''r'' ''apps'' 1 NewMemoryLocker))))
     = (True, 2)"
  using release_then_acquire
    [of "''r''" 1 "snd (Acquire ''r'' ''apps'' 1 NewMemoryLocker)" "''r''" "''apps''" 2]
  by (simp add: Acquire_granted)

end
