(* ===== verification/Storage.thy ===== *)
theory Storage
  imports Go_Strings
begin

text \<open>
  \<^verbatim>\<open>internal/storage\<close>: the delivery store that makes webhook deliveries idempotent
  (\<^verbatim>\<open>memory.go\<close>) and the two dedupe stores that suppress repeated plan requests for a while
  (\<^verbatim>\<open>dedupe_memory.go\<close>, \<^verbatim>\<open>dedupe_redis.go\<close>). The locales \<open>delivery_store\<close> and
  \<open>dedupe_store\<close> are the interfaces of \<^verbatim>\<open>memory.go\<close> and \<^verbatim>\<open>dedupe.go\<close>.
\<close>

section \<open>Delivery store\<close>

datatype delivery_state = statePending | stateCommitted

record MemoryDeliveryStore =
  dstate :: "string \<rightharpoonup> delivery_state"

definition NewMemoryDeliveryStore :: MemoryDeliveryStore where
  "NewMemoryDeliveryStore = \<lparr>dstate = Map.empty\<rparr>"

definition Reserve :: "string \<Rightarrow> MemoryDeliveryStore \<Rightarrow> bool \<times> MemoryDeliveryStore" where
  "Reserve did s =
     (if dstate s did \<noteq> None then (False, s)
      else (True, s\<lparr>dstate := (dstate s)(did \<mapsto> statePending)\<rparr>))"

definition Commit :: "string \<Rightarrow> MemoryDeliveryStore \<Rightarrow> MemoryDeliveryStore" where
  "Commit did s =
     (if dstate s did \<noteq> None then s\<lparr>dstate := (dstate s)(did \<mapsto> stateCommitted)\<rparr> else s)"

text \<open>A missing entry reads as the zero value, which is \<^const>\<open>statePending\<close>.\<close>

definition Release :: "string \<Rightarrow> MemoryDeliveryStore \<Rightarrow> MemoryDeliveryStore" where
  "Release did s =
     (if (case dstate s did of None \<Rightarrow> statePending | Some st \<Rightarrow> st) = statePending
      then s\<lparr>dstate := (dstate s)(did := None)\<rparr> else s)"

definition Seen :: "string \<Rightarrow> MemoryDeliveryStore \<Rightarrow> bool" where
  "Seen did s \<longleftrightarrow> dstate s did \<noteq> None"

locale delivery_store =
  fixes reserve :: "string \<Rightarrow> 's \<Rightarrow> bool \<times> 's"
    and commit :: "string \<Rightarrow> 's \<Rightarrow> 's"
    and release :: "string \<Rightarrow> 's \<Rightarrow> 's"
    and status :: "'s \<Rightarrow> string \<Rightarrow> delivery_state option"
  assumes reserve_fresh:
      "status s did = None \<Longrightarrow>
         fst (reserve did s) \<and> status (snd (reserve did s)) = (status s)(did \<mapsto> statePending)"
    and reserve_seen: "status s did \<noteq> None \<Longrightarrow> reserve did s = (False, s)"
    and commit_status:
      "status (commit did s) =
         (if status s did = None then status s else (status s)(did \<mapsto> stateCommitted))"
    and release_status:
      "status (release did s) =
         (if status s did = Some stateCommitted then status s else (status s)(did := None))"
begin

lemma reserve_iff: "fst (reserve did s) \<longleftrightarrow> status s did = None"
  using reserve_fresh reserve_seen by (metis fst_conv)

lemma reserve_true:
  "reserve did s = (True, s') \<Longrightarrow> status s did = None \<and> status s' = (status s)(did \<mapsto> statePending)"
  using reserve_iff [of did s] reserve_fresh [of s did] by simp

lemma reserve_false: "reserve did s = (False, s') \<Longrightarrow> status s did \<noteq> None \<and> s' = s"
  using reserve_iff [of did s] reserve_seen [of s did] by auto

text \<open>A released reservation can be taken again; a committed delivery never can.\<close>

lemma reserve_after_release:
  "status s did \<noteq> Some stateCommitted \<Longrightarrow> fst (reserve did (release did s))"
  by (simp add: reserve_iff release_status)

lemma reserve_after_commit:
  "status s did \<noteq> None \<Longrightarrow> \<not> fst (reserve did (commit did s))"
  by (simp add: reserve_iff commit_status)

end

lemma not_pending_iff: "st \<noteq> statePending \<longleftrightarrow> st = stateCommitted"
  by (cases st) auto

interpretation mem_delivery: delivery_store Reserve Commit Release dstate
  by unfold_locales (auto simp: Reserve_def Commit_def Release_def fun_eq_iff not_pending_iff
      split: option.splits)

section \<open>Dedupe stores\<close>

text \<open>
  A time is the number of nanoseconds since Go's zero time, so \<^verbatim>\<open>IsZero\<close> is equality with 0. A
  call reads the clock once, which is the argument \<open>now\<close>.
\<close>

record MemoryDedupeStore =
  expiry :: "string \<rightharpoonup> int"

definition NewMemoryDedupeStore :: MemoryDedupeStore where
  "NewMemoryDedupeStore = \<lparr>expiry = Map.empty\<rparr>"

definition sweep :: "int \<Rightarrow> (string \<rightharpoonup> int) \<Rightarrow> (string \<rightharpoonup> int)" where
  "sweep now m =
     (\<lambda>k. case m k of None \<Rightarrow> None | Some e \<Rightarrow> (if e \<noteq> 0 \<and> e < now then None else Some e))"

definition DedupeReserve ::
  "int \<Rightarrow> string \<Rightarrow> int \<Rightarrow> MemoryDedupeStore \<Rightarrow> bool result \<times> MemoryDedupeStore" where
  "DedupeReserve now key ttl s =
     (if ttl \<le> 0 then (Inr True, s)
      else
        (let m = sweep now (expiry s)
         in case m key of
              Some e \<Rightarrow>
                (if now < e then (Inr False, s\<lparr>expiry := m\<rparr>)
                 else (Inr True, s\<lparr>expiry := m(key \<mapsto> now + ttl)\<rparr>))
            | None \<Rightarrow> (Inr True, s\<lparr>expiry := m(key \<mapsto> now + ttl)\<rparr>)))"

definition DedupeRelease :: "string \<Rightarrow> MemoryDedupeStore \<Rightarrow> string option \<times> MemoryDedupeStore" where
  "DedupeRelease key s = (None, s\<lparr>expiry := (expiry s)(key := None)\<rparr>)"

text \<open>
  The Redis store is a thin layer over the client library's \<^verbatim>\<open>SETNX\<close> and \<^verbatim>\<open>DEL\<close>, which are the
  parameters \<open>setnx\<close> and \<open>del\<close> acting on the server state.
\<close>

record RedisDedupeStore =
  prefix :: string

definition NewRedisDedupeStore :: "string \<Rightarrow> RedisDedupeStore" where
  "NewRedisDedupeStore p = \<lparr>prefix = (if p = [] then ''thule:dedupe:'' else p)\<rparr>"

definition RedisDedupeReserve ::
  "(string \<Rightarrow> string \<Rightarrow> int \<Rightarrow> 'c \<Rightarrow> bool result \<times> 'c) \<Rightarrow>
   RedisDedupeStore \<Rightarrow> string \<Rightarrow> int \<Rightarrow> 'c \<Rightarrow> bool result \<times> 'c" where
  "RedisDedupeReserve setnx s key ttl c =
     (if ttl \<le> 0 then (Inr True, c)
      else (case setnx (prefix s @ key) ''1'' ttl c of
              (Inl e, c') \<Rightarrow> (Inl (''redis reserve: '' @ e), c')
            | (Inr ok, c') \<Rightarrow> (Inr ok, c')))"

definition RedisDedupeRelease ::
  "(string \<Rightarrow> 'c \<Rightarrow> string option \<times> 'c) \<Rightarrow>
   RedisDedupeStore \<Rightarrow> string \<Rightarrow> 'c \<Rightarrow> string option \<times> 'c" where
  "RedisDedupeRelease del s key c =
     (case del (prefix s @ key) c of
        (Some e, c') \<Rightarrow> (Some (''redis release: '' @ e), c')
      | (None, c') \<Rightarrow> (None, c'))"

text \<open>
  What a dedupe store promises, in terms of the keys that are held at a time: a reservation
  succeeds exactly when the key is not held, and then holds it until the time to live has passed;
  other keys do not change.
\<close>

locale dedupe_store =
  fixes reserve :: "int \<Rightarrow> string \<Rightarrow> int \<Rightarrow> 'd \<Rightarrow> bool result \<times> 'd"
    and release :: "string \<Rightarrow> 'd \<Rightarrow> string option \<times> 'd"
    and held :: "'d \<Rightarrow> int \<Rightarrow> string \<Rightarrow> bool"
  assumes reserve_result: "0 < ttl \<Longrightarrow> fst (reserve now key ttl d) = Inr (\<not> held d now key)"
    and reserve_held: "0 < ttl \<Longrightarrow> \<not> held d now key \<Longrightarrow> now \<le> t \<Longrightarrow>
      held (snd (reserve now key ttl d)) t k \<longleftrightarrow> (if k = key then t < now + ttl else held d t k)"
    and reserve_again: "0 < ttl \<Longrightarrow> held d now key \<Longrightarrow> now \<le> t \<Longrightarrow>
      held (snd (reserve now key ttl d)) t k \<longleftrightarrow> held d t k"
    and reserve_disabled: "ttl \<le> 0 \<Longrightarrow> reserve now key ttl d = (Inr True, d)"
    and release_held: "held (snd (release key d)) t k \<longleftrightarrow> k \<noteq> key \<and> held d t k"
begin

text \<open>A second request for a key is suppressed until the first one's time to live is over.\<close>

lemma second_reserve:
  assumes "0 < ttl" and "0 < ttl'" and "\<not> held d now key" and "now \<le> now'"
  shows "fst (reserve now' key ttl' (snd (reserve now key ttl d))) = Inr (now + ttl \<le> now')"
  using reserve_result [of ttl' now' key "snd (reserve now key ttl d)"]
    reserve_held [of ttl d now key now' key] assms by auto

lemma reserve_after_release:
  "0 < ttl \<Longrightarrow> fst (reserve now key ttl (snd (release key d))) = Inr True"
  by (simp add: reserve_result release_held)

end

definition key_held :: "MemoryDedupeStore \<Rightarrow> int \<Rightarrow> string \<Rightarrow> bool" where
  "key_held s t k \<longleftrightarrow> (case expiry s k of None \<Rightarrow> False | Some e \<Rightarrow> t < e)"

interpretation mem_dedupe: dedupe_store DedupeReserve DedupeRelease key_held
  by unfold_locales
    (auto simp: DedupeReserve_def DedupeRelease_def key_held_def sweep_def Let_def
        split: option.splits if_splits)

text \<open>
  The in-memory dedupe store suppresses a repeated plan request for exactly the time to live:
  after a reservation at time \<open>now\<close>, another reservation of the key at a later time is refused
  before \<open>now + ttl\<close> and granted from then on, and releasing the key grants it at once.
\<close>

theorem dedupe_window:
  assumes "0 < ttl" and "0 < ttl'" and "\<not> key_held d now key" and "now \<le> now'"
  shows "fst (DedupeReserve now' key ttl' (snd (DedupeReserve now key ttl d))) = Inr (now + ttl \<le> now')
    \<and> fst (DedupeReserve now' key ttl'
        (snd (DedupeRelease key (snd (DedupeReserve now key ttl d))))) = Inr True"
  using mem_dedupe.second_reserve [OF assms] mem_dedupe.reserve_after_release [OF assms(2)] by simp

theorem dedupe_window_witness:
  "fst (DedupeReserve 12 ''k'' 5 (snd (DedupeReserve 10 ''k'' 5 NewMemoryDedupeStore))) = Inr False
   \<and> fst (DedupeReserve 15 ''k'' 5 (snd (DedupeReserve 10 ''k'' 5 NewMemoryDedupeStore))) = Inr True"
  using dedupe_window [of 5 5 NewMemoryDedupeStore 10 "''k''" 12]
    dedupe_window [of 5 5 NewMemoryDedupeStore 10 "''k''" 15]
  by (simp add: key_held_def NewMemoryDedupeStore_def)

end
