(* ===== verification/Queue.thy ===== *)
theory Queue
  imports Prelude
begin

text \<open>
  \<^verbatim>\<open>internal/queue/memory.go\<close>: the job queue between the webhook service and the worker. The
  queue is a Go channel; both operations are a \<^verbatim>\<open>select\<close> between the caller's context and the
  channel. A call sees, in its record \<open>Call\<close>, whether its context is done, which ready branch the
  runtime picks, how many receivers are parked on the channel, and what the clock says.
\<close>

record Job =
  jDeliveryID :: string
  jEventType :: string
  jRepository :: string
  jMergeReqID :: int
  jHeadSHA :: string
  jBaseRef :: string
  jChangedFiles :: "string list"

text \<open>What the surroundings of a call decide.\<close>

record Call =
  ctxErr :: "string option"
  selectDone :: bool
  receivers :: nat
  clock :: int

datatype enqueue_outcome = Enqueued | EnqueueErr string | EnqueueBlocked

datatype dequeue_outcome = Dequeued Job | DequeueErr string | DequeueBlocked

record MemoryQueue =
  chan :: "Job list"
  buffer :: nat

text \<open>\<^verbatim>\<open>make(chan Job, buffer)\<close> panics for a negative size.\<close>

definition NewMemoryQueue :: "int \<Rightarrow> MemoryQueue option" where
  "NewMemoryQueue n = (if n < 0 then None else Some \<lparr>chan = [], buffer = nat n\<rparr>)"

text \<open>
  A send can proceed while the buffer has room or a receiver is parked. When the context is done
  too, \<^verbatim>\<open>select\<close> picks one of the two ready branches; when neither is ready, the call blocks.
\<close>

definition can_send :: "Call \<Rightarrow> MemoryQueue \<Rightarrow> bool" where
  "can_send c q \<longleftrightarrow> length (chan q) < buffer q + receivers c"

definition Enqueue :: "Call \<Rightarrow> Job \<Rightarrow> MemoryQueue \<Rightarrow> enqueue_outcome \<times> MemoryQueue" where
  "Enqueue c job q =
     (case ctxErr c of
        Some e \<Rightarrow>
          (if can_send c q \<and> \<not> selectDone c then (Enqueued, q\<lparr>chan := chan q @ [job]\<rparr>)
           else (EnqueueErr e, q))
      | None \<Rightarrow>
          (if can_send c q then (Enqueued, q\<lparr>chan := chan q @ [job]\<rparr>)
           else (EnqueueBlocked, q)))"

definition Dequeue :: "Call \<Rightarrow> MemoryQueue \<Rightarrow> dequeue_outcome \<times> MemoryQueue" where
  "Dequeue c q =
     (case ctxErr c of
        Some e \<Rightarrow>
          (case chan q of
             j # js \<Rightarrow> (if selectDone c then (DequeueErr e, q) else (Dequeued j, q\<lparr>chan := js\<rparr>))
           | [] \<Rightarrow> (DequeueErr e, q))
      | None \<Rightarrow>
          (case chan q of
             j # js \<Rightarrow> (Dequeued j, q\<lparr>chan := js\<rparr>)
           | [] \<Rightarrow> (DequeueBlocked, q)))"

section \<open>The interface\<close>

text \<open>
  A job queue keeps its jobs in order: a successful enqueue appends, a successful dequeue takes
  the first, and a call that fails or blocks changes nothing.
\<close>

locale job_queue =
  fixes enqueue :: "Call \<Rightarrow> Job \<Rightarrow> 'q \<Rightarrow> enqueue_outcome \<times> 'q"
    and dequeue :: "Call \<Rightarrow> 'q \<Rightarrow> dequeue_outcome \<times> 'q"
    and jobs_of :: "'q \<Rightarrow> Job list"
  assumes enqueue_appends:
      "enqueue c job q = (Enqueued, q') \<Longrightarrow> jobs_of q' = jobs_of q @ [job]"
    and enqueue_fails: "fst (enqueue c job q) \<noteq> Enqueued \<Longrightarrow> snd (enqueue c job q) = q"
    and dequeue_first: "dequeue c q = (Dequeued job, q') \<Longrightarrow> jobs_of q = job # jobs_of q'"
    and dequeue_fails: "(\<forall>job. fst (dequeue c q) \<noteq> Dequeued job) \<Longrightarrow> snd (dequeue c q) = q"
begin

lemma enqueue_jobs:
  "jobs_of (snd (enqueue c job q)) =
     jobs_of q @ (if fst (enqueue c job q) = Enqueued then [job] else [])"
  using enqueue_appends [of c job q "snd (enqueue c job q)"] enqueue_fails [of c job q]
  by (cases "enqueue c job q") auto

text \<open>
  Running sends and receives in any order: what was received followed by what is still queued is
  what was there at the start followed by what was sent.
\<close>

fun run_queue :: "(Call \<times> Job option) list \<Rightarrow> 'q \<Rightarrow> Job list \<times> Job list \<times> 'q" where
  "run_queue [] q = ([], [], q)"
| "run_queue ((c, Some job) # ops) q =
     (let (r, q1) = enqueue c job q; (sent, got, q2) = run_queue ops q1
      in ((if r = Enqueued then job # sent else sent), got, q2))"
| "run_queue ((c, None) # ops) q =
     (let (r, q1) = dequeue c q; (sent, got, q2) = run_queue ops q1
      in (sent, (case r of Dequeued j \<Rightarrow> j # got | _ \<Rightarrow> got), q2))"

lemma dequeue_jobs:
  "jobs_of q = (case fst (dequeue c q) of Dequeued j \<Rightarrow> [j] | _ \<Rightarrow> []) @ jobs_of (snd (dequeue c q))"
proof (cases "fst (dequeue c q)")
  case (Dequeued j)
  then show ?thesis using dequeue_first [of c q j] by (cases "dequeue c q") simp
qed (use dequeue_fails [of c q] in auto)

lemma fifo:
  "run_queue ops q = (sent, got, q') \<Longrightarrow> jobs_of q @ sent = got @ jobs_of q'"
proof (induction ops q arbitrary: sent got q' rule: run_queue.induct)
  case (2 c job ops q)
  obtain r q1 where e: "enqueue c job q = (r, q1)" by force
  obtain s g q2 where run: "run_queue ops q1 = (s, g, q2)" by (metis prod_cases3)
  have "jobs_of q1 @ s = g @ jobs_of q2" using "2.IH" e run by simp
  moreover have "jobs_of q1 = jobs_of q @ (if r = Enqueued then [job] else [])"
    using enqueue_jobs [of c job q] e by simp
  ultimately show ?case using "2.prems" e run by (auto split: if_splits)
next
  case (3 c ops q)
  obtain r q1 where d: "dequeue c q = (r, q1)" by force
  obtain s g q2 where run: "run_queue ops q1 = (s, g, q2)" by (metis prod_cases3)
  have "jobs_of q1 @ s = g @ jobs_of q2" using "3.IH" d run by simp
  moreover have "jobs_of q = (case r of Dequeued j \<Rightarrow> [j] | _ \<Rightarrow> []) @ jobs_of q1"
    using dequeue_jobs [of q c] d by simp
  ultimately show ?case using "3.prems" d run by (auto split: dequeue_outcome.splits)
qed auto

end

interpretation mem_queue: job_queue Enqueue Dequeue chan
  by unfold_locales
    (auto simp: Enqueue_def Dequeue_def split: option.splits if_splits list.splits)

text \<open>
  Sends and receives on the in-memory queue in any order and with any scheduling: the jobs sent
  successfully, those received, and the final queue.
\<close>

fun run_memory_queue ::
  "(Call \<times> Job option) list \<Rightarrow> MemoryQueue \<Rightarrow> Job list \<times> Job list \<times> MemoryQueue" where
  "run_memory_queue [] q = ([], [], q)"
| "run_memory_queue ((c, Some job) # ops) q =
     (let (r, q1) = Enqueue c job q; (sent, got, q2) = run_memory_queue ops q1
      in ((if r = Enqueued then job # sent else sent), got, q2))"
| "run_memory_queue ((c, None) # ops) q =
     (let (r, q1) = Dequeue c q; (sent, got, q2) = run_memory_queue ops q1
      in (sent, (case r of Dequeued j \<Rightarrow> j # got | _ \<Rightarrow> got), q2))"

lemma run_memory_queue_eq: "run_memory_queue ops q = mem_queue.run_queue ops q"
  by (induction ops q rule: run_memory_queue.induct) (simp_all only: run_memory_queue.simps mem_queue.run_queue.simps, auto split: prod.splits)

text \<open>
  C29. The job queue loses, duplicates and reorders nothing: for any sequence of sends and receives
  on the in-memory queue, whatever their contexts and the runtime's choices, the jobs received
  followed by those still queued are the jobs queued at the start followed by those sent.
\<close>

theorem queue_fifo:
  "case run_memory_queue ops q of (sent, got, q') \<Rightarrow> chan q @ sent = got @ chan q'"
  using mem_queue.fifo [of ops q] by (simp add: run_memory_queue_eq split: prod.splits)

text \<open>
  A blocked send is never an error, and a send fails only with the error of a context that is
  done; the buffer is exceeded by parked receivers only.
\<close>

lemma Enqueue_cases:
  "fst (Enqueue c job q) =
     (if can_send c q \<and> (ctxErr c = None \<or> \<not> selectDone c) then Enqueued
      else case ctxErr c of None \<Rightarrow> EnqueueBlocked | Some e \<Rightarrow> EnqueueErr e)"
  by (auto simp: Enqueue_def split: option.splits)

end
