(* ===== verification/Service.thy ===== *)
theory Service
  imports Discovery Lock Storage Queue
begin

text \<open>
  \<^verbatim>\<open>internal/orchestrator/service.go\<close>: the service that turns a webhook event into at most one
  plan job. \<^verbatim>\<open>Service\<close> holds its four collaborators as interfaces, so the model takes the
  operations of a collaborator as a record of functions and threads the states of all four; a nil
  locker or dedupe store is \<^const>\<open>None\<close>. The locale \<open>orchestrator_parts\<close> joins the four contracts
  and carries the proofs; the last section states the properties for the in-memory parts.
\<close>

section \<open>Model\<close>

record MergeRequestEvent =
  DeliveryID :: string
  EventType :: string
  Repository :: string
  MergeReqID :: int
  HeadSHA :: string
  BaseRef :: string
  ChangedFiles :: "string list"

record 's DeliveryOps =
  opReserve :: "string \<Rightarrow> 's \<Rightarrow> bool \<times> 's"
  opCommit :: "string \<Rightarrow> 's \<Rightarrow> 's"
  opRelease :: "string \<Rightarrow> 's \<Rightarrow> 's"

record 'l LockerOps =
  opAcquire :: "string \<Rightarrow> string \<Rightarrow> int \<Rightarrow> 'l \<Rightarrow> (bool \<times> int) \<times> 'l"
  opReleaseByMR :: "string \<Rightarrow> int \<Rightarrow> 'l \<Rightarrow> 'l"

record 'd DedupeOps =
  opDedupeReserve :: "int \<Rightarrow> string \<Rightarrow> int \<Rightarrow> 'd \<Rightarrow> bool result \<times> 'd"
  opDedupeRelease :: "string \<Rightarrow> 'd \<Rightarrow> string option \<times> 'd"

record ('s, 'l, 'd, 'q) Service =
  jobs :: "Call \<Rightarrow> Job \<Rightarrow> 'q \<Rightarrow> enqueue_outcome \<times> 'q"
  store :: "'s DeliveryOps"
  locker :: "'l LockerOps option"
  dedupe :: "'d DedupeOps option"
  dedupeTTL :: int

text \<open>The states behind the four interfaces.\<close>

record ('s, 'l, 'd, 'q) SvcState =
  storeS :: 's
  lockS :: 'l
  dedupeS :: 'd
  queueS :: 'q

definition New ::
  "(Call \<Rightarrow> Job \<Rightarrow> 'q \<Rightarrow> enqueue_outcome \<times> 'q) \<Rightarrow> 's DeliveryOps \<Rightarrow> 'l LockerOps option \<Rightarrow>
   'd DedupeOps option \<Rightarrow> int \<Rightarrow> ('s, 'l, 'd, 'q) Service" where
  "New js st lk dd ttl = \<lparr>jobs = js, store = st, locker = lk, dedupe = dd, dedupeTTL = ttl\<rparr>"

datatype service_error =
    DeliveryIDRequired
  | MissingRequiredFields
  | DedupeReserveFailed string
  | ProjectLocked string int
  | EnqueueFailed string

text \<open>\<open>HandleBlocked\<close>: the call is still waiting in \<^verbatim>\<open>Enqueue\<close> and has not returned.\<close>

datatype handle_result = HandleOk | HandleErr service_error | HandleBlocked

definition isCloseEvent :: "string \<Rightarrow> bool" where
  "isCloseEvent eventType \<longleftrightarrow>
     (let e = ToLower eventType in Contains e ''closed'' \<or> Contains e ''merged'')"

definition dedupeKey :: "MergeRequestEvent \<Rightarrow> string" where
  "dedupeKey event =
     Repository event @ '':'' @ itoa (MergeReqID event) @ '':'' @ HeadSHA event @ '':'' @ EventType event"

definition job_of_event :: "MergeRequestEvent \<Rightarrow> Job" where
  "job_of_event event =
     \<lparr>jDeliveryID = DeliveryID event, jEventType = EventType event, jRepository = Repository event,
      jMergeReqID = MergeReqID event, jHeadSHA = HeadSHA event, jBaseRef = BaseRef event,
      jChangedFiles = ChangedFiles event\<rparr>"

text \<open>The guards at the top of the handler.\<close>

definition event_problem :: "MergeRequestEvent \<Rightarrow> service_error option" where
  "event_problem event =
     (if DeliveryID event = [] then Some DeliveryIDRequired
      else if EventType event = [] \<or> Repository event = [] \<or> HeadSHA event = [] \<or> MergeReqID event \<le> 0
      then Some MissingRequiredFields
      else None)"

text \<open>The dedupe store is consulted only when it is there and the time to live is positive.\<close>

definition active_dedupe :: "('s, 'l, 'd, 'q) Service \<Rightarrow> 'd DedupeOps option" where
  "active_dedupe svc = (if 0 < dedupeTTL svc then dedupe svc else None)"

text \<open>Giving the dedupe key back; its error is ignored.\<close>

definition undo_dedupe ::
  "('s, 'l, 'd, 'q) Service \<Rightarrow> MergeRequestEvent \<Rightarrow> ('s, 'l, 'd, 'q) SvcState \<Rightarrow> ('s, 'l, 'd, 'q) SvcState" where
  "undo_dedupe svc event st =
     (case active_dedupe svc of
        None \<Rightarrow> st
      | Some dd \<Rightarrow> st\<lparr>dedupeS := snd (opDedupeRelease dd (dedupeKey event) (dedupeS st))\<rparr>)"

definition commit_delivery ::
  "('s, 'l, 'd, 'q) Service \<Rightarrow> MergeRequestEvent \<Rightarrow> ('s, 'l, 'd, 'q) SvcState \<Rightarrow> ('s, 'l, 'd, 'q) SvcState" where
  "commit_delivery svc event st = st\<lparr>storeS := opCommit (store svc) (DeliveryID event) (storeS st)\<rparr>"

definition release_delivery ::
  "('s, 'l, 'd, 'q) Service \<Rightarrow> MergeRequestEvent \<Rightarrow> ('s, 'l, 'd, 'q) SvcState \<Rightarrow> ('s, 'l, 'd, 'q) SvcState" where
  "release_delivery svc event st = st\<lparr>storeS := opRelease (store svc) (DeliveryID event) (storeS st)\<rparr>"

text \<open>The close branch: give the locks back, commit.\<close>

definition handle_close ::
  "('s, 'l, 'd, 'q) Service \<Rightarrow> MergeRequestEvent \<Rightarrow> ('s, 'l, 'd, 'q) SvcState \<Rightarrow>
   handle_result \<times> ('s, 'l, 'd, 'q) SvcState" where
  "handle_close svc event st =
     (let st1 = (case locker svc of
                   None \<Rightarrow> st
                 | Some lk \<Rightarrow> st\<lparr>lockS := opReleaseByMR lk (Repository event) (MergeReqID event) (lockS st)\<rparr>)
      in (HandleOk, commit_delivery svc event st1))"

text \<open>The lock loop: stop at the first project another merge request holds.\<close>

fun acquire_all ::
  "'l LockerOps \<Rightarrow> string \<Rightarrow> int \<Rightarrow> DiscoveredProject list \<Rightarrow> 'l \<Rightarrow> (string \<times> int) option \<times> 'l" where
  "acquire_all lk repo mr [] l = (None, l)"
| "acquire_all lk repo mr (p # ps) l =
     (case opAcquire lk repo (Root p) mr l of
        ((ok, owner), l1) \<Rightarrow>
          (if ok then acquire_all lk repo mr ps l1 else (Some (Root p, owner), l1)))"

text \<open>Sending the job, with the clean-up when that fails.\<close>

definition enqueue_job ::
  "('s, 'l, 'd, 'q) Service \<Rightarrow> Call \<Rightarrow> MergeRequestEvent \<Rightarrow> ('s, 'l, 'd, 'q) SvcState \<Rightarrow>
   handle_result \<times> ('s, 'l, 'd, 'q) SvcState" where
  "enqueue_job svc c event st =
     (case jobs svc c (job_of_event event) (queueS st) of
        (Enqueued, q) \<Rightarrow> (HandleOk, commit_delivery svc event (st\<lparr>queueS := q\<rparr>))
      | (EnqueueErr e, q) \<Rightarrow>
          (HandleErr (EnqueueFailed e),
           release_delivery svc event (undo_dedupe svc event (st\<lparr>queueS := q\<rparr>)))
      | (EnqueueBlocked, q) \<Rightarrow> (HandleBlocked, st\<lparr>queueS := q\<rparr>))"

definition lock_and_enqueue ::
  "('s, 'l, 'd, 'q) Service \<Rightarrow> (string list \<Rightarrow> string list) \<Rightarrow> Call \<Rightarrow> MergeRequestEvent \<Rightarrow>
   ('s, 'l, 'd, 'q) SvcState \<Rightarrow> handle_result \<times> ('s, 'l, 'd, 'q) SvcState" where
  "lock_and_enqueue svc perm c event st =
     (case locker svc of
        None \<Rightarrow> enqueue_job svc c event st
      | Some lk \<Rightarrow>
          (case acquire_all lk (Repository event) (MergeReqID event)
                  (DiscoverFromChangedFiles perm (ChangedFiles event)) (lockS st) of
             (Some (root, owner), l) \<Rightarrow>
               (HandleErr (ProjectLocked root owner),
                release_delivery svc event (undo_dedupe svc event (st\<lparr>lockS := l\<rparr>)))
           | (None, l) \<Rightarrow> enqueue_job svc c event (st\<lparr>lockS := l\<rparr>)))"

definition handle_plan ::
  "('s, 'l, 'd, 'q) Service \<Rightarrow> (string list \<Rightarrow> string list) \<Rightarrow> Call \<Rightarrow> MergeRequestEvent \<Rightarrow>
   ('s, 'l, 'd, 'q) SvcState \<Rightarrow> handle_result \<times> ('s, 'l, 'd, 'q) SvcState" where
  "handle_plan svc perm c event st =
     (case active_dedupe svc of
        None \<Rightarrow> lock_and_enqueue svc perm c event st
      | Some dd \<Rightarrow>
          (case opDedupeReserve dd (clock c) (dedupeKey event) (dedupeTTL svc) (dedupeS st) of
             (Inl e, d) \<Rightarrow>
               (HandleErr (DedupeReserveFailed e), release_delivery svc event (st\<lparr>dedupeS := d\<rparr>))
           | (Inr False, d) \<Rightarrow> (HandleOk, commit_delivery svc event (st\<lparr>dedupeS := d\<rparr>))
           | (Inr True, d) \<Rightarrow> lock_and_enqueue svc perm c event (st\<lparr>dedupeS := d\<rparr>)))"

definition HandleMergeRequestEvent ::
  "('s, 'l, 'd, 'q) Service \<Rightarrow> (string list \<Rightarrow> string list) \<Rightarrow> Call \<Rightarrow> MergeRequestEvent \<Rightarrow>
   ('s, 'l, 'd, 'q) SvcState \<Rightarrow> handle_result \<times> ('s, 'l, 'd, 'q) SvcState" where
  "HandleMergeRequestEvent svc perm c event st =
     (case event_problem event of
        Some e \<Rightarrow> (HandleErr e, st)
      | None \<Rightarrow>
          (case opReserve (store svc) (DeliveryID event) (storeS st) of
             (False, s) \<Rightarrow> (HandleOk, st\<lparr>storeS := s\<rparr>)
           | (True, s) \<Rightarrow>
               (if isCloseEvent (EventType event) then handle_close svc event (st\<lparr>storeS := s\<rparr>)
                else handle_plan svc perm c event (st\<lparr>storeS := s\<rparr>))))"

lemmas svc_defs =
  New_def active_dedupe_def undo_dedupe_def commit_delivery_def release_delivery_def

lemma job_of_event_simps [simp]:
  "jDeliveryID (job_of_event event) = DeliveryID event"
  "jMergeReqID (job_of_event event) = MergeReqID event"
  "jRepository (job_of_event event) = Repository event"
  "jChangedFiles (job_of_event event) = ChangedFiles event"
  by (simp_all add: job_of_event_def)

text \<open>Accepting an event leaves the queue alone or sends its job.\<close>

lemma delivery_queue [simp]: "queueS (commit_delivery svc ev st) = queueS st"
  by (simp add: commit_delivery_def)

lemma accepted_sends:
  assumes "HandleMergeRequestEvent svc perm c ev st = (HandleOk, st')" and "queueS st' \<noteq> queueS st"
  obtains q where "jobs svc c (job_of_event ev) (queueS st) = (Enqueued, q)" "queueS st' = q"
proof -
  have sent: "\<exists>q. jobs svc c (job_of_event ev) (queueS st0) = (Enqueued, q) \<and> queueS st' = q"
    if "enqueue_job svc c ev st0 = (HandleOk, st')" for st0
    using that by (auto simp: enqueue_job_def split: prod.splits enqueue_outcome.splits)
  have "\<exists>st0. enqueue_job svc c ev st0 = (HandleOk, st') \<and> queueS st0 = queueS st"
    using assms
    by (auto simp: HandleMergeRequestEvent_def handle_close_def handle_plan_def lock_and_enqueue_def Let_def
        split: option.splits prod.splits bool.splits sum.splits if_splits)
  then show ?thesis using sent that by metis
qed

section \<open>The handler over the contracts of its parts\<close>

locale orchestrator_parts =
  ds: delivery_store reserve commit drelease status +
  lk: project_locker acquire lrelease owner +
  dd: dedupe_store ddreserve ddrelease held +
  jq: job_queue enqueue dequeue jobs_of
  for reserve commit drelease and status :: "'s \<Rightarrow> string \<Rightarrow> delivery_state option"
    and acquire lrelease and owner :: "'l \<Rightarrow> string \<Rightarrow> string \<Rightarrow> int option"
    and ddreserve ddrelease and held :: "'d \<Rightarrow> int \<Rightarrow> string \<Rightarrow> bool"
    and enqueue dequeue and jobs_of :: "'q \<Rightarrow> Job list" +
  fixes svc :: "('s, 'l, 'd, 'q) Service" and ttl :: int
  assumes parts:
    "svc = New enqueue \<lparr>opReserve = reserve, opCommit = commit, opRelease = drelease\<rparr>
       (Some \<lparr>opAcquire = acquire, opReleaseByMR = lrelease\<rparr>)
       (Some \<lparr>opDedupeReserve = ddreserve, opDedupeRelease = ddrelease\<rparr>) ttl"
begin

lemma svc_sel [simp]:
  "jobs svc = enqueue" "opReserve (store svc) = reserve" "opCommit (store svc) = commit"
  "opRelease (store svc) = drelease" "dedupeTTL svc = ttl"
  "locker svc = Some \<lparr>opAcquire = acquire, opReleaseByMR = lrelease\<rparr>"
  "active_dedupe svc =
     (if 0 < ttl then Some \<lparr>opDedupeReserve = ddreserve, opDedupeRelease = ddrelease\<rparr> else None)"
  by (simp_all add: parts svc_defs)

lemma commit_delivery_sel [simp]:
  "status (storeS (commit_delivery svc ev st)) =
     (if status (storeS st) (DeliveryID ev) = None then status (storeS st)
      else (status (storeS st))(DeliveryID ev \<mapsto> stateCommitted))"
  "lockS (commit_delivery svc ev st) = lockS st"
  "dedupeS (commit_delivery svc ev st) = dedupeS st"
  "queueS (commit_delivery svc ev st) = queueS st"
  by (simp_all add: commit_delivery_def ds.commit_status)

lemma release_delivery_sel [simp]:
  "status (storeS (release_delivery svc ev st)) =
     (if status (storeS st) (DeliveryID ev) = Some stateCommitted then status (storeS st)
      else (status (storeS st))(DeliveryID ev := None))"
  "lockS (release_delivery svc ev st) = lockS st"
  "dedupeS (release_delivery svc ev st) = dedupeS st"
  "queueS (release_delivery svc ev st) = queueS st"
  by (simp_all add: release_delivery_def ds.release_status)

lemma undo_dedupe_sel [simp]:
  "storeS (undo_dedupe svc ev st) = storeS st" "lockS (undo_dedupe svc ev st) = lockS st"
  "queueS (undo_dedupe svc ev st) = queueS st"
  "0 < ttl \<Longrightarrow> held (dedupeS (undo_dedupe svc ev st)) t k \<longleftrightarrow> k \<noteq> dedupeKey ev \<and> held (dedupeS st) t k"
  by (simp_all add: undo_dedupe_def dd.release_held)

text \<open>The lock loop: the owners it leaves behind, on success and on conflict.\<close>

lemma acquire_all_keeps:
  assumes "owner l r k = Some m"
  shows "owner (snd (acquire_all \<lparr>opAcquire = acquire, opReleaseByMR = lrelease\<rparr> repo mr ps l)) r k = Some m"
  using assms
proof (induction ps arbitrary: l)
  case (Cons p ps)
  have "owner (snd (acquire repo (Root p) mr l)) r k = Some m"
    using Cons.prems by (rule lk.acquire_keeps)
  then show ?case using Cons.IH by (auto split: prod.splits)
qed simp

lemma acquire_all_ok:
  assumes "acquire_all \<lparr>opAcquire = acquire, opReleaseByMR = lrelease\<rparr> repo mr ps l = (None, l')"
    and "p \<in> set ps"
  shows "owner l' repo (Root p) = Some mr"
  using assms
proof (induction ps arbitrary: l)
  case (Cons a ps)
  show ?case
  proof (cases rule: lk.acquire_cases [of l repo "Root a" mr])
    case granted
    then have rec: "acquire_all \<lparr>opAcquire = acquire, opReleaseByMR = lrelease\<rparr> repo mr ps
        (snd (acquire repo (Root a) mr l)) = (None, l')"
      using Cons.prems(1) by (auto split: prod.splits)
    have "owner (snd (acquire repo (Root a) mr l)) repo (Root a) = Some mr"
      using granted by simp
    then have "owner l' repo (Root a) = Some mr"
      using acquire_all_keeps [of "snd (acquire repo (Root a) mr l)"] rec by (metis snd_conv)
    then show ?thesis using Cons rec by auto
  next
    case (refused mr')
    then show ?thesis using Cons.prems(1) by simp
  qed
qed simp

lemma acquire_all_conflict:
  assumes "acquire_all \<lparr>opAcquire = acquire, opReleaseByMR = lrelease\<rparr> repo mr ps l = (Some (root, m'), l')"
  shows "m' \<noteq> mr \<and> owner l repo root = Some m' \<and> root \<in> Root ` set ps"
  using assms
proof (induction ps arbitrary: l)
  case (Cons a ps)
  show ?case
  proof (cases rule: lk.acquire_cases [of l repo "Root a" mr])
    case granted
    then have rec: "acquire_all \<lparr>opAcquire = acquire, opReleaseByMR = lrelease\<rparr> repo mr ps
        (snd (acquire repo (Root a) mr l)) = (Some (root, m'), l')"
      using Cons.prems(1) by (auto split: prod.splits)
    note IH = Cons.IH [OF this]
    then show ?thesis using lk.acquire_owner_mono [of repo "Root a" mr l repo root] by auto
  next
    case (refused mr')
    then show ?thesis using Cons.prems(1) by simp
  qed
qed simp

text \<open>On a conflict the projects acquired before the contested one stay with the request.\<close>

lemma acquire_all_leaves:
  assumes "acquire_all \<lparr>opAcquire = acquire, opReleaseByMR = lrelease\<rparr> repo mr ps l = (Some (root, m'), l')"
  shows "\<exists>pre p rest. ps = pre @ p # rest \<and> root = Root p \<and>
    (\<forall>q \<in> set pre. owner l' repo (Root q) = Some mr)"
  using assms
proof (induction ps arbitrary: l)
  case (Cons a ps)
  show ?case
  proof (cases rule: lk.acquire_cases [of l repo "Root a" mr])
    case granted
    then have rec: "acquire_all \<lparr>opAcquire = acquire, opReleaseByMR = lrelease\<rparr> repo mr ps
        (snd (acquire repo (Root a) mr l)) = (Some (root, m'), l')"
      using Cons.prems(1) by (auto split: prod.splits)
    from Cons.IH [OF this] obtain pre p rest where
      d: "ps = pre @ p # rest" "root = Root p" "\<forall>q \<in> set pre. owner l' repo (Root q) = Some mr"
      by blast
    have "owner (snd (acquire repo (Root a) mr l)) repo (Root a) = Some mr" using granted by simp
    then have "owner l' repo (Root a) = Some mr"
      using acquire_all_keeps [of "snd (acquire repo (Root a) mr l)"] rec by (metis snd_conv)
    with d show ?thesis by (intro exI [of _ "a # pre"] exI [of _ p] exI [of _ rest]) simp
  next
    case (refused mr')
    then show ?thesis using Cons.prems(1) by (intro exI [of _ "[]"]) simp
  qed
qed simp

lemma acquire_all_held:
  assumes "p \<in> set ps" and "owner l repo (Root p) = Some m'" and "m' \<noteq> mr"
  shows "fst (acquire_all \<lparr>opAcquire = acquire, opReleaseByMR = lrelease\<rparr> repo mr ps l) \<noteq> None"
proof
  assume "fst (acquire_all \<lparr>opAcquire = acquire, opReleaseByMR = lrelease\<rparr> repo mr ps l) = None"
  then obtain l' where run: "acquire_all \<lparr>opAcquire = acquire, opReleaseByMR = lrelease\<rparr> repo mr ps l = (None, l')"
    by (metis prod.collapse)
  then have "owner l' repo (Root p) = Some mr" using assms(1) by (rule acquire_all_ok)
  moreover have "owner l' repo (Root p) = Some m'"
    using acquire_all_keeps [OF assms(2), of repo mr ps] run by simp
  ultimately show False using assms(3) by simp
qed

text \<open>What a branch of the handler leaves behind, given that the delivery is reserved.\<close>

definition outcome :: "MergeRequestEvent \<Rightarrow> ('s, 'l, 'd, 'q) SvcState \<Rightarrow>
    handle_result \<times> ('s, 'l, 'd, 'q) SvcState \<Rightarrow> bool" where
  "outcome ev st r \<longleftrightarrow>
     status (storeS (snd r)) = (status (storeS st))(DeliveryID ev :=
       (case fst r of HandleOk \<Rightarrow> Some stateCommitted | HandleErr _ \<Rightarrow> None
        | HandleBlocked \<Rightarrow> Some statePending)) \<and>
     (jobs_of (queueS (snd r)) = jobs_of (queueS st) \<or>
      fst r = HandleOk \<and> jobs_of (queueS (snd r)) = jobs_of (queueS st) @ [job_of_event ev])"

lemma outcome_enqueue:
  assumes "status (storeS st) (DeliveryID ev) = Some statePending"
  shows "outcome ev st (enqueue_job svc c ev st)"
proof (cases "enqueue c (job_of_event ev) (queueS st)")
  case (Pair r q)
  then show ?thesis
    using assms jq.enqueue_jobs [of c "job_of_event ev" "queueS st"]
    by (cases r) (auto simp: enqueue_job_def outcome_def fun_eq_iff)
qed

lemma outcome_lock:
  assumes "status (storeS st) (DeliveryID ev) = Some statePending"
  shows "outcome ev st (lock_and_enqueue svc perm c ev st)"
  using assms outcome_enqueue [of "st\<lparr>lockS := l\<rparr>" ev c for l]
  by (auto simp: lock_and_enqueue_def outcome_def split: prod.splits option.splits)

lemma outcome_plan:
  assumes "status (storeS st) (DeliveryID ev) = Some statePending"
  shows "outcome ev st (handle_plan svc perm c ev st)"
  using assms outcome_lock [of "st\<lparr>dedupeS := d\<rparr>" ev perm c for d] outcome_lock [of st ev perm c]
  by (auto simp: handle_plan_def outcome_def split: prod.splits sum.splits bool.splits)

lemma outcome_close:
  assumes "status (storeS st) (DeliveryID ev) = Some statePending"
  shows "outcome ev st (handle_close svc ev st)"
  using assms by (auto simp: handle_close_def outcome_def)

lemma handle_seen:
  assumes "status (storeS st) (DeliveryID ev) \<noteq> None" and "event_problem ev = None"
  shows "HandleMergeRequestEvent svc perm c ev st = (HandleOk, st)"
  using assms by (simp add: HandleMergeRequestEvent_def ds.reserve_seen)

text \<open>The whole handler on a fresh delivery.\<close>

lemma handle_fresh:
  assumes "status (storeS st) (DeliveryID ev) = None" and "event_problem ev = None"
  shows "outcome ev st (HandleMergeRequestEvent svc perm c ev st)"
proof -
  obtain s where r: "reserve (DeliveryID ev) (storeS st) = (True, s)"
    using ds.reserve_fresh [OF assms(1)] by (metis prod.collapse)
  then have s: "status s = (status (storeS st))(DeliveryID ev \<mapsto> statePending)"
    using ds.reserve_true by blast
  have up: "outcome ev (st\<lparr>storeS := s\<rparr>) x \<Longrightarrow> outcome ev st x" for x
    by (simp add: outcome_def s)
  have "outcome ev (st\<lparr>storeS := s\<rparr>) (if isCloseEvent (EventType ev)
      then handle_close svc ev (st\<lparr>storeS := s\<rparr>) else handle_plan svc perm c ev (st\<lparr>storeS := s\<rparr>))"
    using outcome_close [of "st\<lparr>storeS := s\<rparr>" ev] outcome_plan [of "st\<lparr>storeS := s\<rparr>" ev perm c] s
    by simp
  from up [OF this] show ?thesis
    using assms(2) r by (simp add: HandleMergeRequestEvent_def)
qed

text \<open>
  Sequences of deliveries, with consumers taking jobs in between: a delivery identifier is
  enqueued at most once over the whole history.
\<close>

definition delivery_inv :: "Job list \<Rightarrow> ('s, 'l, 'd, 'q) SvcState \<Rightarrow> bool" where
  "delivery_inv hist st \<longleftrightarrow>
     distinct (map jDeliveryID hist) \<and>
     (\<forall>j \<in> set hist. status (storeS st) (jDeliveryID j) = Some stateCommitted)"

lemma delivery_inv_handle:
  assumes "delivery_inv hist st" and "HandleMergeRequestEvent svc perm c ev st = (r, st')"
  shows "delivery_inv (hist @ drop (length (jobs_of (queueS st))) (jobs_of (queueS st'))) st'"
proof (cases "event_problem ev = None \<and> status (storeS st) (DeliveryID ev) = None")
  case True
  then have out: "outcome ev st (r, st')" using handle_fresh [of st ev perm c] assms(2) by simp
  have new: "\<forall>j \<in> set hist. jDeliveryID j \<noteq> DeliveryID ev"
    using assms(1) True by (auto simp: delivery_inv_def)
  show ?thesis
    using out new assms(1) by (auto simp: outcome_def delivery_inv_def)
next
  case False
  then have "st' = st"
    using handle_seen [of st ev perm c] assms(2)
    by (auto simp: HandleMergeRequestEvent_def split: option.splits)
  then show ?thesis using assms(1) by simp
qed

text \<open>A fresh plan event that the dedupe store lets through runs the lock loop.\<close>

definition reserved :: "MergeRequestEvent \<Rightarrow> Call \<Rightarrow> ('s, 'l, 'd, 'q) SvcState \<Rightarrow> ('s, 'l, 'd, 'q) SvcState" where
  "reserved ev c st =
     (let s = snd (reserve (DeliveryID ev) (storeS st));
          d = (if 0 < ttl then snd (ddreserve (clock c) (dedupeKey ev) ttl (dedupeS st)) else dedupeS st)
      in st\<lparr>storeS := s, dedupeS := d\<rparr>)"

definition admitted :: "MergeRequestEvent \<Rightarrow> Call \<Rightarrow> ('s, 'l, 'd, 'q) SvcState \<Rightarrow> bool" where
  "admitted ev c st \<longleftrightarrow>
     event_problem ev = None \<and> \<not> isCloseEvent (EventType ev) \<and>
     status (storeS st) (DeliveryID ev) = None \<and>
     (0 < ttl \<longrightarrow> \<not> held (dedupeS st) (clock c) (dedupeKey ev))"

lemma reserved_locks [simp]: "lockS (reserved ev c st) = lockS st"
  by (simp add: reserved_def Let_def)

lemma handle_admitted:
  assumes "admitted ev c st"
  shows "HandleMergeRequestEvent svc perm c ev st = lock_and_enqueue svc perm c ev (reserved ev c st)"
proof -
  obtain s where r: "reserve (DeliveryID ev) (storeS st) = (True, s)"
    using assms ds.reserve_fresh [of "storeS st" "DeliveryID ev"]
    by (metis admitted_def prod.collapse)
  show ?thesis
  proof (cases "0 < ttl")
    case True
    then have "fst (ddreserve (clock c) (dedupeKey ev) ttl (dedupeS st)) = Inr True"
      using assms by (simp add: admitted_def dd.reserve_result)
    then obtain d where "ddreserve (clock c) (dedupeKey ev) ttl (dedupeS st) = (Inr True, d)"
      by (metis prod.collapse)
    with True show ?thesis
      using assms r by (simp add: HandleMergeRequestEvent_def admitted_def handle_plan_def reserved_def)
  next
    case False
    then show ?thesis
      using assms r by (simp add: HandleMergeRequestEvent_def admitted_def handle_plan_def reserved_def)
  qed
qed

lemma enqueue_job_locks: "lockS (snd (enqueue_job svc c ev st)) = lockS st"
  by (auto simp: enqueue_job_def split: prod.splits enqueue_outcome.splits)

text \<open>When the event gets past the lock loop, its request holds every discovered project.\<close>

lemma handle_holds:
  assumes "admitted ev c st"
    and "\<forall>root m. fst (HandleMergeRequestEvent svc perm c ev st) \<noteq> HandleErr (ProjectLocked root m)"
    and "p \<in> set (DiscoverFromChangedFiles perm (ChangedFiles ev))"
  shows "owner (lockS (snd (HandleMergeRequestEvent svc perm c ev st))) (Repository ev) (Root p)
    = Some (MergeReqID ev)"
proof -
  obtain x l where run: "acquire_all \<lparr>opAcquire = acquire, opReleaseByMR = lrelease\<rparr> (Repository ev)
      (MergeReqID ev) (DiscoverFromChangedFiles perm (ChangedFiles ev)) (lockS (reserved ev c st)) = (x, l)"
    by force
  have "x = None"
    using assms(2) run unfolding handle_admitted [OF assms(1)]
    by (auto simp: lock_and_enqueue_def split: option.splits)
  then show ?thesis
    using acquire_all_ok [of "Repository ev" "MergeReqID ev" _ "lockS (reserved ev c st)" l p] run assms(3)
    unfolding handle_admitted [OF assms(1)] by (simp add: lock_and_enqueue_def enqueue_job_locks)
qed

lemma enqueue_job_not_locked: "fst (enqueue_job svc c ev st) \<noteq> HandleErr (ProjectLocked root m)"
  by (auto simp: enqueue_job_def split: prod.splits enqueue_outcome.splits)

lemma handle_locked_reason:
  assumes "admitted ev c st"
    and "fst (HandleMergeRequestEvent svc perm c ev st) = HandleErr (ProjectLocked root m)"
  shows "owner (lockS st) (Repository ev) root = Some m \<and> m \<noteq> MergeReqID ev"
  using assms(2) unfolding handle_admitted [OF assms(1)]
  by (auto simp: lock_and_enqueue_def enqueue_job_not_locked
      split: prod.splits option.splits dest: acquire_all_conflict)

text \<open>When another request holds one of them, the event is refused and nothing is enqueued.\<close>

lemma handle_conflict:
  assumes adm: "admitted ev c st"
    and "p \<in> set (DiscoverFromChangedFiles perm (ChangedFiles ev))"
    and "owner (lockS st) (Repository ev) (Root p) = Some m" and "m \<noteq> MergeReqID ev"
  obtains root m' pre q rest where
    "fst (HandleMergeRequestEvent svc perm c ev st) = HandleErr (ProjectLocked root m')"
    and "owner (lockS st) (Repository ev) root = Some m'" and "m' \<noteq> MergeReqID ev"
    and "DiscoverFromChangedFiles perm (ChangedFiles ev) = pre @ q # rest" and "root = Root q"
    and "\<forall>a \<in> set pre. owner (lockS (snd (HandleMergeRequestEvent svc perm c ev st)))
           (Repository ev) (Root a) = Some (MergeReqID ev)"
proof -
  obtain x l where run: "acquire_all \<lparr>opAcquire = acquire, opReleaseByMR = lrelease\<rparr> (Repository ev)
      (MergeReqID ev) (DiscoverFromChangedFiles perm (ChangedFiles ev)) (lockS st) = (x, l)"
    by force
  then obtain root m' where x: "x = Some (root, m')"
    using acquire_all_held [OF assms(2-4)] by (cases x) auto
  have h: "HandleMergeRequestEvent svc perm c ev st = (HandleErr (ProjectLocked root m'),
      release_delivery svc ev (undo_dedupe svc ev ((reserved ev c st)\<lparr>lockS := l\<rparr>)))"
    using run x unfolding handle_admitted [OF adm] by (simp add: lock_and_enqueue_def)
  show ?thesis
    using that [of root m'] acquire_all_conflict [OF run [unfolded x]]
      acquire_all_leaves [OF run [unfolded x]] h by auto
qed

text \<open>Only a close event of its own merge request takes a lock away.\<close>

definition closes :: "MergeRequestEvent \<Rightarrow> string \<Rightarrow> int \<Rightarrow> bool" where
  "closes ev repo mr \<longleftrightarrow> isCloseEvent (EventType ev) \<and> Repository ev = repo \<and> MergeReqID ev = mr"

lemma lock_and_enqueue_keeps:
  assumes "owner (lockS st) repo key = Some m"
  shows "owner (lockS (snd (lock_and_enqueue svc perm c ev st))) repo key = Some m"
  using acquire_all_keeps [OF assms]
  by (auto simp: lock_and_enqueue_def enqueue_job_locks split: prod.splits option.splits) (metis snd_conv)+

lemma handle_keeps:
  assumes "owner (lockS st) repo key = Some m" and "\<not> closes ev repo m"
  shows "owner (lockS (snd (HandleMergeRequestEvent svc perm c ev st))) repo key = Some m"
  using assms lock_and_enqueue_keeps [of "st\<lparr>storeS := s\<rparr>" repo key m perm c ev for s]
    lock_and_enqueue_keeps [of "st\<lparr>storeS := s, dedupeS := d\<rparr>" repo key m perm c ev for s d]
  by (auto simp: HandleMergeRequestEvent_def handle_plan_def handle_close_def closes_def lk.release_owner
      split: option.splits prod.splits bool.splits sum.splits)

text \<open>An event that does not get to the lock loop queues nothing.\<close>

lemma handle_not_admitted:
  assumes "\<not> admitted ev c st"
  shows "queueS (snd (HandleMergeRequestEvent svc perm c ev st)) = queueS st"
proof (cases "event_problem ev = None \<and> status (storeS st) (DeliveryID ev) = None \<and> \<not> isCloseEvent (EventType ev)")
  case True
  then have t: "0 < ttl" and "held (dedupeS st) (clock c) (dedupeKey ev)" using assms by (auto simp: admitted_def)
  then have "fst (ddreserve (clock c) (dedupeKey ev) ttl (dedupeS st)) = Inr False" by (simp add: dd.reserve_result)
  then obtain d where "ddreserve (clock c) (dedupeKey ev) ttl (dedupeS st) = (Inr False, d)"
    by (metis prod.collapse)
  with t True show ?thesis by (auto simp: HandleMergeRequestEvent_def handle_plan_def split: prod.splits bool.splits)
next
  case False
  then show ?thesis
    using handle_seen [of st ev perm c]
    by (cases "event_problem ev"; cases "status (storeS st) (DeliveryID ev)")
      (auto simp: HandleMergeRequestEvent_def handle_close_def split: prod.splits bool.splits)
qed

end

section \<open>The service over the in-memory parts\<close>

text \<open>What \<^verbatim>\<open>cmd/thule-api\<close> builds without Redis.\<close>

type_synonym MemState = "(MemoryDeliveryStore, MemoryLocker, MemoryDedupeStore, MemoryQueue) SvcState"

definition mem_service ::
  "int \<Rightarrow> (MemoryDeliveryStore, MemoryLocker, MemoryDedupeStore, MemoryQueue) Service" where
  "mem_service ttl =
     New Enqueue \<lparr>opReserve = Reserve, opCommit = Commit, opRelease = Release\<rparr>
       (Some \<lparr>opAcquire = Acquire, opReleaseByMR = ReleaseByMR\<rparr>)
       (Some \<lparr>opDedupeReserve = DedupeReserve, opDedupeRelease = DedupeRelease\<rparr>) ttl"

definition mem_init :: "nat \<Rightarrow> MemState" where
  "mem_init n =
     \<lparr>storeS = NewMemoryDeliveryStore, lockS = NewMemoryLocker, dedupeS = NewMemoryDedupeStore,
      queueS = \<lparr>chan = [], buffer = n\<rparr>\<rparr>"

interpretation mem_svc: orchestrator_parts Reserve Commit Release dstate Acquire ReleaseByMR lock_owner
  DedupeReserve DedupeRelease key_held Enqueue Dequeue chan "mem_service ttl" ttl for ttl
  by unfold_locales (simp add: mem_service_def)

text \<open>A history of the service: events arriving, and a worker taking jobs in between.\<close>

datatype svc_input = Deliver "string list \<Rightarrow> string list" Call MergeRequestEvent | Consume Call

fun svc_input_step :: "int \<Rightarrow> svc_input \<Rightarrow> MemState \<Rightarrow> Job list \<times> MemState" where
  "svc_input_step ttl (Deliver perm c ev) st =
     (let st1 = snd (HandleMergeRequestEvent (mem_service ttl) perm c ev st)
      in (drop (length (chan (queueS st))) (chan (queueS st1)), st1))"
| "svc_input_step ttl (Consume c) st = ([], st\<lparr>queueS := snd (Dequeue c (queueS st))\<rparr>)"

text \<open>The jobs the service enqueues over a history.\<close>

fun run_service :: "int \<Rightarrow> svc_input list \<Rightarrow> MemState \<Rightarrow> Job list \<times> MemState" where
  "run_service ttl [] st = ([], st)"
| "run_service ttl (i # is) st =
     (let (js, st1) = svc_input_step ttl i st; (ks, st2) = run_service ttl is st1 in (js @ ks, st2))"

lemma delivery_inv_step:
  assumes "mem_svc.delivery_inv hist st" and "svc_input_step ttl i st = (js, st')"
  shows "mem_svc.delivery_inv (hist @ js) st'"
proof (cases i)
  case (Deliver perm c ev)
  then show ?thesis
    using assms mem_svc.delivery_inv_handle [OF assms(1), of ttl perm c ev]
    by (cases "HandleMergeRequestEvent (mem_service ttl) perm c ev st") auto
next
  case (Consume c)
  then show ?thesis using assms by (auto simp: mem_svc.delivery_inv_def)
qed

lemma delivery_inv_run:
  "mem_svc.delivery_inv hist st \<Longrightarrow> run_service ttl is st = (js, st') \<Longrightarrow>
     mem_svc.delivery_inv (hist @ js) st'"
proof (induction "is" arbitrary: hist st js st')
  case (Cons i "is")
  obtain js1 st1 where s: "svc_input_step ttl i st = (js1, st1)" by force
  obtain js2 st2 where r: "run_service ttl is st1 = (js2, st2)" by force
  from Cons.IH [OF delivery_inv_step [OF Cons.prems(1) s] r] show ?case
    using Cons.prems(2) s r by simp
qed simp

text \<open>
  C2. A webhook delivery is planned at most once: over any history of events, redeliveries,
  failures and consumed jobs, starting from the empty stores, no two jobs the service enqueues
  carry the same delivery identifier.
\<close>

theorem at_most_once: "distinct (map jDeliveryID (fst (run_service ttl inputs (mem_init n))))"
proof -
  obtain js st where r: "run_service ttl inputs (mem_init n) = (js, st)" by force
  have "mem_svc.delivery_inv [] (mem_init n)" by (simp add: mem_svc.delivery_inv_def)
  from delivery_inv_run [OF this r] show ?thesis using r by (simp add: mem_svc.delivery_inv_def)
qed

text \<open>
  C13. Every way the handler can end on a valid event with a delivery identifier not seen before.
  It accepts: the delivery is committed, and either no job or exactly the job of this event was
  appended to the queue. It fails: the delivery is forgotten again, so that a redelivery is handled
  afresh, and nothing was enqueued. It waits for room in the queue: the delivery stays pending.
\<close>

theorem handle_outcome:
  assumes "event_problem ev = None" and "dstate (storeS st) (DeliveryID ev) = None"
    and "HandleMergeRequestEvent (mem_service ttl) perm c ev st = (r, st')"
  shows "dstate (storeS st') = (dstate (storeS st))(DeliveryID ev :=
      (case r of HandleOk \<Rightarrow> Some stateCommitted | HandleErr _ \<Rightarrow> None
       | HandleBlocked \<Rightarrow> Some statePending))
    \<and> (chan (queueS st') = chan (queueS st) \<or>
       r = HandleOk \<and> chan (queueS st') = chan (queueS st) @ [job_of_event ev])"
  using mem_svc.handle_fresh [OF assms(2,1), of ttl perm c] assms(3)
  by (simp add: mem_svc.outcome_def)

definition ex_call :: Call where
  "ex_call = \<lparr>ctxErr = None, selectDone = False, receivers = 0, clock = 10\<rparr>"

definition ex_event :: "string \<Rightarrow> int \<Rightarrow> string list \<Rightarrow> MergeRequestEvent" where
  "ex_event did mr files =
     \<lparr>DeliveryID = did, EventType = ''updated'', Repository = ''r'', MergeReqID = mr,
      HeadSHA = ''s'', BaseRef = [], ChangedFiles = files\<rparr>"

text \<open>An event without files, on a queue with room, on a full one, and for a caller that has gone.\<close>

lemma ex_run:
  "fst (HandleMergeRequestEvent (mem_service 0) rev c (ex_event ''d'' 1 []) (mem_init n)) =
     (case fst (Enqueue c (job_of_event (ex_event ''d'' 1 [])) \<lparr>chan = [], buffer = n\<rparr>) of
        Enqueued \<Rightarrow> HandleOk | EnqueueErr e \<Rightarrow> HandleErr (EnqueueFailed e) | EnqueueBlocked \<Rightarrow> HandleBlocked)"
  by (simp add: HandleMergeRequestEvent_def handle_plan_def lock_and_enqueue_def enqueue_job_def
      mem_service_def svc_defs event_problem_def ex_event_def isCloseEvent_def HasPrefix_def lower_char_def
      less_eq_char_def Let_def mem_init_def Reserve_def NewMemoryDeliveryStore_def
      DiscoverFromChangedFiles_def candidates_def split: prod.splits enqueue_outcome.splits)

theorem handle_outcome_witness:
  "let run = (\<lambda>c n. snd (HandleMergeRequestEvent (mem_service 0) rev c (ex_event ''d'' 1 []) (mem_init n)))
   in dstate (storeS (run ex_call 1)) ''d'' = Some stateCommitted \<and>
      dstate (storeS (run ex_call 0)) ''d'' = Some statePending \<and> chan (queueS (run ex_call 0)) = [] \<and>
      dstate (storeS (run (ex_call\<lparr>ctxErr := Some ''gone''\<rparr>) 0)) ''d'' = None \<and>
      chan (queueS (run (ex_call\<lparr>ctxErr := Some ''gone''\<rparr>) 0)) = []"
proof -
  have v: "event_problem (ex_event ''d'' 1 []) = None"
    by (simp add: event_problem_def ex_event_def)
  have f: "dstate (storeS (mem_init n)) (DeliveryID (ex_event ''d'' 1 [])) = None" for n
    by (simp add: mem_init_def NewMemoryDeliveryStore_def)
  have q: "chan (queueS (mem_init n)) = []" for n by (simp add: mem_init_def)
  let ?gone = "ex_call\<lparr>ctxErr := Some ''gone''\<rparr>"
  have r: "fst (HandleMergeRequestEvent (mem_service 0) rev ex_call (ex_event ''d'' 1 []) (mem_init 1)) = HandleOk"
    "fst (HandleMergeRequestEvent (mem_service 0) rev ex_call (ex_event ''d'' 1 []) (mem_init 0)) = HandleBlocked"
    "fst (HandleMergeRequestEvent (mem_service 0) rev ?gone (ex_event ''d'' 1 []) (mem_init 0))
       = HandleErr (EnqueueFailed ''gone'')"
    unfolding ex_run by (simp_all add: Enqueue_def can_send_def ex_call_def)
  have d: "DeliveryID (ex_event ''d'' 1 []) = ''d''" by (simp add: ex_event_def)
  show ?thesis
    using handle_outcome [where st = "mem_init 1" and c = ex_call and ttl = 0 and perm = rev, OF v f prod.collapse [symmetric]]
      handle_outcome [where st = "mem_init 0" and c = ex_call and ttl = 0 and perm = rev, OF v f prod.collapse [symmetric]]
      handle_outcome [where st = "mem_init 0" and c = ?gone and ttl = 0 and perm = rev, OF v f prod.collapse [symmetric]]
    unfolding r d q Let_def by simp
qed

text \<open>Whether a plan event of the in-memory service gets as far as the lock loop.\<close>

definition reaches_locks :: "int \<Rightarrow> MergeRequestEvent \<Rightarrow> Call \<Rightarrow> MemState \<Rightarrow> bool" where
  "reaches_locks ttl ev c st \<longleftrightarrow>
     event_problem ev = None \<and> \<not> isCloseEvent (EventType ev) \<and>
     dstate (storeS st) (DeliveryID ev) = None \<and>
     (0 < ttl \<longrightarrow> \<not> key_held (dedupeS st) (clock c) (dedupeKey ev))"

lemma reaches_locks_admitted: "reaches_locks ttl ev c st = mem_svc.admitted ttl ev c st"
  by (simp add: reaches_locks_def mem_svc.admitted_def)

text \<open>
  C14. A plan event that gets as far as the lock loop, being valid, no close event, no redelivery and
  not deduplicated, either is refused for a lock or leaves its merge request holding every project
  above its changed files, none of which another request held; a refusal names a project and the
  other request that holds it.
\<close>

theorem handle_locks:
  assumes adm: "reaches_locks ttl ev c st"
    and p: "p \<in> set (DiscoverFromChangedFiles perm (ChangedFiles ev))"
  shows "case fst (HandleMergeRequestEvent (mem_service ttl) perm c ev st) of
      HandleErr (ProjectLocked root m) \<Rightarrow>
        lock_owner (lockS st) (Repository ev) root = Some m \<and> m \<noteq> MergeReqID ev
    | _ \<Rightarrow>
        lock_owner (lockS st) (Repository ev) (Root p) \<in> {None, Some (MergeReqID ev)} \<and>
        lock_owner (lockS (snd (HandleMergeRequestEvent (mem_service ttl) perm c ev st)))
          (Repository ev) (Root p) = Some (MergeReqID ev)"
proof -
  note adm' = adm [unfolded reaches_locks_admitted]
  let ?r = "fst (HandleMergeRequestEvent (mem_service ttl) perm c ev st)"
  have locked: "lock_owner (lockS st) (Repository ev) root = Some m \<and> m \<noteq> MergeReqID ev"
    if "?r = HandleErr (ProjectLocked root m)" for root m
    using mem_svc.handle_locked_reason [OF adm'] that by blast
  have free: "lock_owner (lockS st) (Repository ev) (Root p) \<in> {None, Some (MergeReqID ev)} \<and>
      lock_owner (lockS (snd (HandleMergeRequestEvent (mem_service ttl) perm c ev st)))
        (Repository ev) (Root p) = Some (MergeReqID ev)"
    if "\<forall>root m. ?r \<noteq> HandleErr (ProjectLocked root m)"
  proof
    show "lock_owner (lockS (snd (HandleMergeRequestEvent (mem_service ttl) perm c ev st)))
        (Repository ev) (Root p) = Some (MergeReqID ev)"
      using mem_svc.handle_holds [OF adm' that p] .
    show "lock_owner (lockS st) (Repository ev) (Root p) \<in> {None, Some (MergeReqID ev)}"
    proof (rule ccontr)
      assume "\<not> ?thesis"
      then obtain m where "lock_owner (lockS st) (Repository ev) (Root p) = Some m" "m \<noteq> MergeReqID ev"
        by auto
      from mem_svc.handle_conflict [OF adm' p this] that show False by metis
    qed
  qed
  show ?thesis
    using locked free by (auto split: handle_result.splits service_error.splits)
qed

theorem handle_locks_witness:
  "reaches_locks 5 (ex_event ''d'' 1 [''a/x.yaml'']) ex_call (mem_init 1)
   \<and> lock_owner (lockS (snd (HandleMergeRequestEvent (mem_service 5) (\<lambda>xs. xs) ex_call
        (ex_event ''d'' 1 [''a/x.yaml'']) (mem_init 1)))) ''r'' ''.'' = Some 1"
proof
  show adm: "reaches_locks 5 (ex_event ''d'' 1 [''a/x.yaml'']) ex_call (mem_init 1)"
    by (simp add: reaches_locks_def event_problem_def ex_event_def isCloseEvent_def HasPrefix_def
        mem_init_def NewMemoryDeliveryStore_def NewMemoryDedupeStore_def key_held_def
        lower_char_def less_eq_char_def Let_def)
  have "''.'' \<in> Root ` set (DiscoverFromChangedFiles (\<lambda>xs. xs) [''a/x.yaml''])"
    by (rule discover_root [where p = "''a/x.yaml''"])
      (simp_all add: normal_path_def normal_elem_def TrimSpace_def trim_back_def trim_front_def
        ascii_space_def space2_def space3_def)
  then obtain p where p: "p \<in> set (DiscoverFromChangedFiles (\<lambda>xs. xs)
      (ChangedFiles (ex_event ''d'' 1 [''a/x.yaml''])))" and r: "Root p = ''.''"
    by (auto simp: ex_event_def)
  have "lock_owner (lockS (mem_init 1)) x y = None" for x y
    by (simp add: mem_init_def)
  then show "lock_owner (lockS (snd (HandleMergeRequestEvent (mem_service 5) (\<lambda>xs. xs) ex_call
        (ex_event ''d'' 1 [''a/x.yaml'']) (mem_init 1)))) ''r'' ''.'' = Some 1"
    using handle_locks [OF adm p] r
    by (auto simp: ex_event_def split: handle_result.splits service_error.splits)
qed

text \<open>Locks over a history: they stay until a close event of their merge request is delivered.\<close>

fun input_closes :: "string \<Rightarrow> int \<Rightarrow> svc_input \<Rightarrow> bool" where
  "input_closes repo mr (Deliver perm c ev) \<longleftrightarrow>
     isCloseEvent (EventType ev) \<and> Repository ev = repo \<and> MergeReqID ev = mr"
| "input_closes repo mr (Consume c) \<longleftrightarrow> False"

lemma run_keeps_lock:
  "lock_owner (lockS st) repo key = Some m \<Longrightarrow> list_all (\<lambda>i. \<not> input_closes repo m i) is \<Longrightarrow>
     lock_owner (lockS (snd (run_service ttl is st))) repo key = Some m"
proof (induction "is" arbitrary: st)
  case (Cons i "is")
  have "lock_owner (lockS (snd (svc_input_step ttl i st))) repo key = Some m"
    using Cons.prems mem_svc.handle_keeps [OF Cons.prems(1)]
    by (cases i) (auto simp: mem_svc.closes_def Let_def)
  from Cons.IH [OF this] show ?case using Cons.prems(2) by (simp add: case_prod_beta Let_def)
qed simp

text \<open>
  C38. The lock is per repository, not per project: every repository path discovers the directory
  \<^verbatim>\<open>.\<close>, so once an event of one merge request with a changed file is accepted and queued, then after
  any further events and consumed jobs among which no close event of that request is, no event of
  another merge request of the repository with a changed file is queued, whatever directories the
  two touch; and if that event is valid, no close event, no redelivery and not deduplicated, it is
  refused as locked.
\<close>

theorem lock_is_repository_wide:
  assumes "iteration_order perm" and "iteration_order perm'"
    and "reaches_locks ttl ev c st"
    and "HandleMergeRequestEvent (mem_service ttl) perm c ev st = (HandleOk, st1)"
    and "list_all (\<lambda>i. \<not> input_closes (Repository ev) (MergeReqID ev) i) inputs"
    and "run_service ttl inputs st1 = (js, st2)"
    and "Repository ev' = Repository ev" and "MergeReqID ev' \<noteq> MergeReqID ev"
    and "f \<in> set (ChangedFiles ev)" and "normal_path f" and "TrimSpace f \<noteq> []"
    and "g \<in> set (ChangedFiles ev')" and "normal_path g" and "TrimSpace g \<noteq> []"
  shows "chan (queueS (snd (HandleMergeRequestEvent (mem_service ttl) perm' c' ev' st2))) = chan (queueS st2) \<and>
    (reaches_locks ttl ev' c' st2 \<longrightarrow>
       (\<exists>root m. fst (HandleMergeRequestEvent (mem_service ttl) perm' c' ev' st2) = HandleErr (ProjectLocked root m)))"
proof -
  obtain p where p: "p \<in> set (DiscoverFromChangedFiles perm (ChangedFiles ev))" "Root p = ''.''"
    using discover_root [OF assms(1,10,9,11)] by auto
  obtain q where q: "q \<in> set (DiscoverFromChangedFiles perm' (ChangedFiles ev'))" "Root q = ''.''"
    using discover_root [OF assms(2,13,12,14)] by auto
  have "lock_owner (lockS st1) (Repository ev) ''.'' = Some (MergeReqID ev)"
    using mem_svc.handle_holds [OF assms(3) [unfolded reaches_locks_admitted], of perm p] assms(4) p
    by simp
  then have h: "lock_owner (lockS st2) (Repository ev') (Root q) = Some (MergeReqID ev)"
    using run_keeps_lock [OF _ assms(5), of st1 "''.''" ttl] assms(6,7) q by simp
  show ?thesis
  proof (cases "mem_svc.admitted ttl ev' c' st2")
    case True
    from mem_svc.handle_conflict [OF True q(1) h assms(8) [symmetric]]
    obtain root m where r: "fst (HandleMergeRequestEvent (mem_service ttl) perm' c' ev' st2)
        = HandleErr (ProjectLocked root m)" by metis
    moreover have "mem_svc.outcome ev' st2 (HandleMergeRequestEvent (mem_service ttl) perm' c' ev' st2)"
      using True by (intro mem_svc.handle_fresh) (simp_all add: mem_svc.admitted_def)
    ultimately show ?thesis by (auto simp: mem_svc.outcome_def)
  next
    case False
    then show ?thesis using mem_svc.handle_not_admitted [OF False] by (simp add: reaches_locks_admitted)
  qed
qed

lemmas eval_paths = normal_path_def normal_elem_def TrimSpace_def trim_back_def trim_front_def
  ascii_space_def space2_def space3_def

lemmas eval_event = event_problem_def ex_event_def isCloseEvent_def HasPrefix_def lower_char_def
  less_eq_char_def Let_def

lemma ex_discover: "DiscoverFromChangedFiles (\<lambda>xs. xs) [''a''] = [\<lparr>Root = ''.'', ConfigPath = ''thule.conf''\<rparr>]"
  by (simp add: DiscoverFromChangedFiles_def candidates_def climb.simps Dir_def Clean_def Join_def
      upto_last_slash_def HasPrefix_def clean_step_def configFilename_def eval_paths)

lemma ex_accepts:
  "HandleMergeRequestEvent (mem_service 0) (\<lambda>xs. xs) ex_call (ex_event ''d'' 1 [''a'']) (mem_init 1)
     = (HandleOk,
        \<lparr>storeS = Commit ''d'' (snd (Reserve ''d'' NewMemoryDeliveryStore)),
         lockS = snd (Acquire ''r'' ''.'' 1 NewMemoryLocker), dedupeS = NewMemoryDedupeStore,
         queueS = \<lparr>chan = [job_of_event (ex_event ''d'' 1 [''a''])], buffer = 1\<rparr>\<rparr>)"
proof -
  obtain l where a: "Acquire ''r'' ''.'' 1 NewMemoryLocker = ((True, 1), l)"
    using Acquire_granted [of NewMemoryLocker "''r''" "''.''" 1] by (metis lock_owner_New prod.collapse)
  show ?thesis
    using a ex_discover
    by (simp add: HandleMergeRequestEvent_def handle_plan_def lock_and_enqueue_def enqueue_job_def
        mem_service_def svc_defs eval_event mem_init_def Reserve_def NewMemoryDeliveryStore_def
        Enqueue_def can_send_def ex_call_def)
qed

theorem lock_is_repository_wide_witness:
  "\<exists>root m. fst (HandleMergeRequestEvent (mem_service 0) rev ex_call (ex_event ''e'' 2 [''b''])
     (snd (run_service 0 [Consume ex_call] (snd (HandleMergeRequestEvent (mem_service 0) (\<lambda>xs. xs) ex_call
        (ex_event ''d'' 1 [''a'']) (mem_init 1))))))
     = HandleErr (ProjectLocked root m)"
proof -
  let ?st1 = "snd (HandleMergeRequestEvent (mem_service 0) (\<lambda>xs. xs) ex_call (ex_event ''d'' 1 [''a'']) (mem_init 1))"
  let ?st2 = "snd (run_service 0 [Consume ex_call] ?st1)"
  have o: "iteration_order (\<lambda>xs. xs)" "iteration_order rev" by simp_all
  have adm: "reaches_locks 0 (ex_event ''d'' 1 [''a'']) ex_call (mem_init 1)"
    by (simp add: reaches_locks_def eval_event mem_init_def NewMemoryDeliveryStore_def)
  have ok: "HandleMergeRequestEvent (mem_service 0) (\<lambda>xs. xs) ex_call (ex_event ''d'' 1 [''a'']) (mem_init 1)
      = (HandleOk, ?st1)"
    unfolding ex_accepts by simp
  have adm2: "reaches_locks 0 (ex_event ''e'' 2 [''b'']) ex_call ?st2"
    unfolding ex_accepts
    by (simp add: reaches_locks_def eval_event Commit_def Reserve_def NewMemoryDeliveryStore_def)
  note wide = lock_is_repository_wide [OF o adm ok _ prod.collapse [symmetric], of "[Consume ex_call]"
      "ex_event ''e'' 2 [''b'']" "''a''" "''b''" ex_call]
  show ?thesis
    using wide adm2 by (simp add: ex_event_def eval_paths)
qed

text \<open>
  A refused event does not give its locks back: the projects it acquired before it met the
  contested one stay with its merge request.
\<close>

theorem conflict_keeps_locks:
  assumes "reaches_locks ttl ev c st"
    and "p \<in> set (DiscoverFromChangedFiles perm (ChangedFiles ev))"
    and "lock_owner (lockS st) (Repository ev) (Root p) = Some m" and "m \<noteq> MergeReqID ev"
  shows "\<exists>pre q rest m'. DiscoverFromChangedFiles perm (ChangedFiles ev) = pre @ q # rest
    \<and> fst (HandleMergeRequestEvent (mem_service ttl) perm c ev st) = HandleErr (ProjectLocked (Root q) m')
    \<and> lock_owner (lockS st) (Repository ev) (Root q) = Some m' \<and> m' \<noteq> MergeReqID ev
    \<and> (\<forall>a \<in> set pre. lock_owner (lockS (snd (HandleMergeRequestEvent (mem_service ttl) perm c ev st)))
          (Repository ev) (Root a) = Some (MergeReqID ev))"
proof -
  from mem_svc.handle_conflict [OF assms(1) [unfolded reaches_locks_admitted] assms(2-4)]
  obtain root m' pre q rest where
    "fst (HandleMergeRequestEvent (mem_service ttl) perm c ev st) = HandleErr (ProjectLocked root m')"
    "lock_owner (lockS st) (Repository ev) root = Some m'" "m' \<noteq> MergeReqID ev"
    "DiscoverFromChangedFiles perm (ChangedFiles ev) = pre @ q # rest" "root = Root q"
    "\<forall>a \<in> set pre. lock_owner (lockS (snd (HandleMergeRequestEvent (mem_service ttl) perm c ev st)))
       (Repository ev) (Root a) = Some (MergeReqID ev)" by metis
  then show ?thesis by blast
qed

definition ex_held :: MemState where
  "ex_held = (mem_init 1)\<lparr>lockS := snd (Acquire ''r'' ''.'' 1 NewMemoryLocker)\<rparr>"

text \<open>Request 2 is refused because of the repository root, and now holds the directory \<open>b\<close>.\<close>

theorem conflict_keeps_locks_witness:
  "fst (HandleMergeRequestEvent (mem_service 0) (\<lambda>xs. xs) ex_call (ex_event ''e'' 2 [''b/x'']) ex_held)
     = HandleErr (ProjectLocked ''.'' 1)
   \<and> lock_owner (lockS (snd (HandleMergeRequestEvent (mem_service 0) (\<lambda>xs. xs) ex_call
       (ex_event ''e'' 2 [''b/x'']) ex_held))) ''r'' ''b'' = Some 2"
proof -
  have d: "DiscoverFromChangedFiles (\<lambda>xs. xs) (ChangedFiles (ex_event ''e'' 2 [''b/x'']))
      = [\<lparr>Root = ''b'', ConfigPath = ''b/thule.conf''\<rparr>, \<lparr>Root = ''.'', ConfigPath = ''thule.conf''\<rparr>]"
    by (simp add: ex_event_def DiscoverFromChangedFiles_def candidates_def climb.simps Dir_def Clean_def
        Join_def upto_last_slash_def HasPrefix_def clean_step_def configFilename_def eval_paths)
  have o: "lock_owner (lockS ex_held) ''r'' k = (if k = ''.'' then Some 1 else None)" for k
    by (simp add: ex_held_def Acquire_granted)
  have adm: "reaches_locks 0 (ex_event ''e'' 2 [''b/x'']) ex_call ex_held"
    by (simp add: reaches_locks_def eval_event ex_held_def mem_init_def NewMemoryDeliveryStore_def)
  have e: "Repository (ex_event ''e'' 2 [''b/x'']) = ''r''" "MergeReqID (ex_event ''e'' 2 [''b/x'']) = 2"
    by (simp_all add: ex_event_def)
  from conflict_keeps_locks [OF adm, of "\<lparr>Root = ''.'', ConfigPath = ''thule.conf''\<rparr>" "\<lambda>xs. xs" 1]
  obtain pre q rest m' where x: "[\<lparr>Root = ''b'', ConfigPath = ''b/thule.conf''\<rparr>,
      \<lparr>Root = ''.'', ConfigPath = ''thule.conf''\<rparr>] = pre @ q # rest"
    "fst (HandleMergeRequestEvent (mem_service 0) (\<lambda>xs. xs) ex_call (ex_event ''e'' 2 [''b/x'']) ex_held)
      = HandleErr (ProjectLocked (Root q) m')" "lock_owner (lockS ex_held) ''r'' (Root q) = Some m'"
    "\<forall>a \<in> set pre. lock_owner (lockS (snd (HandleMergeRequestEvent (mem_service 0) (\<lambda>xs. xs) ex_call
       (ex_event ''e'' 2 [''b/x'']) ex_held))) ''r'' (Root a) = Some 2"
    unfolding d e o by auto
  have "Root q = ''.''" "m' = 1" using x(3) o [of "Root q"] by (simp_all split: if_splits)
  then have "pre = [\<lparr>Root = ''b'', ConfigPath = ''b/thule.conf''\<rparr>]"
    using x(1) by (auto simp: Cons_eq_append_conv)
  with x \<open>Root q = ''.''\<close> \<open>m' = 1\<close> show ?thesis by simp
qed

end
