(* ===== verification/Json_Lex.thy ===== *)
theory Json_Lex
  imports Go_Strings
begin

text \<open>
  The lexical level of \<^verbatim>\<open>encoding/json\<close>: how a string is written and read back, and what a number
  literal is. Texts are valid UTF-8; Go replaces invalid bytes, which is not modelled.
\<close>

section \<open>Writing strings\<close>

text \<open>One byte of a JSON string, with Go's HTML-safe escapes.\<close>

definition esc_char :: "char \<Rightarrow> string" where
  "esc_char c =
     (if c = dquote \<or> c = backslash then [backslash, c]
      else if c = CHR 0x08 then [backslash, CHR ''b'']
      else if c = CHR 0x0C then [backslash, CHR ''f'']
      else if c = nl then [backslash, CHR ''n'']
      else if c = CHR 0x0D then [backslash, CHR ''r'']
      else if c = CHR 0x09 then [backslash, CHR ''t'']
      else if c < CHR 0x20 \<or> c = CHR ''<'' \<or> c = CHR ''>'' \<or> c = CHR ''&'' then
        [backslash, CHR ''u'', CHR ''0'', CHR ''0'',
         hex_digit (of_char c div 16), hex_digit (of_char c mod 16)]
      else [c])"

text \<open>U+2028 and U+2029 are escaped too.\<close>

fun json_escape :: "string \<Rightarrow> string" where
  "json_escape [] = []"
| "json_escape (a # s) =
     (case s of
        b # c # r \<Rightarrow>
          (if a = CHR 0xE2 \<and> b = CHR 0x80 \<and> (c = CHR 0xA8 \<or> c = CHR 0xA9)
           then backslash # (if c = CHR 0xA8 then ''u2028'' else ''u2029'') @ json_escape r
           else esc_char a @ json_escape s)
      | _ \<Rightarrow> esc_char a @ json_escape s)"

definition json_string :: "string \<Rightarrow> string" where
  "json_string s = dquote # json_escape s @ [dquote]"

section \<open>Reading strings\<close>

definition hex_val :: "char \<Rightarrow> nat option" where
  "hex_val c =
     (if is_digit c then Some (of_char c - 48)
      else if CHR ''a'' \<le> c \<and> c \<le> CHR ''f'' then Some (of_char c - 87)
      else if CHR ''A'' \<le> c \<and> c \<le> CHR ''F'' then Some (of_char c - 55)
      else None)"

definition hex4 :: "string \<Rightarrow> (nat \<times> string) option" where
  "hex4 s =
     (case s of
        a # b # c # d # r \<Rightarrow>
          (case (hex_val a, hex_val b, hex_val c, hex_val d) of
             (Some w, Some x, Some y, Some z) \<Rightarrow> Some (4096 * w + 256 * x + 16 * y + z, r)
           | _ \<Rightarrow> None)
      | _ \<Rightarrow> None)"

text \<open>The UTF-8 form of a code point.\<close>

definition utf8 :: "nat \<Rightarrow> string" where
  "utf8 n =
     (if n < 128 then [char_of n]
      else if n < 2048 then [char_of (192 + n div 64), char_of (128 + n mod 64)]
      else if n < 65536 then
        [char_of (224 + n div 4096), char_of (128 + n div 64 mod 64), char_of (128 + n mod 64)]
      else
        [char_of (240 + n div 262144), char_of (128 + n div 4096 mod 64),
         char_of (128 + n div 64 mod 64), char_of (128 + n mod 64)])"

definition high_surrogate :: "nat \<Rightarrow> bool" where "high_surrogate n \<longleftrightarrow> 55296 \<le> n \<and> n < 56320"
definition low_surrogate :: "nat \<Rightarrow> bool" where "low_surrogate n \<longleftrightarrow> 56320 \<le> n \<and> n < 57344"

text \<open>
  What follows a \<^verbatim>\<open>\u\<close>: a lone surrogate is read as U+FFFD, a pair as the code point it stands for.
\<close>

definition unesc_u :: "string \<Rightarrow> (string \<times> string) option" where
  "unesc_u s =
     (case hex4 s of
        None \<Rightarrow> None
      | Some (n, r) \<Rightarrow>
          (if high_surrogate n then
             (case r of
                b # u # t \<Rightarrow>
                  (if b = backslash \<and> u = CHR ''u'' then
                     (case hex4 t of
                        Some (m, q) \<Rightarrow>
                          (if low_surrogate m
                           then Some (utf8 (65536 + (n - 55296) * 1024 + (m - 56320)), q)
                           else Some (utf8 65533, r))
                      | None \<Rightarrow> Some (utf8 65533, r))
                   else Some (utf8 65533, r))
              | _ \<Rightarrow> Some (utf8 65533, r))
           else if low_surrogate n then Some (utf8 65533, r)
           else Some (utf8 n, r)))"

definition unesc :: "string \<Rightarrow> (string \<times> string) option" where
  "unesc s =
     (case s of
        e # r \<Rightarrow>
          (if e = CHR ''u'' then unesc_u r
           else if e = dquote \<or> e = backslash \<or> e = slash then Some ([e], r)
           else if e = CHR ''b'' then Some ([CHR 0x08], r)
           else if e = CHR ''f'' then Some ([CHR 0x0C], r)
           else if e = CHR ''n'' then Some ([nl], r)
           else if e = CHR ''r'' then Some ([CHR 0x0D], r)
           else if e = CHR ''t'' then Some ([CHR 0x09], r)
           else None)
      | [] \<Rightarrow> None)"

lemma hex4_shorter: "hex4 s = Some (n, r) \<Longrightarrow> length r < length s"
  by (auto simp: hex4_def split: list.splits option.splits)

lemma unesc_u_shorter:
  assumes "unesc_u s = Some (x, r)"
  shows "length r < length s"
proof -
  obtain n q where h: "hex4 s = Some (n, q)"
    using assms by (auto simp: unesc_u_def split: option.splits)
  have "r = q \<or> (\<exists>b u t m. q = b # u # t \<and> hex4 t = Some (m, r))"
    using assms h by (auto simp: unesc_u_def split: option.splits if_splits list.splits)
  then show ?thesis using hex4_shorter [OF h] by (auto dest: hex4_shorter)
qed

lemma unesc_shorter: "unesc s = Some (x, r) \<Longrightarrow> length r < length s"
  by (auto simp: unesc_def dest: unesc_u_shorter split: list.splits if_splits)

text \<open>The contents of a string literal, read after its opening quote, and the text after it.\<close>

function json_unquote :: "string \<Rightarrow> (string \<times> string) option" where
  "json_unquote [] = None"
| "json_unquote (c # s) =
     (if c = dquote then Some ([], s)
      else if c = backslash then
        (case unesc s of
           None \<Rightarrow> None
         | Some (x, r) \<Rightarrow> map_option (\<lambda>(y, t). (x @ y, t)) (json_unquote r))
      else if c < CHR 0x20 then None
      else map_option (\<lambda>(y, t). (c # y, t)) (json_unquote s))"
  by pat_completeness auto
termination
  by (relation "measure length") (auto dest: unesc_shorter)

lemma hex_val_digit: "n < 16 \<Longrightarrow> hex_val (hex_digit n) = Some n"
  by (auto simp: hex_val_def hex_digit_def is_digit_def less_eq_char_def)

lemma hex_val_chars [simp]: "hex_val (CHR ''0'') = Some 0" "hex_val (CHR ''2'') = Some 2"
  "hex_val (CHR ''8'') = Some 8" "hex_val (CHR ''9'') = Some 9"
  by (simp_all add: hex_val_def is_digit_def less_eq_char_def)

lemma char_of_2028 [simp]: "char_of (226::nat) = CHR 0xE2" "char_of (128::nat) = CHR 0x80"
  "char_of (168::nat) = CHR 0xA8" "char_of (169::nat) = CHR 0xA9"
  by (simp_all add: char_of_def bit_0)

lemma unesc_simple [simp]:
  "unesc (CHR ''b'' # r) = Some ([CHR 0x08], r)"
  "unesc (CHR ''f'' # r) = Some ([CHR 0x0C], r)"
  "unesc (CHR ''n'' # r) = Some ([nl], r)"
  "unesc (CHR ''r'' # r) = Some ([CHR 0x0D], r)"
  "unesc (CHR ''t'' # r) = Some ([CHR 0x09], r)"
  "unesc (dquote # r) = Some ([dquote], r)"
  "unesc (backslash # r) = Some ([backslash], r)"
  "unesc (''u2028'' @ r) = Some ([CHR 0xE2, CHR 0x80, CHR 0xA8], r)"
  "unesc (''u2029'' @ r) = Some ([CHR 0xE2, CHR 0x80, CHR 0xA9], r)"
  by (simp_all add: unesc_def unesc_u_def hex4_def high_surrogate_def low_surrogate_def utf8_def)

lemma unesc_hex:
  assumes "(of_char c :: nat) < 128"
  shows "unesc (CHR ''u'' # CHR ''0'' # CHR ''0'' # hex_digit (of_char c div 16) # hex_digit (of_char c mod 16) # r)
    = Some ([c], r)"
proof -
  have "of_char c div 16 < (16::nat)" using assms by simp
  then show ?thesis
    using assms
    by (simp add: unesc_def unesc_u_def hex4_def hex_val_digit high_surrogate_def low_surrogate_def utf8_def)
qed

lemma json_unquote_esc_char:
  "json_unquote (esc_char c @ s) = map_option (\<lambda>(y, t). (c # y, t)) (json_unquote s)"
proof -
  have small: "(of_char c :: nat) < 128"
    if "c < CHR 0x20 \<or> c = CHR ''<'' \<or> c = CHR ''>'' \<or> c = CHR ''&''"
    using that by (auto simp: less_char_def)
  show ?thesis
    using unesc_hex [OF small]
    by (auto simp: esc_char_def split: option.splits)
qed

lemma json_unquote_escape: "json_unquote (json_escape s @ dquote # r) = Some (s, r)"
proof (induction s rule: json_escape.induct)
  case 1
  show ?case by simp
next
  case (2 a s)
  show ?case
  proof (cases "\<exists>c t. s = CHR 0x80 # c # t \<and> a = CHR 0xE2 \<and> (c = CHR 0xA8 \<or> c = CHR 0xA9)")
    case True
    then obtain c t where s: "s = CHR 0x80 # c # t" "a = CHR 0xE2" "c = CHR 0xA8 \<or> c = CHR 0xA9"
      by blast
    have "json_unquote (json_escape t @ dquote # r) = Some (t, r)" using 2 s by auto
    then show ?thesis using s unesc_simple(8,9) by (auto simp del: unesc_simple(8,9))
  next
    case False
    then have "json_escape (a # s) = esc_char a @ json_escape s"
      by (auto split: list.splits)
    moreover have "json_unquote (json_escape s @ dquote # r) = Some (s, r)"
    proof (cases "\<exists>b c t. s = b # c # t")
      case True
      then show ?thesis using 2 False by force
    next
      case no: False
      then show ?thesis using 2 by (cases s; cases "tl s") auto
    qed
    ultimately show ?thesis by (simp add: json_unquote_esc_char)
  qed
qed

lemma json_string_split:
  assumes "json_string s @ r = json_string t @ u"
  shows "s = t \<and> r = u"
proof -
  have "json_escape s @ dquote # r = json_escape t @ dquote # u"
    using assms by (simp add: json_string_def)
  then have "json_unquote (json_escape s @ dquote # r) = json_unquote (json_escape t @ dquote # u)"
    by simp
  then show ?thesis by (simp add: json_unquote_escape)
qed

section \<open>Number literals\<close>

text \<open>
  A scanner for \<^verbatim>\<open>-?(0|[1-9][0-9]*)(\.[0-9]+)?([eE][+-]?[0-9]+)?\<close>, returning the literal and the
  text after it.
\<close>

definition lex_sign :: "string \<Rightarrow> string \<times> string" where
  "lex_sign s = (case s of c # r \<Rightarrow> if c = CHR ''-'' then ([c], r) else ([], s) | [] \<Rightarrow> ([], []))"

definition lex_digits :: "string \<Rightarrow> (string \<times> string) option" where
  "lex_digits s =
     (if takeWhile is_digit s = [] then None else Some (takeWhile is_digit s, dropWhile is_digit s))"

definition lex_int :: "string \<Rightarrow> (string \<times> string) option" where
  "lex_int s =
     (case s of c # r \<Rightarrow> if c = CHR ''0'' then Some ([c], r) else lex_digits s | [] \<Rightarrow> None)"

definition lex_frac :: "string \<Rightarrow> (string \<times> string) option" where
  "lex_frac s =
     (case s of
        c # r \<Rightarrow>
          (if c = CHR ''.'' then map_option (\<lambda>(d, t). (c # d, t)) (lex_digits r) else Some ([], s))
      | [] \<Rightarrow> Some ([], []))"

definition lex_exp_sign :: "string \<Rightarrow> string \<times> string" where
  "lex_exp_sign s =
     (case s of c # r \<Rightarrow> if c = CHR ''+'' \<or> c = CHR ''-'' then ([c], r) else ([], s) | [] \<Rightarrow> ([], []))"

definition lex_exp :: "string \<Rightarrow> (string \<times> string) option" where
  "lex_exp s =
     (case s of
        c # r \<Rightarrow>
          (if c = CHR ''e'' \<or> c = CHR ''E'' then
             (case lex_exp_sign r of
                (g, t) \<Rightarrow> map_option (\<lambda>(d, u). (c # g @ d, u)) (lex_digits t))
           else Some ([], s))
      | [] \<Rightarrow> Some ([], []))"

definition lex_num :: "string \<Rightarrow> (string \<times> string) option" where
  "lex_num s =
     (case lex_sign s of (g, s1) \<Rightarrow>
        (case lex_int s1 of
           None \<Rightarrow> None
         | Some (i, s2) \<Rightarrow>
             (case lex_frac s2 of
                None \<Rightarrow> None
              | Some (f, s3) \<Rightarrow> map_option (\<lambda>(e, s4). (g @ i @ f @ e, s4)) (lex_exp s3))))"

definition num_text :: "string \<Rightarrow> bool" where
  "num_text t \<longleftrightarrow> lex_num t = Some (t, [])"

text \<open>The characters a literal can hold; what follows one must not start with any of them.\<close>

definition num_char :: "char \<Rightarrow> bool" where
  "num_char c \<longleftrightarrow> is_digit c \<or> c \<in> set ''+-.eE''"

definition num_end :: "string \<Rightarrow> bool" where
  "num_end r \<longleftrightarrow> (case r of [] \<Rightarrow> True | c # _ \<Rightarrow> \<not> num_char c)"

lemma num_end_Cons: "num_end (c # r) \<Longrightarrow> \<not> is_digit c \<and> c \<notin> set ''+-.eE''"
  by (simp add: num_end_def num_char_def)

text \<open>Scanning is not affected by text after the end of the literal.\<close>

lemma lex_digits_append:
  assumes "lex_digits s = Some (a, b)" and "num_end r"
  shows "lex_digits (s @ r) = Some (a, b @ r)"
proof -
  have "takeWhile is_digit r = []" "dropWhile is_digit r = r"
    using assms(2) by (cases r; simp add: num_end_def num_char_def)+
  then have "takeWhile is_digit (s @ r) = takeWhile is_digit s"
    "dropWhile is_digit (s @ r) = dropWhile is_digit s @ r"
    by (induction s) auto
  then show ?thesis using assms(1) by (auto simp: lex_digits_def split: if_splits)
qed

lemma lex_sign_append: "lex_sign s = (a, b) \<Longrightarrow> s \<noteq> [] \<Longrightarrow> lex_sign (s @ r) = (a, b @ r)"
  by (auto simp: lex_sign_def split: list.splits if_splits)

lemma lex_exp_sign_append: "lex_exp_sign s = (a, b) \<Longrightarrow> s \<noteq> [] \<Longrightarrow> lex_exp_sign (s @ r) = (a, b @ r)"
  by (auto simp: lex_exp_sign_def split: list.splits if_splits)

lemma lex_int_append: "lex_int s = Some (a, b) \<Longrightarrow> num_end r \<Longrightarrow> lex_int (s @ r) = Some (a, b @ r)"
  using lex_digits_append [of s a b r] by (auto simp: lex_int_def split: list.splits if_splits)

lemma lex_frac_append:
  assumes "lex_frac s = Some (a, b)" and "num_end r"
  shows "lex_frac (s @ r) = Some (a, b @ r)"
proof (cases s)
  case Nil
  then show ?thesis using assms by (auto simp: lex_frac_def dest: num_end_Cons split: list.splits)
next
  case (Cons c t)
  then show ?thesis
    using assms lex_digits_append [of t _ b r] by (auto simp: lex_frac_def split: if_splits)
qed

lemma lex_exp_append:
  assumes "lex_exp s = Some (a, b)" and "num_end r"
  shows "lex_exp (s @ r) = Some (a, b @ r)"
proof (cases s)
  case Nil
  then show ?thesis using assms by (auto simp: lex_exp_def dest: num_end_Cons split: list.splits)
next
  case (Cons c t)
  show ?thesis
  proof (cases "c = CHR ''e'' \<or> c = CHR ''E''")
    case True
    obtain g u where g: "lex_exp_sign t = (g, u)" by fastforce
    obtain d where d: "lex_digits u = Some (d, b)" and a: "a = c # g @ d"
      using assms(1) Cons True g by (auto simp: lex_exp_def)
    have "t \<noteq> []" using g d by (auto simp: lex_exp_sign_def lex_digits_def)
    then show ?thesis
      using Cons True a lex_exp_sign_append [OF g] lex_digits_append [OF d assms(2)]
      by (simp add: lex_exp_def)
  next
    case False
    then show ?thesis using assms(1) Cons by (auto simp: lex_exp_def)
  qed
qed

lemma lex_num_append:
  assumes "lex_num s = Some (a, b)" and "num_end r"
  shows "lex_num (s @ r) = Some (a, b @ r)"
proof -
  obtain g s1 i s2 f s3 e where p: "lex_sign s = (g, s1)" "lex_int s1 = Some (i, s2)"
      "lex_frac s2 = Some (f, s3)" "lex_exp s3 = Some (e, b)" "a = g @ i @ f @ e"
    using assms(1) by (auto simp: lex_num_def split: prod.splits option.splits)
  moreover have "s \<noteq> []" using p(1,2) by (auto simp: lex_sign_def lex_int_def)
  ultimately show ?thesis
    using assms(2) lex_sign_append [OF p(1)]
    by (simp add: lex_num_def lex_int_append lex_frac_append lex_exp_append)
qed

lemma num_text_append: "num_text t \<Longrightarrow> num_end r \<Longrightarrow> lex_num (t @ r) = Some (t, r)"
  using lex_num_append [of t t "[]" r] by (simp add: num_text_def)

lemma lex_digits_hd: "lex_digits s = Some (a, b) \<Longrightarrow> s \<noteq> [] \<and> is_digit (hd s)"
  by (cases s) (auto simp: lex_digits_def split: if_splits)

lemma lex_num_hd:
  assumes "lex_num s = Some (a, b)"
  shows "s \<noteq> [] \<and> (is_digit (hd s) \<or> hd s = CHR ''-'')"
proof (cases s)
  case (Cons c r)
  have "is_digit (CHR ''0'')" by (simp add: is_digit_def less_eq_char_def)
  moreover have "c = CHR ''-'' \<or> c = CHR ''0'' \<or> lex_digits s \<noteq> None"
    using assms Cons by (auto simp: lex_num_def lex_sign_def lex_int_def split: option.splits if_splits)
  ultimately show ?thesis using Cons lex_digits_hd by fastforce
qed (use assms in \<open>simp add: lex_num_def lex_sign_def lex_int_def\<close>)

lemma num_text_hd: "num_text t \<Longrightarrow> t \<noteq> [] \<and> (is_digit (hd t) \<or> hd t = CHR ''-'')"
  unfolding num_text_def by (rule lex_num_hd)

lemma lex_digits_split: "lex_digits s = Some (a, b) \<Longrightarrow> s = a @ b \<and> a \<noteq> []"
  by (auto simp: lex_digits_def split: if_splits)

text \<open>The literal and the rest make up the text that was scanned.\<close>

lemma lex_num_split:
  assumes "lex_num s = Some (a, b)"
  shows "s = a @ b \<and> a \<noteq> []"
proof -
  obtain g s1 i s2 f s3 e where p: "lex_sign s = (g, s1)" "lex_int s1 = Some (i, s2)"
      "lex_frac s2 = Some (f, s3)" "lex_exp s3 = Some (e, b)" "a = g @ i @ f @ e"
    using assms by (auto simp: lex_num_def split: prod.splits option.splits)
  have "s = g @ s1" using p(1) by (auto simp: lex_sign_def split: list.splits if_splits)
  moreover have "s1 = i @ s2 \<and> i \<noteq> []"
    using p(2) lex_digits_split by (auto simp: lex_int_def split: list.splits if_splits)
  moreover have "s2 = f @ s3"
    using p(3) lex_digits_split by (auto simp: lex_frac_def split: list.splits if_splits)
  moreover have "s3 = e @ b"
    using p(4) lex_digits_split
    by (fastforce simp: lex_exp_def lex_exp_sign_def split: list.splits if_splits prod.splits)
  ultimately show ?thesis using p(5) by simp
qed

text \<open>A printed integer is a number literal.\<close>

lemma nat_str_lex_int: "lex_int (nat_str n) = Some (nat_str n, [])"
proof -
  have "lex_int (nat_str n) = Some (nat_str n, []) \<and> (0 < n \<longrightarrow> hd (nat_str n) \<noteq> CHR ''0'')"
  proof (induction n rule: nat_str.induct)
    case (1 n)
    have digits: "lex_digits (nat_str n) = Some (nat_str n, [])"
      using nat_str_digits [of _ n] by (simp add: lex_digits_def takeWhile_eq_all_conv [THEN iffD2])
    show ?case
    proof (cases "n < 10")
      case True
      have "digit_char n = CHR ''0'' \<longleftrightarrow> n = 0"
        using True of_char_digit_char [of n] of_char_eq_iff [of "digit_char n" "CHR ''0''", where 'a = nat]
        by simp
      then show ?thesis
        using True digits by (subst (1 2 3) nat_str.simps)
          (auto simp: lex_int_def nat_str.simps [of n])
    next
      case False
      then have "hd (nat_str n) \<noteq> CHR ''0''"
        using 1 by (subst nat_str.simps) (simp add: hd_append)
      then show ?thesis using digits by (cases "nat_str n") (simp_all add: lex_int_def)
    qed
  qed
  then show ?thesis by blast
qed

lemma num_text_itoa: "num_text (itoa i)"
proof -
  have "lex_sign (nat_str n) = ([], nat_str n)" for n
    using nat_str_no_minus [of n] by (cases "nat_str n") (auto simp: lex_sign_def)
  then show ?thesis
    by (simp add: num_text_def itoa_def lex_num_def lex_sign_def nat_str_lex_int lex_frac_def lex_exp_def)
qed

end
