(* ===== verification/Go_Value.thy ===== *)
theory Go_Value
  imports Json_Lex
begin

text \<open>
  The dynamically typed values the program works on (\<^verbatim>\<open>any\<close> holding what a YAML or JSON decoder
  produces) and \<^verbatim>\<open>encoding/json\<close>'s \<^verbatim>\<open>Marshal\<close> on them.

  A map is an association list with strictly increasing keys (\<^const>\<open>wf_keys\<close>), so equal maps are
  equal lists; Go's \<^verbatim>\<open>json.Marshal\<close> writes map keys in that order too. A number, integer or
  \<^verbatim>\<open>float64\<close>, is represented by the text \<^verbatim>\<open>Marshal\<close> prints for it; two \<^verbatim>\<open>float64\<close>s print alike exactly when
  they have the same bits. A YAML timestamp, decoded to a
  \<^verbatim>\<open>time.Time\<close>, stands as the string it marshals to. Strings are valid UTF-8. \<open>AOpaque\<close> stands
  for a decoded value \<^verbatim>\<open>Marshal\<close> refuses (a YAML \<^verbatim>\<open>.nan\<close> or \<^verbatim>\<open>.inf\<close>, a mapping with keys that are
  not strings).
\<close>

datatype any =
    ANil
  | ABool bool
  | ANum string
  | AStr string
  | AList "any list"
  | AMap "(string \<times> any) list"
  | AOpaque string

lemma size_any_map [termination_simp]:
  "(k, v) \<in> set m \<Longrightarrow> size v < Suc (size_list (size_prod (\<lambda>x. 0) size) m)"
  by (induction m) auto

lemma size_any_map_of [termination_simp]:
  "map_of m k = Some v \<Longrightarrow> size v < Suc (size_list (size_prod (\<lambda>x. 0) size) m)"
  by (rule size_any_map) (rule map_of_SomeD)

text \<open>Induction over values, with the hypothesis for the values a map holds.\<close>

lemma any_induct [case_names Nil Bool Num Str List Map Opaque]:
  assumes "P ANil" and "\<And>b. P (ABool b)" and "\<And>t. P (ANum t)" and "\<And>s. P (AStr s)"
    and "\<And>xs. (\<And>x. x \<in> set xs \<Longrightarrow> P x) \<Longrightarrow> P (AList xs)"
    and "\<And>m. (\<And>k v. (k, v) \<in> set m \<Longrightarrow> P v) \<Longrightarrow> P (AMap m)"
    and "\<And>t. P (AOpaque t)"
  shows "P v"
  using assms by (induction v) (auto simp: snds.simps)

text \<open>Reading a key of a Go map: a missing key gives nil.\<close>

definition at_key :: "(string \<times> any) list \<Rightarrow> string \<Rightarrow> any" where
  "at_key m k = (case map_of m k of None \<Rightarrow> ANil | Some v \<Rightarrow> v)"

section \<open>Well-formed values\<close>

fun wf_any :: "any \<Rightarrow> bool" where
  "wf_any (ANum t) = num_text t"
| "wf_any (AList xs) = list_all wf_any xs"
| "wf_any (AMap m) = (wf_keys m \<and> list_all (\<lambda>(k, v). wf_any v) m)"
| "wf_any _ = True"

text \<open>The part of it that is about numbers; a struct is printed with its fields in any order.\<close>

fun wf_nums :: "any \<Rightarrow> bool" where
  "wf_nums (ANum t) = num_text t"
| "wf_nums (AList xs) = list_all wf_nums xs"
| "wf_nums (AMap m) = list_all (\<lambda>(k, v). wf_nums v) m"
| "wf_nums _ = True"

lemma wf_any_nums: "wf_any v \<Longrightarrow> wf_nums v"
  by (induction v rule: any_induct) (auto simp: list_all_iff)

text \<open>Values \<^verbatim>\<open>Marshal\<close> accepts.\<close>

fun jsonable :: "any \<Rightarrow> bool" where
  "jsonable (AList xs) = list_all jsonable xs"
| "jsonable (AMap m) = list_all (\<lambda>(k, v). jsonable v) m"
| "jsonable (AOpaque t) = False"
| "jsonable _ = True"

text \<open>Well-formed maps are what a resource body is.\<close>

definition wf_map :: "(string \<times> any) list \<Rightarrow> bool" where
  "wf_map m \<longleftrightarrow> wf_any (AMap m)"

lemma wf_map_keys: "wf_map m \<Longrightarrow> wf_keys m"
  by (simp add: wf_map_def)

lemma wf_map_val: "wf_map m \<Longrightarrow> (k, v) \<in> set m \<Longrightarrow> wf_any v"
  by (auto simp: wf_map_def list_all_iff)

lemma wf_map_at: "wf_map m \<Longrightarrow> map_of m k = Some v \<Longrightarrow> wf_any v"
  using wf_map_val map_of_SomeD by fastforce

lemma wf_mapI: "wf_keys m \<Longrightarrow> (\<And>k v. (k, v) \<in> set m \<Longrightarrow> wf_any v) \<Longrightarrow> wf_map m"
  by (auto simp: wf_map_def list_all_iff)

lemma wf_map_del_key [wf_intros]: "wf_map m \<Longrightarrow> wf_map (del_key k m)"
  by (rule wf_mapI) (auto intro: wf_keys_del_key wf_map_keys wf_map_val dest: set_mp [OF set_del_key_subset])

lemma wf_map_set_key [wf_intros]: "wf_map m \<Longrightarrow> wf_any v \<Longrightarrow> wf_map (set_key k v m)"
  by (rule wf_mapI) (auto intro: wf_keys_set_key wf_map_keys wf_map_val dest: set_mp [OF set_set_key_subset])

section \<open>JSON text\<close>

fun json_text :: "any \<Rightarrow> string" where
  "json_text ANil = ''null''"
| "json_text (ABool b) = (if b then ''true'' else ''false'')"
| "json_text (ANum t) = t"
| "json_text (AStr s) = json_string s"
| "json_text (AList xs) = ''['' @ join '','' (map json_text xs) @ '']''"
| "json_text (AMap m) =
     ''{'' @ join '','' (map (\<lambda>(k, v). json_string k @ '':'' @ json_text v) m) @ ''}''"
| "json_text (AOpaque t) = []"

text \<open>\<^verbatim>\<open>json.Marshal\<close>: the text, or an error for a value it refuses.\<close>

definition Marshal :: "any \<Rightarrow> string option" where
  "Marshal v = (if jsonable v then Some (json_text v) else None)"

text \<open>What the program keeps of it when it ignores the error: no bytes.\<close>

definition marshal_bytes :: "any \<Rightarrow> string" where
  "marshal_bytes v = (case Marshal v of None \<Rightarrow> [] | Some s \<Rightarrow> s)"

section \<open>JSON text determines the value\<close>

text \<open>What can follow a value inside a JSON text.\<close>

definition delimited :: "string \<Rightarrow> bool" where
  "delimited r \<longleftrightarrow> r = [] \<or> hd r \<in> set '',]}''"

text \<open>A code is split off unambiguously in front of a delimiter.\<close>

definition splits :: "('a \<Rightarrow> string) \<Rightarrow> 'a \<Rightarrow> 'a \<Rightarrow> bool" where
  "splits e x y \<longleftrightarrow>
     (\<forall>r s. e x @ r = e y @ s \<longrightarrow> delimited r \<longrightarrow> delimited s \<longrightarrow> x = y \<and> r = s)"

definition starts :: "('a \<Rightarrow> string) \<Rightarrow> 'a \<Rightarrow> bool" where
  "starts e x \<longleftrightarrow> e x \<noteq> [] \<and> hd (e x) \<notin> set '',]}''"

lemma delimited_simps [simp]:
  "delimited []" "delimited (CHR '','' # r)" "delimited (CHR '']'' # r)" "delimited (CHR ''}'' # r)"
  by (simp_all add: delimited_def)

definition join_rest :: "('a \<Rightarrow> string) \<Rightarrow> 'a list \<Rightarrow> string" where
  "join_rest e xs = (if xs = [] then [] else CHR '','' # join '','' (map e xs))"

lemma join_map_Cons: "join '','' (map e (x # xs)) = e x @ join_rest e xs"
  by (simp add: join_rest_def join_Cons)

lemma delimited_rest: "cl \<in> set '']}'' \<Longrightarrow> delimited (join_rest e xs @ cl # r)"
  by (auto simp: join_rest_def delimited_def)

lemma starts_not_close:
  assumes "starts e x" and "cl \<in> set '']}''"
  shows "cl # r \<noteq> e x @ s"
proof
  assume "cl # r = e x @ s"
  then have "cl = hd (e x)" using assms(1) by (metis hd_append list.sel(1) starts_def)
  then show False using assms by (auto simp: starts_def)
qed

lemma rest_close:
  assumes "cl \<in> set '']}''" and "join_rest e xs @ cl # r = join_rest e ys @ cl # s"
  shows "(xs = [] \<longleftrightarrow> ys = []) \<and>
    (xs = [] \<longrightarrow> r = s) \<and> join '','' (map e xs) @ cl # r = join '','' (map e ys) @ cl # s"
  using assms by (auto simp: join_rest_def split: if_splits)

lemma join_splits:
  assumes cl: "cl \<in> set '']}''"
    and "\<forall>x \<in> set xs. \<forall>y \<in> set ys. splits e x y"
    and "\<forall>x \<in> set xs \<union> set ys. starts e x"
    and "join '','' (map e xs) @ cl # r = join '','' (map e ys) @ cl # s"
  shows "xs = ys \<and> r = s"
  using assms(2-4)
proof (induction xs ys rule: list_induct2')
  case 1
  then show ?case by simp
next
  case (2 x xs)
  have "cl # s = e x @ join_rest e xs @ cl # r"
    using 2(3) unfolding join_map_Cons by simp
  moreover have "starts e x" using 2(2) by simp
  ultimately show ?case using starts_not_close [OF _ cl] by metis
next
  case (3 y ys)
  have "cl # r = e y @ join_rest e ys @ cl # s"
    using 3(3) unfolding join_map_Cons by simp
  moreover have "starts e y" using 3(2) by simp
  ultimately show ?case using starts_not_close [OF _ cl] by metis
next
  case (4 x xs y ys)
  have "e x @ join_rest e xs @ cl # r = e y @ join_rest e ys @ cl # s"
    using "4.prems"(3) unfolding join_map_Cons append_assoc .
  moreover have "splits e x y" using "4.prems"(1) by simp
  ultimately have "x = y" and rest: "join_rest e xs @ cl # r = join_rest e ys @ cl # s"
    using delimited_rest [OF cl] unfolding splits_def by blast+
  moreover have "xs = ys \<and> r = s"
    using "4.prems"(1,2) rest_close [OF cl rest] by (intro "4.IH") auto
  ultimately show ?case by simp
qed

text \<open>The first byte of a JSON text tells the kind of value.\<close>

definition kind_of_char :: "char \<Rightarrow> nat" where
  "kind_of_char c =
     (if c = CHR ''n'' then 0 else if c = CHR ''t'' \<or> c = CHR ''f'' then 1
      else if c = dquote then 3 else if c = CHR ''['' then 4 else if c = CHR ''{'' then 5
      else if is_digit c \<or> c = CHR ''-'' then 2 else 6)"

fun kind_of :: "any \<Rightarrow> nat" where
  "kind_of ANil = 0" | "kind_of (ABool b) = 1" | "kind_of (ANum t) = 2" | "kind_of (AStr s) = 3"
| "kind_of (AList xs) = 4" | "kind_of (AMap m) = 5" | "kind_of (AOpaque t) = 6"

lemma kind_of_char_delim: "kind_of_char (CHR '','') = 6" "kind_of_char (CHR '']'') = 6" "kind_of_char (CHR ''}'') = 6"
  by (simp_all add: kind_of_char_def is_digit_def less_eq_char_def)

lemma kind_of_char_num:
  assumes "is_digit c \<or> c = CHR ''-''"
  shows "kind_of_char c = 2"
proof -
  have "(of_char c :: nat) \<le> 57" using assms by (auto simp: is_digit_def less_eq_char_def)
  then have "c \<noteq> CHR ''n''" "c \<noteq> CHR ''t''" "c \<noteq> CHR ''f''" "c \<noteq> CHR ''[''" "c \<noteq> CHR ''{''"
    by auto
  moreover have "c \<noteq> dquote" using assms by (auto simp: is_digit_def less_eq_char_def)
  ultimately show ?thesis using assms by (simp add: kind_of_char_def)
qed

lemma json_text_kind:
  assumes "wf_nums v" and "jsonable v"
  shows "json_text v \<noteq> [] \<and> kind_of_char (hd (json_text v)) = kind_of v"
proof (cases v)
  case (ANum t)
  then show ?thesis using assms kind_of_char_num num_text_hd [of t] by auto
qed (use assms in \<open>auto simp: json_string_def kind_of_char_def\<close>)

lemma json_text_same_kind:
  assumes "wf_nums v" and "jsonable v" and "wf_nums w" and "jsonable w"
    and "json_text v @ r = json_text w @ s"
  shows "kind_of w = kind_of v"
  using json_text_kind [OF assms(1,2)] json_text_kind [OF assms(3,4)] assms(5) by (metis hd_append)

lemma json_text_starts:
  assumes "wf_nums v" and "jsonable v"
  shows "starts json_text v"
proof -
  have "kind_of v \<noteq> 6" using assms by (cases v) auto
  then show ?thesis
    using json_text_kind [OF assms] kind_of_char_delim by (auto simp: starts_def)
qed

lemma delimited_num_end: "delimited r \<Longrightarrow> num_end r"
  by (cases r) (auto simp: delimited_def num_end_def num_char_def is_digit_def less_eq_char_def)

lemma num_text_split:
  assumes "num_text t" and "num_text u" and "delimited r" and "delimited s" and "t @ r = u @ s"
  shows "t = u \<and> r = s"
  using num_text_append [OF assms(1) delimited_num_end [OF assms(3)], unfolded assms(5)]
    num_text_append [OF assms(2) delimited_num_end [OF assms(4)]]
  by simp

definition json_pair :: "string \<times> any \<Rightarrow> string" where
  "json_pair kv = json_string (fst kv) @ '':'' @ json_text (snd kv)"

lemma json_text_map: "json_text (AMap m) = ''{'' @ join '','' (map json_pair m) @ ''}''"
  by (simp add: json_pair_def [abs_def] case_prod_unfold)

lemma json_pair_starts: "starts json_pair kv"
  by (simp add: starts_def json_pair_def json_string_def)

lemma json_pair_splits:
  assumes "splits json_text (snd x) (snd y)"
  shows "splits json_pair x y"
  unfolding splits_def
proof (intro allI impI)
  fix r s
  assume "json_pair x @ r = json_pair y @ s" and d: "delimited r" "delimited s"
  then have "json_string (fst x) @ '':'' @ json_text (snd x) @ r
      = json_string (fst y) @ '':'' @ json_text (snd y) @ s"
    by (simp add: json_pair_def)
  from json_string_split [OF this] have "fst x = fst y" and "json_text (snd x) @ r = json_text (snd y) @ s"
    by simp_all
  then show "x = y \<and> r = s" using assms d by (auto simp: splits_def prod_eq_iff)
qed

lemma json_text_splits:
  "wf_nums v \<Longrightarrow> jsonable v \<Longrightarrow> wf_nums w \<Longrightarrow> jsonable w \<Longrightarrow>
     json_text v @ r = json_text w @ s \<Longrightarrow> delimited r \<Longrightarrow> delimited s \<Longrightarrow> v = w \<and> r = s"
proof (induction v arbitrary: w r s rule: any_induct)
  case (List xs)
  obtain ys where w: "w = AList ys"
    using json_text_same_kind [OF List.prems(1-5)] by (cases w) auto
  have "xs = ys \<and> r = s"
  proof (rule join_splits [where e = json_text and cl = "CHR '']''"])
    show "\<forall>x \<in> set xs. \<forall>y \<in> set ys. splits json_text x y"
    proof (intro ballI)
      fix x y assume "x \<in> set xs" "y \<in> set ys"
      then show "splits json_text x y"
        using List.IH [of x y] List.prems(1-4) w unfolding splits_def by (simp add: list_all_iff)
    qed
    show "\<forall>x \<in> set xs \<union> set ys. starts json_text x"
    proof (intro ballI json_text_starts)
      fix x assume "x \<in> set xs \<union> set ys"
      then show "wf_nums x" "jsonable x"
        using List.prems(1-4) w by (auto simp: list_all_iff)
    qed
  qed (use List.prems(5) w in simp_all)
  then show ?case using w by simp
next
  case (Map m)
  obtain n where w: "w = AMap n"
    using json_text_same_kind [OF Map.prems(1-5)] by (cases w) auto
  have "m = n \<and> r = s"
  proof (rule join_splits [where e = json_pair and cl = "CHR ''}''"])
    show "\<forall>x \<in> set m. \<forall>y \<in> set n. splits json_pair x y"
    proof (intro ballI json_pair_splits)
      fix x y assume "x \<in> set m" "y \<in> set n"
      then show "splits json_text (snd x) (snd y)"
        using Map.IH [of "fst x" "snd x" "snd y"] Map.prems(1-4) w
        unfolding splits_def by (simp add: list_all_iff case_prod_beta)
    qed
    show "join '','' (map json_pair m) @ CHR ''}'' # r = join '','' (map json_pair n) @ CHR ''}'' # s"
      using Map.prems(5) unfolding w json_text_map by simp
  qed (auto simp: json_pair_starts)
  then show ?case using w by simp
next
  case (Num t)
  obtain u where w: "w = ANum u"
    using json_text_same_kind [OF Num.prems(1-5)] by (cases w) auto
  then show ?case using Num.prems num_text_split [of t u r s] by simp
next
  case (Str t)
  obtain u where w: "w = AStr u"
    using json_text_same_kind [OF Str.prems(1-5)] by (cases w) auto
  then show ?case using Str.prems json_string_split [of t r u s] by simp
next
  case (Bool b)
  obtain c where w: "w = ABool c"
    using json_text_same_kind [OF Bool.prems(1-5)] by (cases w) auto
  then show ?case using Bool.prems by (auto split: if_splits)
next
  case Nil
  have w: "w = ANil"
    using json_text_same_kind [OF Nil.prems(1-5)] by (cases w) auto
  then show ?case using Nil.prems by simp
qed simp

lemma json_text_inj:
  "wf_any v \<Longrightarrow> jsonable v \<Longrightarrow> wf_any w \<Longrightarrow> jsonable w \<Longrightarrow> json_text v = json_text w \<longleftrightarrow> v = w"
  using json_text_splits [of v w "[]" "[]"] wf_any_nums by auto

text \<open>
  Comparing two JSON texts compares the values: \<^verbatim>\<open>Marshal\<close> is injective on well-formed values
  that it accepts.
\<close>

lemma marshal_bytes_inj:
  assumes "wf_any v" and "jsonable v" and "wf_any w" and "jsonable w"
  shows "marshal_bytes v = marshal_bytes w \<longleftrightarrow> v = w"
  using assms by (simp add: marshal_bytes_def Marshal_def json_text_inj)

end
