(* ===== verification/Go_Json.thy ===== *)
theory Go_Json
  imports Go_Value
begin

text \<open>
  \<^verbatim>\<open>json.Unmarshal\<close> of \<^verbatim>\<open>encoding/json\<close>: the parser for JSON texts, decoding into \<^verbatim>\<open>any\<close> and
  \<^verbatim>\<open>map[string]any\<close>, and decoding into the fields of a struct. The main fact is the round trip: what
  \<^const>\<open>Marshal\<close> writes is read back as the same value.

  Objects keep their members in order, with duplicates. The depth of nesting is limited as in the
  library, so the parser recurses over the depth that is left; the fuel of \<open>parse_seq\<close> is the length
  of its text, which is always enough because every item consumes at least one byte
  (\<open>parse_seq_fuel\<close>).
\<close>

datatype json =
    JNull
  | JBool bool
  | JNum string
  | JStr string
  | JArr "json list"
  | JObj "(string \<times> json) list"

section \<open>Parsing\<close>

definition json_ws :: "char \<Rightarrow> bool" where
  "json_ws c \<longleftrightarrow> c = CHR '' '' \<or> c = CHR 0x09 \<or> c = nl \<or> c = CHR 0x0D"

definition skip_ws :: "string \<Rightarrow> string" where
  "skip_ws s = dropWhile json_ws s"

type_synonym 'a parser = "string \<Rightarrow> ('a \<times> string) option"

text \<open>Items separated by commas up to the closing bracket.\<close>

primrec parse_seq :: "'a parser \<Rightarrow> char \<Rightarrow> nat \<Rightarrow> 'a list parser" where
  "parse_seq item close 0 s = None"
| "parse_seq item close (Suc n) s =
     (case item s of
        None \<Rightarrow> None
      | Some (x, r) \<Rightarrow>
          (case skip_ws r of
             [] \<Rightarrow> None
           | c # t \<Rightarrow>
               (if c = CHR '','' then map_option (\<lambda>(xs, u). (x # xs, u)) (parse_seq item close n t)
                else if c = close then Some ([x], t)
                else None)))"

text \<open>The contents of an array or object after its opening bracket.\<close>

definition parse_list :: "'a parser \<Rightarrow> char \<Rightarrow> 'a list parser" where
  "parse_list item close s =
     (case skip_ws s of
        [] \<Rightarrow> None
      | c # t \<Rightarrow> if c = close then Some ([], t) else parse_seq item close (length s) s)"

definition parse_member :: "'a parser \<Rightarrow> (string \<times> 'a) parser" where
  "parse_member val s =
     (case skip_ws s of
        [] \<Rightarrow> None
      | q # r \<Rightarrow>
          (if q \<noteq> dquote then None
           else (case json_unquote r of
                   None \<Rightarrow> None
                 | Some (k, t) \<Rightarrow>
                     (case skip_ws t of
                        [] \<Rightarrow> None
                      | c # u \<Rightarrow>
                          (if c = CHR '':'' then map_option (\<lambda>(v, w). ((k, v), w)) (val u)
                           else None)))))"

definition strip_prefix :: "string \<Rightarrow> string \<Rightarrow> string option" where
  "strip_prefix p s = (if take (length p) s = p then Some (drop (length p) s) else None)"

text \<open>A scalar, at the first byte that is not white space.\<close>

definition parse_scalar :: "json parser" where
  "parse_scalar s =
     (case s of
        [] \<Rightarrow> None
      | c # r \<Rightarrow>
          (if c = dquote then map_option (\<lambda>(x, t). (JStr x, t)) (json_unquote r)
           else if c = CHR ''n'' then map_option (Pair JNull) (strip_prefix ''null'' s)
           else if c = CHR ''t'' then map_option (Pair (JBool True)) (strip_prefix ''true'' s)
           else if c = CHR ''f'' then map_option (Pair (JBool False)) (strip_prefix ''false'' s)
           else map_option (\<lambda>(x, t). (JNum x, t)) (lex_num s)))"

text \<open>One value; the first argument parses what is nested in it, if deeper nesting is allowed.\<close>

definition parse_with :: "json parser option \<Rightarrow> json parser" where
  "parse_with inner s0 =
     (case skip_ws s0 of
        [] \<Rightarrow> None
      | c # r \<Rightarrow>
          (if c = CHR ''['' then
             (case inner of
                None \<Rightarrow> None
              | Some val \<Rightarrow> map_option (\<lambda>(xs, t). (JArr xs, t)) (parse_list val (CHR '']'') r))
           else if c = CHR ''{'' then
             (case inner of
                None \<Rightarrow> None
              | Some val \<Rightarrow>
                  map_option (\<lambda>(ms, t). (JObj ms, t)) (parse_list (parse_member val) (CHR ''}'') r))
           else parse_scalar (c # r)))"

primrec parse_value :: "nat \<Rightarrow> json parser" where
  "parse_value 0 = parse_with None"
| "parse_value (Suc d) = parse_with (Some (parse_value d))"

definition max_depth :: nat where "max_depth = 10000"

text \<open>The whole text is one value, with white space around it.\<close>

definition parse_json :: "string \<Rightarrow> json option" where
  "parse_json s =
     (case parse_value max_depth s of
        None \<Rightarrow> None
      | Some (v, r) \<Rightarrow> if skip_ws r = [] then Some v else None)"

section \<open>Every item consumes text\<close>

lemma length_skip_ws: "length (skip_ws s) \<le> length s"
  by (simp add: skip_ws_def length_dropWhile_le)

definition consumes :: "'a parser \<Rightarrow> bool" where
  "consumes p \<longleftrightarrow> (\<forall>s x r. p s = Some (x, r) \<longrightarrow> length r < length s)"

lemma consumesI: "(\<And>s x r. p s = Some (x, r) \<Longrightarrow> length r < length s) \<Longrightarrow> consumes p"
  by (simp add: consumes_def)

lemma consumesD: "consumes p \<Longrightarrow> p s = Some (x, r) \<Longrightarrow> length r < length s"
  by (simp add: consumes_def)

lemma skip_ws_Cons: "skip_ws s = c # r \<Longrightarrow> length r < length s"
  using length_skip_ws [of s] by simp

lemma json_unquote_shorter: "json_unquote s = Some (x, r) \<Longrightarrow> length r < length s"
proof (induction s arbitrary: x r rule: json_unquote.induct)
  case (2 c s)
  show ?case
  proof (cases "c = dquote")
    case False
    show ?thesis
    proof (cases "c = backslash")
      case True
      then obtain y t z where u: "unesc s = Some (y, t)" and "json_unquote t = Some (z, r)"
        using "2.prems" False by (auto split: option.splits)
      then have "length r < length t" using "2.IH"(1) [OF False True] by blast
      then show ?thesis using unesc_shorter [OF u] by simp
    next
      case no: False
      then obtain z where "\<not> c < CHR 0x20" "json_unquote s = Some (z, r)"
        using "2.prems" False by (auto split: if_splits)
      then show ?thesis using "2.IH"(2) [OF False no] by fastforce
    qed
  qed (use "2.prems" in auto)
qed simp

lemma parse_seq_consumes:
  assumes "consumes item"
  shows "consumes (parse_seq item close n)"
proof (rule consumesI)
  fix s xs r
  assume "parse_seq item close n s = Some (xs, r)"
  then show "length r < length s"
  proof (induction n arbitrary: s xs r)
    case (Suc n)
    then obtain x q c t where i: "item s = Some (x, q)" and w: "skip_ws q = c # t"
      by (auto split: option.splits list.splits)
    have "r = t \<or> (\<exists>ys. parse_seq item close n t = Some (ys, r))"
      using Suc.prems i w by (auto split: if_splits)
    then have "length r \<le> length t" using Suc.IH less_imp_le by blast
    then show ?case using consumesD [OF assms i] skip_ws_Cons [OF w] by simp
  qed simp
qed

lemma parse_list_consumes: "consumes item \<Longrightarrow> consumes (parse_list item close)"
  by (rule consumesI)
    (auto simp: parse_list_def split: list.splits if_splits
      dest: skip_ws_Cons consumesD [OF parse_seq_consumes])

lemma parse_member_consumes:
  assumes "consumes val"
  shows "consumes (parse_member val)"
proof (rule consumesI)
  fix s m r
  assume "parse_member val s = Some (m, r)"
  then obtain q a k t c u v where "skip_ws s = q # a" "json_unquote a = Some (k, t)"
      "skip_ws t = c # u" "val u = Some (v, r)"
    by (auto simp: parse_member_def split: list.splits if_splits option.splits)
  then show "length r < length s"
    using consumesD [OF assms] by (fastforce dest: skip_ws_Cons json_unquote_shorter)
qed

lemma strip_prefix_shorter: "strip_prefix p s = Some r \<Longrightarrow> p \<noteq> [] \<Longrightarrow> length r < length s"
  by (cases s) (auto simp: strip_prefix_def split: if_splits)

lemma parse_scalar_consumes: "consumes parse_scalar"
proof (rule consumesI)
  fix s v r
  assume p: "parse_scalar s = Some (v, r)"
  then obtain c t where s: "s = c # t" by (cases s) (auto simp: parse_scalar_def)
  have "(\<exists>x. json_unquote t = Some (x, r)) \<or> (\<exists>p. p \<noteq> [] \<and> strip_prefix p s = Some r) \<or>
      (\<exists>x. lex_num s = Some (x, r))"
    using p s by (fastforce simp: parse_scalar_def split: if_splits)
  moreover have "length r < length s" if "lex_num s = Some (x, r)" for x
    using lex_num_split [OF that] by auto
  ultimately show "length r < length s"
    using s json_unquote_shorter strip_prefix_shorter by fastforce
qed

lemma parse_with_consumes:
  assumes "\<And>val. inner = Some val \<Longrightarrow> consumes val"
  shows "consumes (parse_with inner)"
proof (rule consumesI)
  fix s v r
  assume p: "parse_with inner s = Some (v, r)"
  then obtain c t where w: "skip_ws s = c # t" by (auto simp: parse_with_def split: list.splits)
  consider (arr) val xs where "inner = Some val" "parse_list val (CHR '']'') t = Some (xs, r)"
    | (obj) val ms where "inner = Some val" "parse_list (parse_member val) (CHR ''}'') t = Some (ms, r)"
    | (scalar) "parse_scalar (c # t) = Some (v, r)"
    using p w by (auto simp: parse_with_def split: if_splits option.splits)
  then have "length r < length (c # t)"
  proof cases
    case arr
    then show ?thesis using consumesD [OF parse_list_consumes] assms by fastforce
  next
    case obj
    then show ?thesis
      using consumesD [OF parse_list_consumes [OF parse_member_consumes]] assms by fastforce
  next
    case scalar
    then show ?thesis using consumesD [OF parse_scalar_consumes] by blast
  qed
  then show "length r < length s" using length_skip_ws [of s] w by simp
qed

lemma parse_value_consumes: "consumes (parse_value d)"
  by (induction d) (auto intro: parse_with_consumes)

text \<open>More fuel than the length of the text never changes what a sequence is parsed to.\<close>

lemma parse_seq_fuel:
  assumes "consumes item" and "length s \<le> n" and "length s \<le> m"
  shows "parse_seq item close n s = parse_seq item close m s"
  using assms(2,3)
proof (induction n arbitrary: m s)
  case 0
  then have "item s = None" using consumesD [OF assms(1), of "[]"] by (cases "item s") auto
  then show ?case by (cases m) simp_all
next
  case (Suc n)
  have none: "item [] = None" using consumesD [OF assms(1), of "[]"] by (cases "item []") auto
  show ?case
  proof (cases m)
    case 0
    then show ?thesis using Suc.prems none by simp
  next
    case (Suc k)
    have "parse_seq item close n t = parse_seq item close k t"
      if "item s = Some (x, r)" "skip_ws r = c # t" for x r c t
      using consumesD [OF assms(1) that(1)] skip_ws_Cons [OF that(2)] Suc.prems \<open>m = Suc k\<close>
      by (intro Suc.IH) auto
    then show ?thesis using Suc by (auto split: option.splits list.splits)
  qed
qed

section \<open>Reading back what was written\<close>

fun json_of :: "any \<Rightarrow> json" where
  "json_of ANil = JNull"
| "json_of (ABool b) = JBool b"
| "json_of (ANum t) = JNum t"
| "json_of (AStr s) = JStr s"
| "json_of (AList xs) = JArr (map json_of xs)"
| "json_of (AMap m) = JObj (map (\<lambda>(k, v). (k, json_of v)) m)"
| "json_of (AOpaque t) = JNull"

text \<open>Lists and maps are nested at most \<open>d\<close> deep.\<close>

fun fits :: "nat \<Rightarrow> any \<Rightarrow> bool" where
  "fits (Suc d) (AList xs) = list_all (fits d) xs"
| "fits (Suc d) (AMap m) = list_all (\<lambda>(k, v). fits d v) m"
| "fits 0 (AList xs) = False"
| "fits 0 (AMap m) = False"
| "fits d _ = True"

lemma fits_mono: "fits d v \<Longrightarrow> d \<le> e \<Longrightarrow> fits e v"
proof (induction d v arbitrary: e rule: fits.induct)
  case (1 d xs)
  then obtain n where n: "e = Suc n" "d \<le> n" by (cases e) auto
  have "fits n x" if "x \<in> set xs" for x
    using "1.prems"(1) "1.IH" [OF that _ n(2)] that unfolding fits.simps list_all_iff by blast
  then show ?case using n(1) by (simp add: list_all_iff)
next
  case (2 d m)
  then obtain n where n: "e = Suc n" "d \<le> n" by (cases e) auto
  have "fits n (snd kv)" if "kv \<in> set m" for kv
    using "2.prems"(1) "2.IH" [OF that _ _ n(2), of "fst kv" "snd kv"] that
    unfolding fits.simps list_all_iff by (auto simp: case_prod_beta)
  then show ?case using n(1) by (simp add: list_all_iff case_prod_beta)
qed simp_all

lemma fits_max: "fits 4 v \<Longrightarrow> fits max_depth v"
  by (erule fits_mono) (simp add: max_depth_def)

lemma skip_ws_stop: "\<not> json_ws c \<Longrightarrow> skip_ws (c # r) = c # r"
  by (simp add: skip_ws_def)

lemma delims_not_ws [simp]: "\<not> json_ws (CHR '','')" "\<not> json_ws (CHR '']'')" "\<not> json_ws (CHR ''}'')"
  "\<not> json_ws dquote" "\<not> json_ws (CHR '':'')" "\<not> json_ws (CHR ''['')" "\<not> json_ws (CHR ''{'')"
  "\<not> json_ws (CHR ''n'')" "\<not> json_ws (CHR ''t'')" "\<not> json_ws (CHR ''f'')"
  by (simp_all add: json_ws_def)

lemma kind_not_ws: "kind_of_char c \<noteq> 6 \<Longrightarrow> \<not> json_ws c"
  by (auto simp: json_ws_def kind_of_char_def is_digit_def less_eq_char_def)

text \<open>A printed item is parsed by \<open>item\<close> in front of any delimiter.\<close>

definition reads :: "'b parser \<Rightarrow> ('a \<Rightarrow> string) \<Rightarrow> ('a \<Rightarrow> 'b) \<Rightarrow> 'a \<Rightarrow> bool" where
  "reads item e f x \<longleftrightarrow> (\<forall>r. delimited r \<longrightarrow> item (e x @ r) = Some (f x, r))"

lemma parse_seq_join:
  assumes cl: "cl \<in> set '']}''"
  shows "xs \<noteq> [] \<Longrightarrow> length xs \<le> n \<Longrightarrow> (\<And>x. x \<in> set xs \<Longrightarrow> reads item e f x) \<Longrightarrow>
    parse_seq item cl n (join '','' (map e xs) @ cl # r) = Some (map f xs, r)"
proof (induction xs arbitrary: n)
  case (Cons x xs)
  obtain m where n: "n = Suc m" using Cons.prems(2) by (cases n) auto
  have cl': "cl \<noteq> CHR '',''" "\<not> json_ws cl" using cl by auto
  have i: "item (e x @ join_rest e xs @ cl # r) = Some (f x, join_rest e xs @ cl # r)"
    using Cons.prems(3) [of x] delimited_rest [OF cl, of e xs r] by (simp add: reads_def)
  show ?case
  proof (cases "xs = []")
    case True
    then show ?thesis
      using i cl' unfolding n join_map_Cons by (simp add: join_rest_def skip_ws_stop)
  next
    case False
    then have "parse_seq item cl m (join '','' (map e xs) @ cl # r) = Some (map f xs, r)"
      using Cons n by simp
    then show ?thesis
      using i False unfolding n join_map_Cons by (simp add: join_rest_def skip_ws_stop)
  qed
qed simp

lemma length_join_items:
  assumes "\<And>x. x \<in> set xs \<Longrightarrow> e x \<noteq> []"
  shows "length xs \<le> length (join '','' (map e xs))"
  using assms
proof (induction xs)
  case (Cons x xs)
  then have "length xs \<le> length (join_rest e xs)" by (auto simp: join_rest_def intro: le_SucI)
  moreover have "1 \<le> length (e x)" using Cons.prems [of x] by (cases "e x") auto
  ultimately show ?case unfolding join_map_Cons by simp
qed simp

lemma parse_list_join:
  assumes "cl \<in> set '']}''" and "\<And>x. x \<in> set xs \<Longrightarrow> reads item e f x"
    and "\<And>x. x \<in> set xs \<Longrightarrow> e x \<noteq> [] \<and> \<not> json_ws (hd (e x)) \<and> hd (e x) \<noteq> cl"
  shows "parse_list item cl (join '','' (map e xs) @ cl # r) = Some (map f xs, r)"
proof (cases xs)
  case Nil
  then show ?thesis using assms(1) by (auto simp: parse_list_def skip_ws_stop)
next
  case (Cons x ys)
  then obtain c t where c: "e x = c # t" "\<not> json_ws c" "c \<noteq> cl"
    using assms(3) [of x] by (cases "e x") auto
  let ?s = "join '','' (map e xs) @ cl # r"
  have "?s = c # t @ join_rest e ys @ cl # r" unfolding Cons join_map_Cons using c by simp
  then have "skip_ws ?s = c # t @ join_rest e ys @ cl # r" using c by (simp add: skip_ws_stop)
  moreover have "length xs \<le> length ?s" using length_join_items [of xs e] assms(3) by simp
  ultimately show ?thesis
    using c Cons parse_seq_join [OF assms(1), of xs "length ?s" item e f r] assms(2)
    by (simp add: parse_list_def)
qed

lemma reads_member:
  assumes "reads val json_text f (snd kv)"
  shows "reads (parse_member val) json_pair (\<lambda>(k, v). (k, f v)) kv"
proof (cases kv)
  case (Pair k v)
  then show ?thesis
    using assms
    by (simp add: reads_def json_pair_def json_string_def parse_member_def skip_ws_stop
        json_unquote_escape)
qed

lemma strip_prefix_append [simp]: "strip_prefix p (p @ r) = Some r"
  by (simp add: strip_prefix_def)

lemma parse_with_scalar:
  assumes "kind_of_char c < 4"
  shows "parse_with inner (c # s) = parse_scalar (c # s)"
proof -
  have "c \<noteq> CHR ''[''" "c \<noteq> CHR ''{''" using assms by (auto simp: kind_of_char_def)
  then show ?thesis using assms kind_not_ws [of c] by (simp add: parse_with_def skip_ws_stop)
qed

lemma parse_scalar_literal:
  "parse_scalar (''null'' @ r) = Some (JNull, r)"
  "parse_scalar (''true'' @ r) = Some (JBool True, r)"
  "parse_scalar (''false'' @ r) = Some (JBool False, r)"
  by (simp_all add: parse_scalar_def strip_prefix_def)

lemma parse_scalar_text:
  assumes "wf_nums v" and "kind_of v < 4" and "delimited r"
  shows "parse_scalar (json_text v @ r) = Some (json_of v, r)"
proof (cases v)
  case (ANum t)
  then have t: "num_text t" using assms by simp
  then obtain c u where c: "t = c # u" "kind_of_char c = 2"
    using num_text_hd kind_of_char_num by (cases t) fastforce+
  then have "c \<noteq> dquote" "c \<noteq> CHR ''n''" "c \<noteq> CHR ''t''" "c \<noteq> CHR ''f''"
    by (auto simp: kind_of_char_def)
  then show ?thesis
    using ANum c num_text_append [OF t delimited_num_end [OF assms(3)]] by (simp add: parse_scalar_def)
next
  case (AStr s)
  then show ?thesis by (simp add: parse_scalar_def json_string_def json_unquote_escape)
qed (use assms parse_scalar_literal in auto)

lemma reads_scalar:
  assumes "wf_nums v" and "jsonable v" and "kind_of v < 4"
  shows "reads (parse_value d) json_text json_of v"
proof -
  obtain c t where c: "json_text v = c # t" "kind_of_char c = kind_of v"
    using json_text_kind [OF assms(1,2)] by (cases "json_text v") auto
  have "parse_value d (c # t @ r) = parse_scalar (c # t @ r)" for r
    using c assms(3) by (cases d) (simp_all add: parse_with_scalar)
  then show ?thesis
    using parse_scalar_text [OF assms(1,3)] c(1) by (simp add: reads_def)
qed

lemma parse_value_text:
  "wf_nums v \<Longrightarrow> jsonable v \<Longrightarrow> fits d v \<Longrightarrow> reads (parse_value d) json_text json_of v"
proof (induction v arbitrary: d rule: any_induct)
  case (List xs)
  then obtain e where d: "d = Suc e" by (cases d) auto
  have "parse_list (parse_value e) (CHR '']'') (join '','' (map json_text xs) @ CHR '']'' # r)
      = Some (map json_of xs, r)" for r
  proof (rule parse_list_join)
    fix x assume x: "x \<in> set xs"
    then have wf: "wf_nums x" "jsonable x" "fits e x" using List.prems d by (auto simp: list_all_iff)
    then show "reads (parse_value e) json_text json_of x" using List.IH x by blast
    show "json_text x \<noteq> [] \<and> \<not> json_ws (hd (json_text x)) \<and> hd (json_text x) \<noteq> CHR '']''"
      using json_text_kind [OF wf(1,2)] json_text_starts [OF wf(1,2)] wf(2) kind_not_ws
      by (cases x) (auto simp: starts_def)
  qed simp
  then show ?case using d by (simp add: reads_def parse_with_def skip_ws_stop)
next
  case (Map m)
  then obtain e where d: "d = Suc e" by (cases d) auto
  have "parse_list (parse_member (parse_value e)) (CHR ''}'') (join '','' (map json_pair m) @ CHR ''}'' # r)
      = Some (map (\<lambda>(k, v). (k, json_of v)) m, r)" for r
  proof (rule parse_list_join)
    fix kv assume kv: "kv \<in> set m"
    then have "wf_nums (snd kv)" "jsonable (snd kv)" "fits e (snd kv)"
      using Map.prems d by (auto simp: list_all_iff)
    then show "reads (parse_member (parse_value e)) json_pair (\<lambda>(k, v). (k, json_of v)) kv"
      using Map.IH [of "fst kv" "snd kv"] kv by (intro reads_member) simp
    show "json_pair kv \<noteq> [] \<and> \<not> json_ws (hd (json_pair kv)) \<and> hd (json_pair kv) \<noteq> CHR ''}''"
      by (simp add: json_pair_def json_string_def)
  qed simp
  then show ?case
    using d unfolding reads_def json_text_map by (simp add: parse_with_def skip_ws_stop)
qed (simp_all add: reads_scalar)

theorem parse_json_text:
  assumes "wf_nums v" and "jsonable v" and "fits max_depth v"
  shows "parse_json (json_text v) = Some (json_of v)"
proof -
  have "parse_value max_depth (json_text v @ []) = Some (json_of v, [])"
    using parse_value_text [OF assms] unfolding reads_def by (blast intro: delimited_simps)
  then show ?thesis by (simp add: parse_json_def skip_ws_def)
qed

section \<open>Decoding into \<^verbatim>\<open>any\<close>\<close>

text \<open>
  A number becomes a \<^verbatim>\<open>float64\<close>, represented by the text that prints it; \<open>canon\<close> is
  \<^verbatim>\<open>strconv.ParseFloat\<close> followed by \<^verbatim>\<open>Marshal\<close>, with None for a number out of range. Of members with
  the same name the last one counts.
\<close>

lemma size_json_map [termination_simp]:
  "(k, v) \<in> set m \<Longrightarrow> size v < Suc (size_list (size_prod (\<lambda>x. 0) size) m)"
  by (induction m) auto

definition put_all :: "(string \<times> 'v) list \<Rightarrow> (string \<times> 'v) list" where
  "put_all ms = foldl (\<lambda>m (k, v). set_key k v m) [] ms"

fun to_any :: "(string \<Rightarrow> string option) \<Rightarrow> json \<Rightarrow> any option" where
  "to_any canon JNull = Some ANil"
| "to_any canon (JBool b) = Some (ABool b)"
| "to_any canon (JNum t) = map_option ANum (canon t)"
| "to_any canon (JStr s) = Some (AStr s)"
| "to_any canon (JArr xs) = map_option AList (those (map (to_any canon) xs))"
| "to_any canon (JObj ms) =
     map_option (\<lambda>kvs. AMap (put_all kvs))
       (those (map (\<lambda>(k, v). map_option (Pair k) (to_any canon v)) ms))"

text \<open>\<^verbatim>\<open>Unmarshal\<close> into a \<^verbatim>\<open>map[string]any\<close>: \<^verbatim>\<open>null\<close> leaves the map nil, another scalar is refused.\<close>

definition Unmarshal_map :: "(string \<Rightarrow> string option) \<Rightarrow> string \<Rightarrow> (string \<times> any) list option" where
  "Unmarshal_map canon s =
     (case parse_json s of
        Some JNull \<Rightarrow> Some []
      | Some (JObj ms) \<Rightarrow> map_option put_all (those (map (\<lambda>(k, v). map_option (Pair k) (to_any canon v)) ms))
      | _ \<Rightarrow> None)"

text \<open>The numbers of a value are printed the way \<open>canon\<close> prints them.\<close>

fun canonical :: "(string \<Rightarrow> string option) \<Rightarrow> any \<Rightarrow> bool" where
  "canonical canon (ANum t) = (canon t = Some t)"
| "canonical canon (AList xs) = list_all (canonical canon) xs"
| "canonical canon (AMap m) = list_all (\<lambda>(k, v). canonical canon v) m"
| "canonical canon _ = True"

lemma those_Some: "(\<And>x. x \<in> set xs \<Longrightarrow> f x = Some (g x)) \<Longrightarrow> those (map f xs) = Some (map g xs)"
  by (induction xs) auto

lemma put_all_foldl:
  "wf_keys m \<Longrightarrow> wf_keys (foldl (\<lambda>m (k, v). set_key k v m) m ms) \<and>
     map_of (foldl (\<lambda>m (k, v). set_key k v m) m ms) = map_of m ++ map_of (rev ms)"
  by (induction ms arbitrary: m) (auto simp: wf_keys_set_key map_add_def fun_eq_iff split: option.splits)

lemma wf_keys_put_all [wf_intros]: "wf_keys (put_all ms)"
  using put_all_foldl [of "[]" ms] by (simp add: put_all_def)

lemma map_of_put_all: "map_of (put_all ms) = map_of (rev ms)"
  using put_all_foldl [of "[]" ms] by (simp add: put_all_def)

lemma put_all_id:
  assumes "wf_keys m"
  shows "put_all m = m"
proof (rule wf_keys_ext)
  have "map_of (rev m) = map_of m"
    using wf_keys_distinct [OF assms] by (intro map_of_inject_set [THEN iffD2]) (simp_all add: rev_map [symmetric])
  then show "map_of (put_all m) = map_of m" by (simp add: map_of_put_all)
qed (simp_all add: assms wf_keys_put_all)

lemma to_any_json_of:
  "wf_any v \<Longrightarrow> jsonable v \<Longrightarrow> canonical canon v \<Longrightarrow> to_any canon (json_of v) = Some v"
proof (induction v rule: any_induct)
  case (List xs)
  have "those (map (\<lambda>x. to_any canon (json_of x)) xs) = Some (map (\<lambda>x. x) xs)"
    using List by (intro those_Some) (auto simp: list_all_iff)
  then show ?case by (simp add: comp_def)
next
  case (Map m)
  have "those (map (\<lambda>kv. map_option (Pair (fst kv)) (to_any canon (json_of (snd kv)))) m)
      = Some (map (\<lambda>kv. kv) m)"
    using Map by (intro those_Some) (auto simp: list_all_iff, fastforce)
  then show ?case using Map.prems by (simp add: comp_def case_prod_beta put_all_id)
qed simp_all

text \<open>A map that \<^const>\<open>Marshal\<close> accepts survives the round trip.\<close>

lemma Unmarshal_Marshal:
  assumes "wf_map m" and "jsonable (AMap m)" and "canonical canon (AMap m)" and "fits max_depth (AMap m)"
  shows "Unmarshal_map canon (json_text (AMap m)) = Some m"
proof -
  have "to_any canon (json_of (AMap m)) = Some (AMap m)"
    using assms by (intro to_any_json_of) (simp_all add: wf_map_def)
  moreover have "parse_json (json_text (AMap m)) = Some (json_of (AMap m))"
    using assms by (intro parse_json_text wf_any_nums) (simp_all add: wf_map_def)
  ultimately show ?thesis by (auto simp: Unmarshal_map_def)
qed

section \<open>Decoding into a struct\<close>

text \<open>
  A struct is described by its fields in order: the name of each and what decoding a value into it
  does. \<^verbatim>\<open>null\<close> leaves a field as it is, a value of another type is an error. Member names are
  looked up exactly first and then up to case; unknown ones are ignored. An error decides the
  result, so decoding stops there.
\<close>

type_synonym 'a fields = "(string \<times> (json \<Rightarrow> 'a \<Rightarrow> 'a option)) list"

definition upper_char :: "char \<Rightarrow> char" where
  "upper_char c = (if CHR ''a'' \<le> c \<and> c \<le> CHR ''z'' then char_of (of_char c - 32 :: int) else c)"

text \<open>\<^verbatim>\<open>foldName\<close>: besides the ASCII letters, the long s and the Kelvin sign fold to ASCII.\<close>

fun fold_name :: "string \<Rightarrow> string" where
  "fold_name [] = []"
| "fold_name [a] = [upper_char a]"
| "fold_name [a, b] =
     (if a = CHR 0xC5 \<and> b = CHR 0xBF then ''S'' else upper_char a # fold_name [b])"
| "fold_name (a # b # c # r) =
     (if a = CHR 0xC5 \<and> b = CHR 0xBF then CHR ''S'' # fold_name (c # r)
      else if a = CHR 0xE2 \<and> b = CHR 0x84 \<and> c = CHR 0xAA then CHR ''K'' # fold_name r
      else upper_char a # fold_name (b # c # r))"

declare fold_name.simps [simp del]

definition find_field :: "'a fields \<Rightarrow> string \<Rightarrow> (json \<Rightarrow> 'a \<Rightarrow> 'a option) option" where
  "find_field fs k =
     (case map_of fs k of
        Some d \<Rightarrow> Some d
      | None \<Rightarrow> map_of (map (\<lambda>(n, d). (fold_name n, d)) fs) (fold_name k))"

primrec decode_members :: "'a fields \<Rightarrow> (string \<times> json) list \<Rightarrow> 'a \<Rightarrow> 'a option" where
  "decode_members fs [] x = Some x"
| "decode_members fs (m # ms) x =
     (case find_field fs (fst m) of
        None \<Rightarrow> decode_members fs ms x
      | Some d \<Rightarrow> (case d (snd m) x of None \<Rightarrow> None | Some y \<Rightarrow> decode_members fs ms y))"

definition decode_struct :: "'a fields \<Rightarrow> json \<Rightarrow> 'a \<Rightarrow> 'a option" where
  "decode_struct fs j x =
     (case j of JNull \<Rightarrow> Some x | JObj ms \<Rightarrow> decode_members fs ms x | _ \<Rightarrow> None)"

text \<open>\<^verbatim>\<open>json.Unmarshal\<close> into a struct that holds \<open>x\<close>.\<close>

definition Unmarshal_struct :: "'a fields \<Rightarrow> 'a \<Rightarrow> string \<Rightarrow> 'a option" where
  "Unmarshal_struct fs x s = (case parse_json s of None \<Rightarrow> None | Some j \<Rightarrow> decode_struct fs j x)"

text \<open>The kinds of field the program has.\<close>

definition string_field :: "(string \<Rightarrow> 'a \<Rightarrow> 'a) \<Rightarrow> json \<Rightarrow> 'a \<Rightarrow> 'a option" where
  "string_field put j x = (case j of JStr s \<Rightarrow> Some (put s x) | JNull \<Rightarrow> Some x | _ \<Rightarrow> None)"

definition bool_field :: "(bool \<Rightarrow> 'a \<Rightarrow> 'a) \<Rightarrow> json \<Rightarrow> 'a \<Rightarrow> 'a option" where
  "bool_field put j x = (case j of JBool b \<Rightarrow> Some (put b x) | JNull \<Rightarrow> Some x | _ \<Rightarrow> None)"

text \<open>An integer of 64 bits: a literal with a fraction or an exponent is refused.\<close>

definition int_field :: "(int \<Rightarrow> 'a \<Rightarrow> 'a) \<Rightarrow> json \<Rightarrow> 'a \<Rightarrow> 'a option" where
  "int_field put j x =
     (case j of
        JNum t \<Rightarrow> (case Atoi t of None \<Rightarrow> None | Some i \<Rightarrow> Some (put i x))
      | JNull \<Rightarrow> Some x
      | _ \<Rightarrow> None)"

text \<open>
  A slice of strings; \<^verbatim>\<open>null\<close> makes it nil. A \<^verbatim>\<open>null\<close> element is the empty string (when a member is
  repeated the library keeps what an earlier one left there; that is not modelled).
\<close>

definition string_of_json :: "json \<Rightarrow> string option" where
  "string_of_json j = (case j of JStr s \<Rightarrow> Some s | JNull \<Rightarrow> Some [] | _ \<Rightarrow> None)"

definition strings_field :: "(string list \<Rightarrow> 'a \<Rightarrow> 'a) \<Rightarrow> json \<Rightarrow> 'a \<Rightarrow> 'a option" where
  "strings_field put j x =
     (case j of
        JArr xs \<Rightarrow> map_option (\<lambda>ss. put ss x) (those (map string_of_json xs))
      | JNull \<Rightarrow> Some (put [] x)
      | _ \<Rightarrow> None)"

text \<open>A nested struct, decoded on top of what the field holds.\<close>

definition struct_field :: "'b fields \<Rightarrow> ('a \<Rightarrow> 'b) \<Rightarrow> ('b \<Rightarrow> 'a \<Rightarrow> 'a) \<Rightarrow> json \<Rightarrow> 'a \<Rightarrow> 'a option" where
  "struct_field fs get put j x = map_option (\<lambda>y. put y x) (decode_struct fs j (get x))"

text \<open>A slice of structs; a \<^verbatim>\<open>null\<close> element is the zero value.\<close>

definition structs_of_json :: "'b fields \<Rightarrow> 'b \<Rightarrow> json \<Rightarrow> 'b list option" where
  "structs_of_json fs zero j =
     (case j of JArr xs \<Rightarrow> those (map (\<lambda>x. decode_struct fs x zero) xs) | JNull \<Rightarrow> Some [] | _ \<Rightarrow> None)"

definition structs_field :: "'b fields \<Rightarrow> 'b \<Rightarrow> ('b list \<Rightarrow> 'a \<Rightarrow> 'a) \<Rightarrow> json \<Rightarrow> 'a \<Rightarrow> 'a option" where
  "structs_field fs zero put j x = map_option (\<lambda>ys. put ys x) (structs_of_json fs zero j)"

definition Unmarshal_structs :: "'b fields \<Rightarrow> 'b \<Rightarrow> string \<Rightarrow> 'b list option" where
  "Unmarshal_structs fs zero s = (case parse_json s of None \<Rightarrow> None | Some j \<Rightarrow> structs_of_json fs zero j)"

lemma field_simps [simp]:
  "string_field put (JStr s) x = Some (put s x)" "string_field put JNull x = Some x"
  "bool_field put' (JBool b) x = Some (put' b x)" "int_field put'' JNull x = Some x"
  "strings_field puts JNull x = Some (puts [] x)"
  by (simp_all add: string_field_def bool_field_def int_field_def strings_field_def)

lemma strings_of_json: "those (map (\<lambda>s. string_of_json (JStr s)) ss) = Some ss"
  using those_Some [of ss "\<lambda>s. string_of_json (JStr s)" "\<lambda>s. s"] by (simp add: string_of_json_def)

lemma parse_json_Nil: "parse_json [] = None"
proof -
  have "parse_with inner [] = None" for inner by (simp add: parse_with_def skip_ws_def)
  then have "parse_value d [] = None" for d by (cases d) simp_all
  then show ?thesis by (simp add: parse_json_def)
qed

text \<open>A text that does not start like a JSON value is not JSON.\<close>

lemma parse_json_start:
  assumes "parse_json (c # s) = Some j" and "\<not> json_ws c"
  shows "kind_of_char c \<noteq> 6"
proof
  assume "kind_of_char c = 6"
  then have no: "\<not> (is_digit c \<or> c = CHR ''-'')" "c \<noteq> CHR ''[''" "c \<noteq> CHR ''{''" "c \<noteq> dquote"
      "c \<noteq> CHR ''n''" "c \<noteq> CHR ''t''" "c \<noteq> CHR ''f''"
    by (auto simp: kind_of_char_def split: if_splits)
  have "lex_num (c # s) = None"
    using lex_num_hd [of "c # s"] no by (cases "lex_num (c # s)") auto
  then have "parse_with inner (c # s) = None" for inner
    using no assms(2) by (simp add: parse_with_def skip_ws_stop parse_scalar_def)
  then have "parse_value d (c # s) = None" for d by (cases d) simp_all
  then show False using assms(1) by (simp add: parse_json_def)
qed

text \<open>What is parsed within a nesting limit is parsed the same way under a wider one.\<close>

definition extends :: "'a parser \<Rightarrow> 'a parser \<Rightarrow> bool" where
  "extends p q \<longleftrightarrow> (\<forall>s x. p s = Some x \<longrightarrow> q s = Some x)"

lemma parse_seq_extends: "extends p q \<Longrightarrow> extends (parse_seq p cl n) (parse_seq q cl n)"
proof (induction n)
  case (Suc n)
  then show ?case unfolding extends_def by (fastforce split: option.splits list.splits if_splits)
qed (simp add: extends_def)

lemma parse_list_extends: "extends p q \<Longrightarrow> extends (parse_list p cl) (parse_list q cl)"
  using parse_seq_extends [of p q cl] unfolding extends_def parse_list_def
  by (auto split: list.splits)

lemma parse_member_extends: "extends p q \<Longrightarrow> extends (parse_member p) (parse_member q)"
  unfolding extends_def parse_member_def by (fastforce split: list.splits option.splits if_splits)

lemma parse_with_extends:
  "extends p q \<Longrightarrow> extends (parse_with (Some p)) (parse_with (Some q))"
  using parse_list_extends [of p q "CHR '']''"]
    parse_list_extends [OF parse_member_extends, of p q "CHR ''}''"]
  unfolding extends_def parse_with_def by (fastforce split: list.splits if_splits)

lemma parse_with_None: "extends (parse_with None) (parse_with q)"
  unfolding extends_def parse_with_def by (auto split: list.splits if_splits)

lemma parse_value_extends: "d \<le> e \<Longrightarrow> extends (parse_value d) (parse_value e)"
proof (induction d arbitrary: e)
  case 0
  show ?case by (cases e) (simp_all add: parse_with_None)
next
  case (Suc d)
  then obtain k where "e = Suc k" "d \<le> k" by (cases e) auto
  then show ?case using Suc.IH by (simp add: parse_with_extends)
qed

lemma parse_json_eval:
  assumes "parse_value 4 s = Some (v, r)" and "skip_ws r = []"
  shows "parse_json s = Some v"
  using assms parse_value_extends [of 4 max_depth] by (simp add: extends_def parse_json_def max_depth_def)

end
