(* ===== verification/Config.thy ===== *)
theory Config
  imports Go_Json
begin

text \<open>
  Project configuration: the types of \<^verbatim>\<open>pkg/thuleconfig/types.go\<close> and the loader of
  \<^verbatim>\<open>internal/config/loader.go\<close>, with its hand-written reader for a subset of YAML.

  A file that is a JSON document is decoded into the struct; any other text is read as YAML.
  \<^verbatim>\<open>os.ReadFile\<close> is an argument of the definition that uses it.
\<close>

section \<open>Types\<close>

record Helm =
  ReleaseName :: string
  ValuesFiles :: "string list"

record Flux =
  IncludeKinds :: "string list"

record RenderConf =
  Mode :: string
  Path :: string
  RenderHelm :: Helm
  RenderFlux :: Flux

record DiffConf =
  Prune :: bool
  IgnoreFields :: "string list"

record PolicyConf =
  Profile :: string

record CommentConf =
  MaxResourceDetails :: int

record Config =
  Version :: string
  ConfProject :: string
  ClusterRef :: string
  ConfNamespace :: string
  ConfRender :: RenderConf
  ConfDiff :: DiffConf
  ConfPolicy :: PolicyConf
  ConfComment :: CommentConf

text \<open>The zero value \<^verbatim>\<open>thuleconfig.Config{}\<close>.\<close>

definition empty_config :: Config where
  "empty_config =
     \<lparr>Version = [], ConfProject = [], ClusterRef = [], ConfNamespace = [],
      ConfRender = \<lparr>Mode = [], Path = [],
        RenderHelm = \<lparr>ReleaseName = [], ValuesFiles = []\<rparr>, RenderFlux = \<lparr>IncludeKinds = []\<rparr>\<rparr>,
      ConfDiff = \<lparr>Prune = False, IgnoreFields = []\<rparr>,
      ConfPolicy = \<lparr>Profile = []\<rparr>,
      ConfComment = \<lparr>MaxResourceDetails = 0\<rparr>\<rparr>"

section \<open>The YAML subset\<close>

text \<open>What the loop over the lines carries: the configuration so far and the current section.\<close>

record YState =
  cfg :: Config
  cur_section :: string
  cur_subsection :: string

definition quotes :: string where
  "quotes = [dquote, squote]"

definition add_item :: "string \<Rightarrow> YState \<Rightarrow> YState" where
  "add_item item st =
     (let sec = cur_section st @ ''.'' @ cur_subsection st in
      if sec = ''diff.ignoreFields'' then
        st\<lparr>cfg := (cfg st)\<lparr>ConfDiff := (ConfDiff (cfg st))
          \<lparr>IgnoreFields := IgnoreFields (ConfDiff (cfg st)) @ [item]\<rparr>\<rparr>\<rparr>
      else if sec = ''render.helm.valuesFiles'' then
        st\<lparr>cfg := (cfg st)\<lparr>ConfRender := (ConfRender (cfg st))
          \<lparr>RenderHelm := (RenderHelm (ConfRender (cfg st)))
            \<lparr>ValuesFiles := ValuesFiles (RenderHelm (ConfRender (cfg st))) @ [item]\<rparr>\<rparr>\<rparr>\<rparr>
      else if sec = ''render.flux.includeKinds'' then
        st\<lparr>cfg := (cfg st)\<lparr>ConfRender := (ConfRender (cfg st))
          \<lparr>RenderFlux := (RenderFlux (ConfRender (cfg st)))
            \<lparr>IncludeKinds := IncludeKinds (RenderFlux (ConfRender (cfg st))) @ [item]\<rparr>\<rparr>\<rparr>\<rparr>
      else st)"

definition open_section :: "nat \<Rightarrow> string \<Rightarrow> YState \<Rightarrow> YState" where
  "open_section indent key st =
     (if indent = 0 then st\<lparr>cur_section := key, cur_subsection := []\<rparr>
      else if indent = 2 then st\<lparr>cur_subsection := key\<rparr>
      else st)"

definition set_scalar :: "string \<Rightarrow> string \<Rightarrow> string \<Rightarrow> string \<Rightarrow> Config \<Rightarrow> Config" where
  "set_scalar sec sub k v c =
     (if sec = [] then
        (if k = ''version'' then c\<lparr>Version := v\<rparr>
         else if k = ''project'' then c\<lparr>ConfProject := v\<rparr>
         else if k = ''clusterRef'' then c\<lparr>ClusterRef := v\<rparr>
         else if k = ''namespace'' then c\<lparr>ConfNamespace := v\<rparr>
         else c)
      else if sec = ''render'' then
        (if sub = [] then
           (if k = ''mode'' then c\<lparr>ConfRender := (ConfRender c)\<lparr>Mode := v\<rparr>\<rparr>
            else if k = ''path'' then c\<lparr>ConfRender := (ConfRender c)\<lparr>Path := v\<rparr>\<rparr>
            else c)
         else if sub = ''helm'' then
           (if k = ''releaseName'' then
              c\<lparr>ConfRender := (ConfRender c)
                \<lparr>RenderHelm := (RenderHelm (ConfRender c))\<lparr>ReleaseName := v\<rparr>\<rparr>\<rparr>
            else c)
         else c)
      else if sec = ''diff'' then
        (if k = ''prune'' then c\<lparr>ConfDiff := (ConfDiff c)\<lparr>Prune := (v = ''true'')\<rparr>\<rparr> else c)
      else if sec = ''comment'' then
        (if k = ''maxResourceDetails'' then
           (case Atoi v of
              Some iv \<Rightarrow> c\<lparr>ConfComment := (ConfComment c)\<lparr>MaxResourceDetails := iv\<rparr>\<rparr>
            | None \<Rightarrow> c)
         else c)
      else c)"

definition decode_line :: "string \<Rightarrow> YState \<Rightarrow> YState" where
  "decode_line raw st =
     (let line = TrimSpace raw;
          indent = length raw - length (TrimLeft raw '' '')
      in if line = [] \<or> HasPrefix line ''#'' then st
         else if HasPrefix line ''- '' then
           add_item (Trim (TrimSpace (TrimPrefix line ''- '')) quotes) st
         else if HasSuffix line '':'' then open_section indent (TrimSuffix line '':'') st
         else (case split2 (CHR '':'') line of
                 None \<Rightarrow> st
               | Some (a, b) \<Rightarrow>
                   st\<lparr>cfg := set_scalar (cur_section st) (cur_subsection st)
                                (TrimSpace a) (Trim (TrimSpace b) quotes) (cfg st)\<rparr>))"

definition start_state :: YState where
  "start_state = \<lparr>cfg = empty_config, cur_section = [], cur_subsection = []\<rparr>"

definition decode_lines :: "string list \<Rightarrow> YState \<Rightarrow> YState" where
  "decode_lines ls st = foldl (\<lambda>st raw. decode_line raw st) st ls"

definition decodeSimpleYAML :: "string \<Rightarrow> Config result" where
  "decodeSimpleYAML inp =
     (let c = cfg (decode_lines (split_on nl inp) start_state)
      in if Version c = [] \<and> ConfProject c = [] \<and> ClusterRef c = [] \<and> ConfNamespace c = [] \<and>
            Mode (ConfRender c) = [] \<and> Path (ConfRender c) = []
         then Inl ''invalid YAML/JSON config payload''
         else Inr c)"

section \<open>Loading\<close>

text \<open>\<^verbatim>\<open>%q\<close> on a string whose non-ASCII runes are printable.\<close>

definition quote_char :: "char \<Rightarrow> string" where
  "quote_char c =
     (if c = dquote \<or> c = backslash then [backslash, c]
      else if c = CHR 0x07 then [backslash, CHR ''a'']
      else if c = CHR 0x08 then [backslash, CHR ''b'']
      else if c = CHR 0x0C then [backslash, CHR ''f'']
      else if c = nl then [backslash, CHR ''n'']
      else if c = CHR 0x0D then [backslash, CHR ''r'']
      else if c = CHR 0x09 then [backslash, CHR ''t'']
      else if c = CHR 0x0B then [backslash, CHR ''v'']
      else if c < CHR 0x20 \<or> c = CHR 0x7F then
        [backslash, CHR ''x'', hex_digit (of_char c div 16), hex_digit (of_char c mod 16)]
      else [c])"

definition quoted :: "string \<Rightarrow> string" where
  "quoted s = dquote # concat (map quote_char s) @ [dquote]"

definition render_modes :: "string list" where
  "render_modes = [''yaml'', ''kustomize'', ''helm'', ''flux'']"

definition Validate :: "Config \<Rightarrow> unit result" where
  "Validate c =
     (if Version c = [] \<or> ConfProject c = [] \<or> ClusterRef c = [] \<or> ConfNamespace c = [] then
        Inl ''missing required top-level fields: version, project, clusterRef, namespace''
      else if Mode (ConfRender c) \<notin> set render_modes then
        Inl (''unsupported render.mode '' @ quoted (Mode (ConfRender c)))
      else if Path (ConfRender c) = [] then Inl ''render.path is required''
      else Inr ())"

text \<open>\<^verbatim>\<open>json.Unmarshal\<close> into a configuration, by the tags of its fields.\<close>

definition helm_fields :: "Helm fields" where
  "helm_fields =
     [(''releaseName'', string_field (\<lambda>v h. h\<lparr>ReleaseName := v\<rparr>)),
      (''valuesFiles'', strings_field (\<lambda>v h. h\<lparr>ValuesFiles := v\<rparr>))]"

definition flux_fields :: "Flux fields" where
  "flux_fields = [(''includeKinds'', strings_field (\<lambda>v f. f\<lparr>IncludeKinds := v\<rparr>))]"

definition render_fields :: "RenderConf fields" where
  "render_fields =
     [(''mode'', string_field (\<lambda>v r. r\<lparr>Mode := v\<rparr>)),
      (''path'', string_field (\<lambda>v r. r\<lparr>Path := v\<rparr>)),
      (''helm'', struct_field helm_fields RenderHelm (\<lambda>v r. r\<lparr>RenderHelm := v\<rparr>)),
      (''flux'', struct_field flux_fields RenderFlux (\<lambda>v r. r\<lparr>RenderFlux := v\<rparr>))]"

definition diff_fields :: "DiffConf fields" where
  "diff_fields =
     [(''prune'', bool_field (\<lambda>v d. d\<lparr>Prune := v\<rparr>)),
      (''ignoreFields'', strings_field (\<lambda>v d. d\<lparr>IgnoreFields := v\<rparr>))]"

definition policy_fields :: "PolicyConf fields" where
  "policy_fields = [(''profile'', string_field (\<lambda>v p. p\<lparr>Profile := v\<rparr>))]"

definition comment_fields :: "CommentConf fields" where
  "comment_fields = [(''maxResourceDetails'', int_field (\<lambda>v c. c\<lparr>MaxResourceDetails := v\<rparr>))]"

definition config_fields :: "Config fields" where
  "config_fields =
     [(''version'', string_field (\<lambda>v c. c\<lparr>Version := v\<rparr>)),
      (''project'', string_field (\<lambda>v c. c\<lparr>ConfProject := v\<rparr>)),
      (''clusterRef'', string_field (\<lambda>v c. c\<lparr>ClusterRef := v\<rparr>)),
      (''namespace'', string_field (\<lambda>v c. c\<lparr>ConfNamespace := v\<rparr>)),
      (''render'', struct_field render_fields ConfRender (\<lambda>v c. c\<lparr>ConfRender := v\<rparr>)),
      (''diff'', struct_field diff_fields ConfDiff (\<lambda>v c. c\<lparr>ConfDiff := v\<rparr>)),
      (''policy'', struct_field policy_fields ConfPolicy (\<lambda>v c. c\<lparr>ConfPolicy := v\<rparr>)),
      (''comment'', struct_field comment_fields ConfComment (\<lambda>v c. c\<lparr>ConfComment := v\<rparr>))]"

definition unmarshal_config :: "string \<Rightarrow> Config option" where
  "unmarshal_config content = Unmarshal_struct config_fields empty_config content"

definition Decode :: "string \<Rightarrow> Config result" where
  "Decode content =
     (case unmarshal_config content of
        Some c \<Rightarrow> Inr c
      | None \<Rightarrow> decodeSimpleYAML content)"

definition ValidateBytes :: "string \<Rightarrow> unit result" where
  "ValidateBytes content =
     (case Decode content of Inl e \<Rightarrow> Inl e | Inr c \<Rightarrow> Validate c)"

text \<open>\<open>read\<close> is \<^verbatim>\<open>os.ReadFile\<close>.\<close>

definition Load :: "(string \<Rightarrow> string result) \<Rightarrow> string \<Rightarrow> Config result" where
  "Load read path =
     (case read path of
        Inl e \<Rightarrow> Inl (''read config: '' @ e)
      | Inr content \<Rightarrow>
          (case Decode content of
             Inl e \<Rightarrow> Inl e
           | Inr c \<Rightarrow> (case Validate c of Inl e \<Rightarrow> Inl e | Inr _ \<Rightarrow> Inr c)))"

section \<open>What a loaded configuration satisfies\<close>

definition valid_config :: "Config \<Rightarrow> bool" where
  "valid_config c \<longleftrightarrow>
     Version c \<noteq> [] \<and> ConfProject c \<noteq> [] \<and> ClusterRef c \<noteq> [] \<and> ConfNamespace c \<noteq> [] \<and>
     Mode (ConfRender c) \<in> set render_modes \<and> Path (ConfRender c) \<noteq> []"

lemma Validate_iff: "Validate c = Inr u \<longleftrightarrow> valid_config c"
  by (auto simp: Validate_def valid_config_def)

lemma Load_cases:
  "Load read path = Inr c \<longleftrightarrow>
     (\<exists>content. read path = Inr content \<and> Decode content = Inr c \<and> valid_config c)"
  by (auto simp: Load_def Validate_def valid_config_def split: sum.splits if_splits)

lemma Load_valid: "Load read path = Inr c \<Longrightarrow> valid_config c"
  by (auto simp: Load_cases)

section \<open>The policy profile is out of reach\<close>

lemma decode_line_profile: "ConfPolicy (cfg (decode_line raw st)) = ConfPolicy (cfg st)"
  by (simp add: decode_line_def add_item_def open_section_def set_scalar_def Let_def
      split: option.split)

lemma decode_lines_profile: "ConfPolicy (cfg (decode_lines ls st)) = ConfPolicy (cfg st)"
  by (induction ls arbitrary: st) (simp_all add: decode_lines_def decode_line_profile)

section \<open>One line at a time\<close>

definition plain_char :: "char \<Rightarrow> bool" where
  "plain_char c \<longleftrightarrow> CHR ''!'' \<le> c \<and> c \<le> CHR ''~''"

lemma trim_by_stop:
  assumes "\<not> ascii_space a" and "\<And>b. \<not> s2 a b" and "\<And>b c. \<not> s3 a b c"
  shows "trim_by s2 s3 (a # r) = a # r"
proof (cases r)
  case (Cons b t)
  then show ?thesis using assms by (cases t) simp_all
qed (use assms in simp)

lemma plain_not_space:
  assumes "plain_char a"
  shows "\<not> ascii_space a" "\<not> space2 a b" "\<not> space2 b a" "\<not> space3 a b c" "\<not> space3 c b a"
  using assms by (auto simp: plain_char_def ascii_space_def space2_def space3_def less_eq_char_def)

lemma trim_front_spaces: "trim_front (replicate n (CHR '' '') @ s) = trim_front s"
proof (induction n)
  case (Suc n)
  have "trim_by s2 s3 (CHR '' '' # r) = trim_by s2 s3 r" for s2 s3 r
    by (cases r; cases "tl r") (auto simp: ascii_space_def)
  then show ?case using Suc by (simp add: trim_front_def)
qed simp

lemma TrimSpace_plain:
  assumes "s \<noteq> []" and "plain_char (hd s)" and "plain_char (last s)"
  shows "TrimSpace (replicate n (CHR '' '') @ s) = s"
proof -
  obtain a r where s: "s = a # r" using assms(1) by (cases s) auto
  have front: "trim_front s = s"
    unfolding s trim_front_def using assms(2) s plain_not_space by (intro trim_by_stop) auto
  obtain b t where s': "rev s = b # t" using assms(1) by (cases "rev s") auto
  have "last s = b" using s' assms(1) by (metis hd_rev list.sel(1))
  then have "trim_by (\<lambda>a b. space2 b a) (\<lambda>a b c. space3 c b a) (rev s) = rev s"
    unfolding s' using assms(3) plain_not_space by (intro trim_by_stop) auto
  then show ?thesis by (simp add: TrimSpace_def trim_back_def trim_front_spaces front)
qed

lemma indent_of:
  assumes "s \<noteq> []" and "plain_char (hd s)"
  shows "length (replicate n (CHR '' '') @ s) - length (TrimLeft (replicate n (CHR '' '') @ s) '' '') = n"
proof -
  have "hd s \<noteq> CHR '' ''" using assms(2) by (auto simp: plain_char_def less_eq_char_def)
  then have "dropWhile (\<lambda>c. c = CHR '' '') s = s" using assms(1) by (cases s) auto
  then have "TrimLeft (replicate n (CHR '' '') @ s) '' '' = s"
    by (induction n) (simp_all add: TrimLeft_def)
  then show ?thesis by simp
qed

text \<open>Keys are printable ASCII without a colon, a dash or a hash; values are written in quotes.\<close>

definition key_text :: "string \<Rightarrow> bool" where
  "key_text k \<longleftrightarrow> k \<noteq> [] \<and> list_all (\<lambda>c. plain_char c \<and> c \<noteq> CHR '':'' \<and> c \<noteq> CHR ''-'' \<and> c \<noteq> CHR ''#'') k"

definition value_text :: "string \<Rightarrow> bool" where
  "value_text v \<longleftrightarrow> nl \<notin> set v \<and> (v = [] \<or> hd v \<notin> set quotes \<and> last v \<notin> set quotes)"

definition in_quotes :: "string \<Rightarrow> string" where
  "in_quotes v = dquote # v @ [dquote]"

definition scalar_line :: "nat \<Rightarrow> string \<Rightarrow> string \<Rightarrow> string" where
  "scalar_line n k v = replicate n (CHR '' '') @ k @ '': '' @ in_quotes v"

definition section_line :: "nat \<Rightarrow> string \<Rightarrow> string" where
  "section_line n k = replicate n (CHR '' '') @ k @ '':''"

definition item_line :: "nat \<Rightarrow> string \<Rightarrow> string" where
  "item_line n v = replicate n (CHR '' '') @ ''- '' @ in_quotes v"

lemma plain_quote: "plain_char dquote" "plain_char (CHR ''-'')" "plain_char (CHR '':'')"
  by (simp_all add: plain_char_def less_eq_char_def)

lemma Trim_quotes:
  assumes "value_text v"
  shows "Trim (TrimSpace (CHR '' '' # in_quotes v)) quotes = v"
    and "Trim (TrimSpace (in_quotes v)) quotes = v"
proof -
  have ts: "TrimSpace (replicate n (CHR '' '') @ in_quotes v) = in_quotes v" for n
    by (rule TrimSpace_plain) (simp_all add: in_quotes_def plain_quote)
  have "dropWhile (\<lambda>c. c \<in> set quotes) (v @ [dquote]) = (if v = [] then [] else v @ [dquote])"
    using assms by (cases v) (auto simp: value_text_def quotes_def)
  moreover have "dropWhile (\<lambda>c. c \<in> set quotes) (rev v) = rev v"
    using assms by (cases "rev v") (auto simp: value_text_def quotes_def hd_rev [symmetric])
  ultimately have "Trim (in_quotes v) quotes = v"
    by (simp add: Trim_def TrimLeft_def TrimRight_def in_quotes_def quotes_def)
  then show "Trim (TrimSpace (CHR '' '' # in_quotes v)) quotes = v"
    and "Trim (TrimSpace (in_quotes v)) quotes = v"
    using ts [of 1] ts [of 0] by simp_all
qed

lemma key_text_facts:
  assumes "key_text k"
  obtains c r where "k = c # r" "plain_char c" "c \<noteq> CHR ''-''" "c \<noteq> CHR ''#''" "CHR '':'' \<notin> set k"
    "TrimSpace k = k"
proof -
  obtain c r where k: "k = c # r" using assms by (cases k) (auto simp: key_text_def)
  have all: "\<forall>x \<in> set k. plain_char x \<and> x \<noteq> CHR '':'' \<and> x \<noteq> CHR ''-'' \<and> x \<noteq> CHR ''#''"
    using assms by (simp add: key_text_def list_all_iff)
  moreover have "TrimSpace (replicate 0 (CHR '' '') @ k) = k"
    using all k by (intro TrimSpace_plain) (auto dest: bspec [of _ _ "last k"])
  ultimately show ?thesis using that [of c r] k by auto
qed

lemma HasPrefix_Cons: "HasPrefix s []" "HasPrefix (c # s) (d # p) \<longleftrightarrow> c = d \<and> HasPrefix s p"
  by (auto simp: HasPrefix_def)

lemma HasSuffix_snoc: "HasSuffix (s @ [c]) [d] \<longleftrightarrow> c = d"
  by (auto simp: HasSuffix_iff)

lemma decode_scalar:
  assumes "key_text k" and "value_text v"
  shows "decode_line (scalar_line n k v) st =
    st\<lparr>cfg := set_scalar (cur_section st) (cur_subsection st) k v (cfg st)\<rparr>"
proof -
  obtain c r where k: "k = c # r" and c: "plain_char c" "c \<noteq> CHR ''-''" "c \<noteq> CHR ''#''"
    and colon: "CHR '':'' \<notin> set k" and tk: "TrimSpace k = k"
    using assms(1) by (rule key_text_facts)
  let ?l = "k @ '': '' @ in_quotes v"
  have "TrimSpace (scalar_line n k v) = ?l"
    unfolding scalar_line_def using c k plain_quote
    by (intro TrimSpace_plain) (simp_all add: in_quotes_def)
  moreover have "\<not> HasSuffix ?l '':''"
    using HasSuffix_snoc [of "k @ '': '' @ dquote # v" dquote "CHR '':''"] by (simp add: in_quotes_def)
  moreover have "split2 (CHR '':'') ?l = Some (k, CHR '' '' # in_quotes v)"
    using split2_append [OF colon] by simp
  ultimately show ?thesis
    using k c tk Trim_quotes [OF assms(2)]
    by (simp add: decode_line_def Let_def HasPrefix_Cons)
qed

lemma decode_section:
  assumes "key_text k"
  shows "decode_line (section_line n k) st = open_section n k st"
proof -
  obtain c r where k: "k = c # r" and c: "plain_char c" "c \<noteq> CHR ''-''" "c \<noteq> CHR ''#''"
    using assms(1) by (rule key_text_facts)
  have "TrimSpace (section_line n k) = k @ '':''"
    unfolding section_line_def using c k plain_quote by (intro TrimSpace_plain) simp_all
  moreover have "length (section_line n k) - length (TrimLeft (section_line n k) '' '') = n"
    unfolding section_line_def using c k by (intro indent_of) simp_all
  moreover have "HasSuffix (k @ '':'') '':''" by (simp add: HasSuffix_snoc)
  ultimately show ?thesis
    using k c TrimSuffix_append [of k "'':''"] by (simp add: decode_line_def Let_def HasPrefix_Cons)
qed

lemma decode_item:
  assumes "value_text v"
  shows "decode_line (item_line n v) st = add_item v st"
proof -
  have "TrimSpace (item_line n v) = ''- '' @ in_quotes v"
    unfolding item_line_def using plain_quote by (intro TrimSpace_plain) (simp_all add: in_quotes_def)
  then show ?thesis
    using Trim_quotes [OF assms]
    by (simp add: decode_line_def Let_def HasPrefix_Cons TrimPrefix_def)
qed

section \<open>Reading back a printed configuration\<close>

text \<open>
  A configuration written in the dialect \<^const>\<open>decodeSimpleYAML\<close> reads: one key per line, values
  in quotes, two nested lists under the dotted keys \<^verbatim>\<open>helm.valuesFiles\<close> and
  \<^verbatim>\<open>flux.includeKinds\<close>.
\<close>

definition config_lines :: "Config \<Rightarrow> string list" where
  "config_lines c =
     [scalar_line 0 ''version'' (Version c), scalar_line 0 ''project'' (ConfProject c),
      scalar_line 0 ''clusterRef'' (ClusterRef c), scalar_line 0 ''namespace'' (ConfNamespace c),
      section_line 0 ''render'',
      scalar_line 2 ''mode'' (Mode (ConfRender c)), scalar_line 2 ''path'' (Path (ConfRender c)),
      section_line 2 ''helm'',
      scalar_line 4 ''releaseName'' (ReleaseName (RenderHelm (ConfRender c))),
      section_line 2 ''helm.valuesFiles''] @
     map (item_line 4) (ValuesFiles (RenderHelm (ConfRender c))) @
     [section_line 2 ''flux.includeKinds''] @
     map (item_line 4) (IncludeKinds (RenderFlux (ConfRender c))) @
     [section_line 0 ''diff'',
      scalar_line 2 ''prune'' (if Prune (ConfDiff c) then ''true'' else ''false''),
      section_line 2 ''ignoreFields''] @
     map (item_line 4) (IgnoreFields (ConfDiff c)) @
     [section_line 0 ''comment'',
      scalar_line 2 ''maxResourceDetails'' (itoa (MaxResourceDetails (ConfComment c)))]"

definition print_config :: "Config \<Rightarrow> string" where
  "print_config c = join [nl] (config_lines c)"

definition printable :: "Config \<Rightarrow> bool" where
  "printable c \<longleftrightarrow>
     list_all value_text
       ([Version c, ConfProject c, ClusterRef c, ConfNamespace c, Mode (ConfRender c),
         Path (ConfRender c), ReleaseName (RenderHelm (ConfRender c))] @
        ValuesFiles (RenderHelm (ConfRender c)) @ IncludeKinds (RenderFlux (ConfRender c)) @
        IgnoreFields (ConfDiff c)) \<and>
     Profile (ConfPolicy c) = [] \<and>
     - (2 ^ 63) \<le> MaxResourceDetails (ConfComment c) \<and> MaxResourceDetails (ConfComment c) < 2 ^ 63"

lemma decode_lines_append: "decode_lines (xs @ ys) st = decode_lines ys (decode_lines xs st)"
  by (simp add: decode_lines_def)

lemma decode_lines_Cons: "decode_lines (x # xs) st = decode_lines xs (decode_line x st)"
  by (simp add: decode_lines_def)

lemma decode_items:
  "list_all value_text vs \<Longrightarrow> decode_lines (map (item_line n) vs) st = foldl (\<lambda>st v. add_item v st) st vs"
  by (induction vs arbitrary: st) (simp_all add: decode_lines_def decode_item)

lemma add_items:
  "cur_section st @ ''.'' @ cur_subsection st = ''diff.ignoreFields'' \<Longrightarrow>
     foldl (\<lambda>st v. add_item v st) st vs = st\<lparr>cfg := (cfg st)\<lparr>ConfDiff := (ConfDiff (cfg st))
          \<lparr>IgnoreFields := IgnoreFields (ConfDiff (cfg st)) @ vs\<rparr>\<rparr>\<rparr>"
  "cur_section st @ ''.'' @ cur_subsection st = ''render.helm.valuesFiles'' \<Longrightarrow>
     foldl (\<lambda>st v. add_item v st) st vs = st\<lparr>cfg := (cfg st)\<lparr>ConfRender := (ConfRender (cfg st))
          \<lparr>RenderHelm := (RenderHelm (ConfRender (cfg st)))
            \<lparr>ValuesFiles := ValuesFiles (RenderHelm (ConfRender (cfg st))) @ vs\<rparr>\<rparr>\<rparr>\<rparr>"
  "cur_section st @ ''.'' @ cur_subsection st = ''render.flux.includeKinds'' \<Longrightarrow>
     foldl (\<lambda>st v. add_item v st) st vs = st\<lparr>cfg := (cfg st)\<lparr>ConfRender := (ConfRender (cfg st))
          \<lparr>RenderFlux := (RenderFlux (ConfRender (cfg st)))
            \<lparr>IncludeKinds := IncludeKinds (RenderFlux (ConfRender (cfg st))) @ vs\<rparr>\<rparr>\<rparr>\<rparr>"
  by (induction vs arbitrary: st) (simp_all add: add_item_def Let_def)

lemma key_texts:
  "key_text ''version''" "key_text ''project''" "key_text ''clusterRef''" "key_text ''namespace''"
  "key_text ''render''" "key_text ''mode''" "key_text ''path''" "key_text ''helm''"
  "key_text ''releaseName''" "key_text ''helm.valuesFiles''" "key_text ''flux.includeKinds''"
  "key_text ''diff''" "key_text ''prune''" "key_text ''ignoreFields''" "key_text ''comment''"
  "key_text ''maxResourceDetails''"
  by (simp_all add: key_text_def plain_char_def less_eq_char_def)

lemma value_text_itoa: "value_text (itoa i)"
proof -
  have chars: "is_digit c \<or> c = CHR ''-''" if "c \<in> set (itoa i)" for c
    using that nat_str_digits by (auto simp: itoa_def split: if_splits)
  have "\<not> (is_digit c \<or> c = CHR ''-'')" if "c \<in> {nl, dquote, squote}" for c
    using that by (auto simp: is_digit_def less_eq_char_def)
  then have "c \<notin> {nl, dquote, squote}" if "c \<in> set (itoa i)" for c
    using chars that by blast
  moreover have "itoa i \<noteq> []" by (simp add: itoa_def)
  ultimately show ?thesis
    using hd_in_set [of "itoa i"] last_in_set [of "itoa i"] by (auto simp: value_text_def quotes_def)
qed

lemma value_text_bool: "value_text (if b then ''true'' else ''false'')"
  by (simp add: value_text_def quotes_def)

lemma config_lines_no_nl:
  assumes "printable c" and "l \<in> set (config_lines c)"
  shows "nl \<notin> set l"
proof -
  have sc: "nl \<notin> set (scalar_line n k v)" if "value_text v" "nl \<notin> set k" for n k v
    using that by (simp add: scalar_line_def in_quotes_def value_text_def)
  have se: "nl \<notin> set (section_line n k)" if "nl \<notin> set k" for n k
    using that by (simp add: section_line_def)
  have it: "nl \<notin> set (item_line n v)" if "value_text v" for n v
    using that by (simp add: item_line_def in_quotes_def value_text_def)
  show ?thesis
    using assms sc se it value_text_itoa value_text_bool
    by (auto simp: config_lines_def printable_def list_all_iff)
qed

lemma decode_config_lines:
  assumes "printable c"
  shows "cfg (decode_lines (config_lines c) start_state) = c"
proof -
  note v = assms [unfolded printable_def, simplified]
  show ?thesis
    unfolding config_lines_def append_Cons append_Nil decode_lines_append decode_lines_Cons
    using v Atoi_itoa
    by (simp add: decode_scalar decode_section decode_items key_texts value_text_itoa value_text_bool
        start_state_def empty_config_def set_scalar_def open_section_def add_items
        decode_lines_def [of "[]"])
qed

text \<open>A text whose first byte cannot start a JSON value is read as YAML.\<close>

lemma Decode_yaml:
  assumes "\<not> json_ws c" and "kind_of_char c = 6"
  shows "Decode (c # s) = decodeSimpleYAML (c # s)"
proof -
  have "parse_json (c # s) = None"
    using parse_json_start [of c s] assms by (cases "parse_json (c # s)") auto
  then show ?thesis by (simp add: Decode_def unmarshal_config_def Unmarshal_struct_def)
qed

lemma v_not_json: "\<not> json_ws (CHR ''v'')" "kind_of_char (CHR ''v'') = 6"
  by (simp_all add: json_ws_def kind_of_char_def is_digit_def less_eq_char_def)

text \<open>
  C26. Round trip: a configuration written in the supported dialect is decoded to itself. The only
  setting that cannot be written is the policy profile; the values must be free of line breaks and
  of quotes at either end.
\<close>

theorem decode_print:
  assumes "printable c" and "Version c \<noteq> []"
  shows "Decode (print_config c) = Inr c"
proof -
  have "config_lines c \<noteq> []" by (simp add: config_lines_def)
  then have "split_on nl (print_config c) = config_lines c"
    unfolding print_config_def using config_lines_no_nl [OF assms(1)] by (intro split_on_join) auto
  then have "decodeSimpleYAML (print_config c) = Inr c"
    using assms(2) by (simp add: decodeSimpleYAML_def decode_config_lines [OF assms(1)])
  moreover have "\<exists>s. print_config c = CHR ''v'' # s"
    by (simp add: print_config_def config_lines_def join_Cons scalar_line_def)
  ultimately show ?thesis using Decode_yaml [OF v_not_json] by fastforce
qed

definition sample_config :: Config where
  "sample_config =
     \<lparr>Version = ''v1'', ConfProject = ''payments'', ClusterRef = ''prod'', ConfNamespace = ''pay'',
      ConfRender = \<lparr>Mode = ''flux'', Path = ''manifests'',
        RenderHelm = \<lparr>ReleaseName = [], ValuesFiles = []\<rparr>,
        RenderFlux = \<lparr>IncludeKinds = [''HelmRelease'', ''Secret'']\<rparr>\<rparr>,
      ConfDiff = \<lparr>Prune = True, IgnoreFields = [''metadata.annotations'']\<rparr>,
      ConfPolicy = \<lparr>Profile = []\<rparr>,
      ConfComment = \<lparr>MaxResourceDetails = 100\<rparr>\<rparr>"

theorem decode_print_witness:
  "Decode (print_config sample_config) = Inr sample_config"
  by (rule decode_print) (simp_all add: sample_config_def printable_def value_text_def quotes_def)

text \<open>The reader for YAML never sets the policy profile, whatever the input.\<close>

lemma decode_profile:
  assumes "decodeSimpleYAML inp = Inr c"
  shows "Profile (ConfPolicy c) = []"
  using assms decode_lines_profile [of "split_on nl inp" start_state]
  by (auto simp: decodeSimpleYAML_def Let_def start_state_def empty_config_def split: if_splits)

definition strict_yaml :: string where
  "strict_yaml = join [nl] [''version: v1'', ''policy:'', ''  profile: strict'']"

text \<open>The example configuration of the README.\<close>

definition readme_yaml :: string where
  "readme_yaml = join [nl]
     [''version: v1'', ''project: payments'', ''clusterRef: prod-eu-1'', ''namespace: payments'',
      ''render:'', ''  mode: flux # yaml|kustomize|helm|flux'', ''  path: manifests'', ''  flux:'',
      ''    includeKinds:'', ''      - HelmRelease'', ''      - Kustomization'', ''diff:'',
      ''  prune: false'', ''  ignoreFields:'', ''    - metadata.annotations'', ''policy:'',
      ''  profile: strict'', ''comment:'', ''  maxResourceDetails: 100'']"

text \<open>
  The example configuration of the README does not load: the comment after the mode is read as
  part of it, and the listed kinds and the profile are dropped.
\<close>

theorem readme_rejected:
  "ValidateBytes readme_yaml
     = Inl (''unsupported render.mode '' @ quoted ''flux # yaml|kustomize|helm|flux'') \<and>
   map_sum (\<lambda>_. ()) (\<lambda>c. (IncludeKinds (RenderFlux (ConfRender c)), Profile (ConfPolicy c)))
     (Decode readme_yaml) = Inr ([], [])"
proof -
  have "readme_yaml = CHR ''v'' # tl readme_yaml" by code_simp
  then have d: "Decode readme_yaml = decodeSimpleYAML readme_yaml"
    using Decode_yaml [OF v_not_json] by metis
  show ?thesis unfolding ValidateBytes_def d by code_simp
qed

end
