(* ===== verification/Sha256.thy ===== *)
theory Sha256
  imports Go_Strings "HOL-Library.Word"
begin

text \<open>
  SHA-256 and HMAC of the standard library (\<^verbatim>\<open>crypto/sha256\<close>, \<^verbatim>\<open>crypto/hmac\<close>) on byte strings, which
  the webhook handler checks signatures with. The definitions follow FIPS 180-4 and RFC 2104, and
  the first example of the standard is evaluated at the end.
\<close>

unbundle bit_operations_syntax

type_synonym w32 = "32 word"

text \<open>The constants of the standard, eight hexadecimal digits for a word.\<close>

definition hex_value :: "char \<Rightarrow> int" where
  "hex_value c = (if is_digit c then of_char c - 48 else of_char c - 87)"

definition hex_words :: "nat \<Rightarrow> string \<Rightarrow> w32 list" where
  "hex_words n s =
     map (\<lambda>i. word_of_int (foldl (\<lambda>v c. 16 * v + hex_value c) 0 (take 8 (drop (8 * i) s)))) [0..<n]"

definition round_constants :: "w32 list" where
  "round_constants =
     concat (map (hex_words 8)
       [''428a2f9871374491b5c0fbcfe9b5dba53956c25b59f111f1923f82a4ab1c5ed5'',
        ''d807aa9812835b01243185be550c7dc372be5d7480deb1fe9bdc06a7c19bf174'',
        ''e49b69c1efbe47860fc19dc6240ca1cc2de92c6f4a7484aa5cb0a9dc76f988da'',
        ''983e5152a831c66db00327c8bf597fc7c6e00bf3d5a7914706ca635114292967'',
        ''27b70a852e1b21384d2c6dfc53380d13650a7354766a0abb81c2c92e92722c85'',
        ''a2bfe8a1a81a664bc24b8b70c76c51a3d192e819d6990624f40e3585106aa070'',
        ''19a4c1161e376c082748774c34b0bcb5391c0cb34ed8aa4a5b9cca4f682e6ff3'',
        ''748f82ee78a5636f84c878148cc7020890befffaa4506cebbef9a3f7c67178f2''])"

definition initial_hash :: "w32 list" where
  "initial_hash = hex_words 8 ''6a09e667bb67ae853c6ef372a54ff53a510e527f9b05688c1f83d9ab5be0cd19''"

definition rotr :: "nat \<Rightarrow> w32 \<Rightarrow> w32" where
  "rotr n x = drop_bit n x OR push_bit (32 - n) x"

text \<open>A block is sixteen words; the message schedule extends it to sixty-four.\<close>

definition small_sigma0 :: "w32 \<Rightarrow> w32" where
  "small_sigma0 x = rotr 7 x XOR rotr 18 x XOR drop_bit 3 x"

definition small_sigma1 :: "w32 \<Rightarrow> w32" where
  "small_sigma1 x = rotr 17 x XOR rotr 19 x XOR drop_bit 10 x"

text \<open>The words so far are kept newest first.\<close>

primrec schedule :: "nat \<Rightarrow> w32 list \<Rightarrow> w32 list" where
  "schedule 0 ws = ws"
| "schedule (Suc k) ws =
     schedule k ((small_sigma1 (ws ! 1) + ws ! 6 + small_sigma0 (ws ! 14) + ws ! 15) # ws)"

definition compress_round :: "w32 list \<Rightarrow> w32 \<times> w32 \<Rightarrow> w32 list" where
  "compress_round st kw =
     (case (st, kw) of
        ([a, b, c, d, e, f, g, h], (k, w)) \<Rightarrow>
          (let s1 = rotr 6 e XOR rotr 11 e XOR rotr 25 e;
               ch = (e AND f) XOR (NOT e AND g);
               t1 = h + s1 + ch + k + w;
               s0 = rotr 2 a XOR rotr 13 a XOR rotr 22 a;
               maj = (a AND b) XOR (a AND c) XOR (b AND c)
           in [t1 + s0 + maj, a, b, c, d + t1, e, f, g])
      | _ \<Rightarrow> st)"

definition compress :: "w32 list \<Rightarrow> w32 list \<Rightarrow> w32 list" where
  "compress h block =
     map2 (+) h (foldl compress_round h (zip round_constants (rev (schedule 48 (rev block)))))"

definition word_of_bytes :: "string \<Rightarrow> w32" where
  "word_of_bytes bs = foldl (\<lambda>w b. push_bit 8 w OR word_of_int (of_char b)) 0 bs"

fun words_of :: "string \<Rightarrow> w32 list" where
  "words_of (a # b # c # d # r) = word_of_bytes [a, b, c, d] # words_of r"
| "words_of _ = []"

text \<open>The big-endian bytes of a number.\<close>

definition be_bytes :: "nat \<Rightarrow> int \<Rightarrow> string" where
  "be_bytes k n = map (\<lambda>i. char_of (n div 256 ^ i mod 256)) (rev [0..<k])"

text \<open>Padding to a multiple of 64 bytes: a set bit, zeroes, and the length in bits.\<close>

definition pad_message :: "string \<Rightarrow> string" where
  "pad_message m =
     m @ CHR 0x80 # replicate ((119 - length m mod 64) mod 64) (CHR 0x00) @ be_bytes 8 (8 * int (length m))"

primrec blocks :: "nat \<Rightarrow> w32 list \<Rightarrow> w32 list list" where
  "blocks 0 ws = []"
| "blocks (Suc k) ws = take 16 ws # blocks k (drop 16 ws)"

definition sha256 :: "string \<Rightarrow> string" where
  "sha256 m =
     (let ws = words_of (pad_message m)
      in concat (map (\<lambda>w. be_bytes 4 (uint w)) (foldl compress initial_hash (blocks (length ws div 16) ws))))"

text \<open>\<^verbatim>\<open>hmac.New(sha256.New, key)\<close>, fed with the message.\<close>

definition hmac_key :: "string \<Rightarrow> string" where
  "hmac_key key = (let k = (if 64 < length key then sha256 key else key) in k @ replicate (64 - length k) (CHR 0x00))"

definition xor_byte :: "int \<Rightarrow> char \<Rightarrow> char" where
  "xor_byte n c = char_of (n XOR of_char c)"

definition hmac_sha256 :: "string \<Rightarrow> string \<Rightarrow> string" where
  "hmac_sha256 key m =
     (let k = hmac_key key
      in sha256 (map (xor_byte 0x5C) k @ sha256 (map (xor_byte 0x36) k @ m)))"

text \<open>\<^verbatim>\<open>hex.EncodeToString\<close>\<close>

definition hex_byte :: "char \<Rightarrow> string" where
  "hex_byte c = [hex_digit (of_char c div 16), hex_digit (of_char c mod 16)]"

definition hex_encode :: "string \<Rightarrow> string" where
  "hex_encode s = concat (map hex_byte s)"

lemma sha256_abc:
  "hex_encode (sha256 ''abc'') = ''ba7816bf8f01cfea414140de5dae2223b00361a396177a9cb410ff61f20015ad''"
  by code_simp

end
