(* ===== verification/Webhook.thy ===== *)
theory Webhook
  imports Service Config Sha256
begin

text \<open>
  \<^verbatim>\<open>internal/webhook/handler.go\<close>: the HTTP endpoint that authenticates a request, decodes the event
  in it and hands it to the orchestrator service. A request is its method, its body (or the error of
  reading it) and its headers, with the empty string for a header that is absent.

  Two things a number in the payload depends on are arguments: \<open>canon\<close>, the text of a literal as a
  \<^verbatim>\<open>float64\<close> (see \<open>Go_Json\<close>), and \<open>huge\<close>, what \<^verbatim>\<open>int(x)\<close> gives for a \<^verbatim>\<open>float64\<close> outside the range of
  \<^verbatim>\<open>int\<close>, which Go leaves to the implementation. They are the fields of the record \<open>number_env\<close>.
\<close>

record number_env =
  canon :: "string \<Rightarrow> string option"
  huge :: "string \<Rightarrow> int"

record Request =
  Method :: string
  ReqBody :: "string result"
  Header :: "string \<Rightarrow> string"

record Response =
  StatusCode :: nat
  RspBody :: string

record ('s, 'l, 'd, 'q) Handler =
  secret :: string
  orch :: "('s, 'l, 'd, 'q) Service"

definition NewHandler :: "string \<Rightarrow> ('s, 'l, 'd, 'q) Service \<Rightarrow> ('s, 'l, 'd, 'q) Handler" where
  "NewHandler s svc = \<lparr>secret = s, orch = svc\<rparr>"

section \<open>Reading dynamic values\<close>

definition str :: "any \<Rightarrow> string" where
  "str v = (case v of AStr s \<Rightarrow> s | _ \<Rightarrow> [])"

text \<open>
  \<^verbatim>\<open>int(x)\<close> of a \<^verbatim>\<open>float64\<close> given as the text that prints it: the digits before the point, nothing for
  a number printed with a negative exponent; a positive exponent is printed from 1e+21 on only.
\<close>

definition float_int :: "(string \<Rightarrow> int) \<Rightarrow> string \<Rightarrow> int" where
  "float_int big t =
     (let neg = (case t of c # _ \<Rightarrow> c = CHR ''-'' | [] \<Rightarrow> False);
          ds = takeWhile is_digit (if neg then tl t else t);
          n = (case digits_val 0 ds of None \<Rightarrow> 0 | Some n \<Rightarrow> int n);
          i = (if neg then - n else n)
      in if CHR ''e'' \<in> set t then (if Contains t ''e-'' then 0 else big t)
         else if - (2 ^ 63) \<le> i \<and> i < 2 ^ 63 then i
         else big t)"

text \<open>A decoded payload holds no other kind of number.\<close>

definition num :: "(string \<Rightarrow> int) \<Rightarrow> any \<Rightarrow> int" where
  "num big v = (case v of ANum t \<Rightarrow> float_int big t | _ \<Rightarrow> 0)"

text \<open>A failed type assertion to a map gives the nil map.\<close>

definition as_map :: "any \<Rightarrow> (string \<times> any) list" where
  "as_map v = (case v of AMap m \<Rightarrow> m | _ \<Rightarrow> [])"

section \<open>Decoding the event\<close>

datatype decode_error = InvalidJSON | UnsupportedNote | UnsupportedKind

definition empty_event :: MergeRequestEvent where
  "empty_event =
     \<lparr>DeliveryID = [], EventType = [], Repository = [], MergeReqID = 0, HeadSHA = [], BaseRef = [],
      ChangedFiles = []\<rparr>"

definition event_fields :: "MergeRequestEvent fields" where
  "event_fields =
     [(''delivery_id'', string_field (\<lambda>v e. e\<lparr>DeliveryID := v\<rparr>)),
      (''event_type'', string_field (\<lambda>v e. e\<lparr>EventType := v\<rparr>)),
      (''repository'', string_field (\<lambda>v e. e\<lparr>Repository := v\<rparr>)),
      (''merge_request_id'', int_field (\<lambda>v e. e\<lparr>MergeReqID := v\<rparr>)),
      (''head_sha'', string_field (\<lambda>v e. e\<lparr>HeadSHA := v\<rparr>)),
      (''base_ref'', string_field (\<lambda>v e. e\<lparr>BaseRef := v\<rparr>)),
      (''changed_files'', strings_field (\<lambda>v e. e\<lparr>ChangedFiles := v\<rparr>))]"

text \<open>The program's own format: used only when it has a delivery and a merge request.\<close>

definition direct_event :: "string \<Rightarrow> MergeRequestEvent option" where
  "direct_event body =
     (case Unmarshal_struct event_fields empty_event body of
        Some e \<Rightarrow> if DeliveryID e \<noteq> [] \<and> 0 < MergeReqID e then Some e else None
      | None \<Rightarrow> None)"

definition payload_delivery :: "(string \<times> any) list \<Rightarrow> string" where
  "payload_delivery p =
     (let d = str (at_key p ''event_id'') in if d = [] then str (at_key p ''delivery_id'') else d)"

definition payload_repo :: "(string \<times> any) list \<Rightarrow> string" where
  "payload_repo p = str (at_key (as_map (at_key p ''project'')) ''path_with_namespace'')"

definition payload_files :: "(string \<times> any) list \<Rightarrow> string list" where
  "payload_files p = (case at_key p ''changed_files'' of AList xs \<Rightarrow> map str xs | _ \<Rightarrow> [])"

text \<open>What a merge request hook asks for.\<close>

definition hook_type :: "(string \<times> any) list \<Rightarrow> string" where
  "hook_type attrs =
     (let action = ToLower (str (at_key attrs ''action'')); state = ToLower (str (at_key attrs ''state''))
      in if action = ''close'' \<or> state = ''closed'' then ''merge_request.closed''
         else if action = ''merge'' \<or> state = ''merged'' then ''merge_request.merged''
         else ''merge_request.updated'')"

definition merge_request_event :: "number_env \<Rightarrow> (string \<times> any) list \<Rightarrow> MergeRequestEvent" where
  "merge_request_event ne p =
     (let attrs = as_map (at_key p ''object_attributes'');
          head = str (at_key (as_map (at_key attrs ''last_commit'')) ''id'');
          head = (if head = [] then str (at_key p ''head_sha'') else head)
      in \<lparr>DeliveryID = payload_delivery p, EventType = hook_type attrs, Repository = payload_repo p,
          MergeReqID = num (huge ne) (at_key attrs ''iid''), HeadSHA = head,
          BaseRef = str (at_key attrs ''target_branch''), ChangedFiles = payload_files p\<rparr>)"

definition note_event :: "number_env \<Rightarrow> (string \<times> any) list \<Rightarrow> MergeRequestEvent" where
  "note_event ne p =
     (let mr = as_map (at_key p ''merge_request'');
          head = str (at_key (as_map (at_key mr ''last_commit'')) ''id'');
          head = (if head = [] then str (at_key mr ''last_commit'') else head);
          head = (if head = [] then str (at_key p ''head_sha'') else head)
      in \<lparr>DeliveryID = payload_delivery p, EventType = ''comment.plan'', Repository = payload_repo p,
          MergeReqID = num (huge ne) (at_key mr ''iid''), HeadSHA = head,
          BaseRef = str (at_key mr ''target_branch''), ChangedFiles = payload_files p\<rparr>)"

definition payload_event :: "number_env \<Rightarrow> (string \<times> any) list \<Rightarrow> decode_error + MergeRequestEvent" where
  "payload_event ne p =
     (let kind = str (at_key p ''object_kind'')
      in if kind = ''merge_request'' then Inr (merge_request_event ne p)
         else if kind = ''note'' then
           (if HasPrefix (TrimSpace (str (at_key (as_map (at_key p ''object_attributes'')) ''note''))) ''/thule plan''
            then Inr (note_event ne p) else Inl UnsupportedNote)
         else Inl UnsupportedKind)"

definition decodeEvent :: "number_env \<Rightarrow> string \<Rightarrow> decode_error + MergeRequestEvent" where
  "decodeEvent ne body =
     (case direct_event body of
        Some e \<Rightarrow> Inr e
      | None \<Rightarrow>
          (case Unmarshal_map (canon ne) body of
             None \<Rightarrow> Inl InvalidJSON
           | Some p \<Rightarrow> payload_event ne p))"

section \<open>Authentication\<close>

definition verifySignature :: "string \<Rightarrow> string \<Rightarrow> string \<Rightarrow> bool" where
  "verifySignature s body provided \<longleftrightarrow> provided \<noteq> [] \<and> hex_encode (hmac_sha256 s body) = provided"

definition verifyToken :: "string \<Rightarrow> string \<Rightarrow> bool" where
  "verifyToken s provided \<longleftrightarrow> provided \<noteq> [] \<and> s = provided"

text \<open>The check \<^verbatim>\<open>ServeHTTP\<close> makes when a secret is set.\<close>

definition authentic :: "string \<Rightarrow> Request \<Rightarrow> string \<Rightarrow> bool" where
  "authentic s r body \<longleftrightarrow>
     s = [] \<or> verifySignature s body (TrimPrefix (Header r ''X-Thule-Signature'') ''sha256='') \<or>
     verifyToken s (Header r ''X-Gitlab-Token'')"

primrec firstHeader :: "Request \<Rightarrow> string list \<Rightarrow> string" where
  "firstHeader r [] = []"
| "firstHeader r (k # ks) =
     (let v = TrimSpace (Header r k) in if v \<noteq> [] then v else firstHeader r ks)"

section \<open>Serving a request\<close>

definition error_text :: "service_error \<Rightarrow> string" where
  "error_text e =
     (case e of
        DeliveryIDRequired \<Rightarrow> ''delivery_id is required''
      | MissingRequiredFields \<Rightarrow> ''missing required event fields''
      | DedupeReserveFailed m \<Rightarrow> ''dedupe reserve: '' @ m
      | ProjectLocked root mr \<Rightarrow> ''project '' @ quoted root @ '' is locked by MR !'' @ itoa mr
      | EnqueueFailed m \<Rightarrow> m)"

text \<open>\<^verbatim>\<open>http.Error\<close> ends the body with a line break.\<close>

definition http_error :: "string \<Rightarrow> nat \<Rightarrow> Response" where
  "http_error msg code = \<lparr>StatusCode = code, RspBody = msg @ [nl]\<rparr>"

definition queued_body :: string where
  "queued_body = json_text (AMap [(''status'', AStr ''queued'')])"

definition event_of_request :: "Request \<Rightarrow> MergeRequestEvent \<Rightarrow> MergeRequestEvent" where
  "event_of_request r event =
     (if DeliveryID event = [] then
        event\<lparr>DeliveryID := firstHeader r
          [''X-Gitlab-Event-UUID'', ''X-Gitlab-Webhook-UUID'', ''X-Request-Id'', ''X-Delivery-Id'']\<rparr>
      else event)"

text \<open>No response is given while the service call is blocked on the queue.\<close>

definition ServeHTTP ::
  "('s, 'l, 'd, 'q) Handler \<Rightarrow> number_env \<Rightarrow> (string list \<Rightarrow> string list) \<Rightarrow> Call \<Rightarrow> Request \<Rightarrow>
   ('s, 'l, 'd, 'q) SvcState \<Rightarrow> Response option \<times> ('s, 'l, 'd, 'q) SvcState" where
  "ServeHTTP h ne perm c r st =
     (if Method r \<noteq> ''POST'' then (Some (http_error ''method not allowed'' 405), st)
      else
        (case ReqBody r of
           Inl _ \<Rightarrow> (Some (http_error ''failed to read request'' 400), st)
         | Inr body \<Rightarrow>
             (if \<not> authentic (secret h) r body then (Some (http_error ''invalid signature'' 401), st)
              else
                (case decodeEvent ne body of
                   Inl _ \<Rightarrow> (Some (http_error ''invalid payload'' 400), st)
                 | Inr event \<Rightarrow>
                     (case HandleMergeRequestEvent (orch h) perm c (event_of_request r event) st of
                        (HandleErr e, st') \<Rightarrow>
                          (Some (http_error (''event rejected: '' @ error_text e) 400), st')
                      | (HandleOk, st') \<Rightarrow> (Some \<lparr>StatusCode = 202, RspBody = queued_body\<rparr>, st')
                      | (HandleBlocked, st') \<Rightarrow> (None, st'))))))"

section \<open>Only authentic requests have an effect\<close>

text \<open>The event a request asks for, when it gets as far as the service.\<close>

definition accepted_event :: "string \<Rightarrow> number_env \<Rightarrow> Request \<Rightarrow> MergeRequestEvent option" where
  "accepted_event s ne r =
     (case ReqBody r of
        Inl _ \<Rightarrow> None
      | Inr body \<Rightarrow>
          (if Method r = ''POST'' \<and> authentic s r body then
             (case decodeEvent ne body of Inl _ \<Rightarrow> None | Inr ev \<Rightarrow> Some (event_of_request r ev))
           else None))"

definition response_of :: "handle_result \<Rightarrow> Response option" where
  "response_of res =
     (case res of
        HandleOk \<Rightarrow> Some \<lparr>StatusCode = 202, RspBody = queued_body\<rparr>
      | HandleErr e \<Rightarrow> Some (http_error (''event rejected: '' @ error_text e) 400)
      | HandleBlocked \<Rightarrow> None)"

lemma ServeHTTP_accepted:
  "accepted_event (secret h) ne r = Some ev \<Longrightarrow>
     ServeHTTP h ne perm c r st =
       (response_of (fst (HandleMergeRequestEvent (orch h) perm c ev st)),
        snd (HandleMergeRequestEvent (orch h) perm c ev st))"
  by (auto simp: accepted_event_def ServeHTTP_def response_of_def
      split: sum.splits if_splits prod.splits handle_result.splits)

lemma ServeHTTP_rejected:
  assumes "accepted_event (secret h) ne r = None"
  obtains rsp where "ServeHTTP h ne perm c r st = (Some rsp, st)" "StatusCode rsp \<in> {400, 401, 405}"
proof -
  have "\<exists>rsp. ServeHTTP h ne perm c r st = (Some rsp, st) \<and> StatusCode rsp \<in> {400, 401, 405}"
    using assms
    by (auto simp: accepted_event_def ServeHTTP_def http_error_def split: sum.splits if_splits)
  then show ?thesis using that by blast
qed

text \<open>
  C7. A request changes the state of the service, or is answered with success, only if it is a
  POST whose body is a supported event and, when a secret is set, is signed with it or carries it as
  its token.
\<close>

theorem webhook_guard:
  assumes "snd (ServeHTTP h ne perm c r st) \<noteq> st \<or>
    (\<exists>rsp. fst (ServeHTTP h ne perm c r st) = Some rsp \<and> StatusCode rsp < 300)"
  shows "\<exists>body ev. Method r = ''POST'' \<and> ReqBody r = Inr body \<and> decodeEvent ne body = Inr ev \<and>
    (secret h = [] \<or>
     Header r ''X-Gitlab-Token'' = secret h \<or>
     TrimPrefix (Header r ''X-Thule-Signature'') ''sha256='' = hex_encode (hmac_sha256 (secret h) body))"
proof (cases "accepted_event (secret h) ne r")
  case None
  then obtain rsp where "ServeHTTP h ne perm c r st = (Some rsp, st)" "StatusCode rsp \<in> {400, 401, 405}"
    by (rule ServeHTTP_rejected)
  then show ?thesis using assms by auto
next
  case (Some ev)
  then show ?thesis
    by (auto simp: accepted_event_def authentic_def verifySignature_def verifyToken_def
        split: sum.splits if_splits)
qed

section \<open>Deliveries are handled once\<close>

text \<open>
  C8. Delivering a request again is harmless: after it was answered with 202, the same request is
  answered with 202 again and changes nothing, at whatever time it comes.
\<close>

theorem webhook_idempotent:
  assumes "ServeHTTP (NewHandler s (mem_service ttl)) ne perm c r st = (Some rsp, st')"
    and "StatusCode rsp = 202"
  shows "ServeHTTP (NewHandler s (mem_service ttl)) ne perm' c' r st' = (Some rsp, st')"
proof -
  let ?h = "NewHandler s (mem_service ttl)"
  have h: "secret ?h = s" "orch ?h = mem_service ttl" by (simp_all add: NewHandler_def)
  show ?thesis
  proof (cases "accepted_event (secret ?h) ne r")
    case None
    then obtain rsp' where "ServeHTTP ?h ne perm c r st = (Some rsp', st)" "StatusCode rsp' \<in> {400, 401, 405}"
      by (rule ServeHTTP_rejected)
    then show ?thesis using assms by auto
  next
    case (Some ev)
    obtain res where res: "HandleMergeRequestEvent (mem_service ttl) perm c ev st = (res, st')"
        "response_of res = Some rsp"
      using assms(1) ServeHTTP_accepted [OF Some] h by (metis eq_snd_iff fst_conv prod.inject)
    then have ok: "res = HandleOk"
      using assms(2) by (auto simp: response_of_def http_error_def split: handle_result.splits)
    have valid: "event_problem ev = None"
      using res(1) ok by (auto simp: HandleMergeRequestEvent_def split: option.splits)
    have "dstate (storeS st') (DeliveryID ev) \<noteq> None"
    proof (cases "dstate (storeS st) (DeliveryID ev)")
      case None
      from mem_svc.handle_fresh [OF None valid, of ttl perm c] show ?thesis
        using res(1) ok by (simp add: mem_svc.outcome_def)
    next
      case (Some d)
      then have "HandleMergeRequestEvent (mem_service ttl) perm c ev st = (HandleOk, st)"
        using mem_svc.handle_seen valid by simp
      then show ?thesis using res(1) Some by simp
    qed
    then have "HandleMergeRequestEvent (mem_service ttl) perm' c' ev st' = (HandleOk, st')"
      using mem_svc.handle_seen valid by blast
    then show ?thesis using ServeHTTP_accepted [OF Some] h res(2) ok by simp
  qed
qed

section \<open>Hooks of GitLab\<close>

lemma find_field_name:
  "find_field fs k = Some d \<Longrightarrow> \<exists>n. (n, d) \<in> set fs \<and> fold_name n = fold_name k"
proof (cases "map_of fs k")
  case None
  assume "find_field fs k = Some d"
  then have "(fold_name k, d) \<in> set (map (\<lambda>(n, d). (fold_name n, d)) fs)"
    using None by (auto simp: find_field_def dest: map_of_SomeD)
  then show ?thesis by force
qed (auto simp: find_field_def dest: map_of_SomeD)

lemma event_field_keeps_mr:
  assumes "(n, d) \<in> set event_fields" and "n \<noteq> ''merge_request_id''" and "d j e = Some e'"
  shows "MergeReqID e' = MergeReqID e"
  using assms
  by (auto simp: event_fields_def string_field_def strings_field_def split: json.splits)

text \<open>A payload with no member named like the field for the request is not in the direct format.\<close>

lemma decode_members_keeps_mr:
  "\<forall>(k, j) \<in> set ms. fold_name k \<noteq> fold_name ''merge_request_id'' \<Longrightarrow>
     decode_members event_fields ms e = Some e' \<Longrightarrow> MergeReqID e' = MergeReqID e"
proof (induction ms arbitrary: e)
  case (Cons m ms)
  show ?case
  proof (cases "find_field event_fields (fst m)")
    case None
    then show ?thesis using Cons by auto
  next
    case (Some d)
    then obtain e1 where e1: "d (snd m) e = Some e1" "decode_members event_fields ms e1 = Some e'"
      using Cons.prems(2) by (auto split: option.splits)
    obtain n where n: "(n, d) \<in> set event_fields" "fold_name n = fold_name (fst m)"
      using find_field_name [OF Some] by blast
    have "n \<noteq> ''merge_request_id''" using n(2) Cons.prems(1) by (cases m) auto
    from event_field_keeps_mr [OF n(1) this e1(1)] show ?thesis
      using Cons.IH [of e1] Cons.prems(1) e1(2) by simp
  qed
qed simp

lemma not_direct:
  assumes "parse_json body = Some (JObj ms)"
    and "list_all (\<lambda>k. fold_name k \<noteq> fold_name ''merge_request_id'') (map fst ms)"
  shows "direct_event body = None"
proof -
  have "MergeReqID e = 0" if "decode_members event_fields ms empty_event = Some e" for e
  proof -
    have "MergeReqID e = MergeReqID empty_event"
      by (rule decode_members_keeps_mr [OF _ that]) (use assms(2) in \<open>auto simp: list_all_iff\<close>)
    then show ?thesis by (simp add: empty_event_def)
  qed
  then show ?thesis
    using assms(1) by (auto simp: direct_event_def Unmarshal_struct_def decode_struct_def split: option.splits)
qed

text \<open>Where a hook says what: the fields the decoder reads of a merge request hook.\<close>

definition says :: "(string \<times> any) list \<Rightarrow> string \<Rightarrow> string \<Rightarrow> string" where
  "says p obj field = str (at_key (as_map (at_key p obj)) field)"

lemma float_int_itoa:
  assumes "0 \<le> i" and "i < 2 ^ 63"
  shows "float_int big (itoa i) = i"
proof -
  have digits: "is_digit c" if "c \<in> set (itoa i)" for c
    using that assms(1) nat_str_digits by (simp add: itoa_def)
  have "takeWhile is_digit (itoa i) = itoa i" using digits by (simp add: takeWhile_eq_all_conv)
  then have "digits_val 0 (takeWhile is_digit (itoa i)) = Some (nat i)"
    using assms(1) by (metis digits_val_nat_str itoa_def not_less)
  moreover have "CHR ''e'' \<notin> set (itoa i)"
    using digits [of "CHR ''e''"] by (auto simp: is_digit_def less_eq_char_def)
  moreover have "\<not> (case itoa i of c # _ \<Rightarrow> c = CHR ''-'' | [] \<Rightarrow> False)"
    using digits [of "CHR ''-''"] by (auto simp: is_digit_def less_eq_char_def split: list.splits)
  ultimately show ?thesis using assms by (simp add: float_int_def Let_def)
qed

text \<open>A hook that says its merge request is over, in letters of either case.\<close>

definition closing :: "(string \<times> any) list \<Rightarrow> bool" where
  "closing p \<longleftrightarrow>
     ToLower (says p ''object_attributes'' ''action'') \<in> {''close'', ''merge''} \<or>
     ToLower (says p ''object_attributes'' ''state'') \<in> {''closed'', ''merged''}"

lemma ToLower_words:
  "ToLower ''merge_request.closed'' = ''merge_request.closed''"
  "ToLower ''merge_request.merged'' = ''merge_request.merged''"
  by code_simp+

lemma Contains_words:
  "Contains ''merge_request.closed'' ''closed''" "Contains ''merge_request.merged'' ''merged''"
  by code_simp+

lemma closing_type:
  assumes "closing p"
  shows "isCloseEvent (hook_type (as_map (at_key p ''object_attributes'')))"
proof -
  let ?a = "as_map (at_key p ''object_attributes'')"
  have "hook_type ?a = ''merge_request.closed'' \<or> hook_type ?a = ''merge_request.merged''"
    using assms unfolding closing_def says_def hook_type_def Let_def by (elim disjE insertE emptyE) simp_all
  then show ?thesis
    unfolding isCloseEvent_def Let_def using ToLower_words Contains_words by metis
qed

text \<open>
  A request whose body, any JSON text, decodes to the merge request hook \<open>p\<close> for request \<open>mr\<close> of
  \<open>repo\<close> and is not in the program's own format. \<open>hook_ev\<close> is the event the handler makes of it.
\<close>

definition hook_ev :: "number_env \<Rightarrow> Request \<Rightarrow> (string \<times> any) list \<Rightarrow> MergeRequestEvent" where
  "hook_ev ne r p = event_of_request r (merge_request_event ne p)"

definition gitlab_hook :: "number_env \<Rightarrow> Request \<Rightarrow> string \<Rightarrow> (string \<times> any) list \<Rightarrow> string \<Rightarrow> int \<Rightarrow> bool" where
  "gitlab_hook ne r body p repo mr \<longleftrightarrow>
     Method r = ''POST'' \<and> ReqBody r = Inr body \<and>
     direct_event body = None \<and> Unmarshal_map (canon ne) body = Some p \<and>
     at_key p ''object_kind'' = AStr ''merge_request'' \<and>
     says p ''project'' ''path_with_namespace'' = repo \<and>
     at_key (as_map (at_key p ''object_attributes'')) ''iid'' = ANum (itoa mr) \<and> 0 < mr \<and> mr < 2 ^ 63"

lemma hook_ev_sel:
  assumes "gitlab_hook ne r body p repo mr"
  shows "Repository (hook_ev ne r p) = repo" "MergeReqID (hook_ev ne r p) = mr"
    "EventType (hook_ev ne r p) = hook_type (as_map (at_key p ''object_attributes''))"
    "ChangedFiles (hook_ev ne r p) = payload_files p"
proof -
  have "num (huge ne) (ANum (itoa mr)) = mr"
    using assms by (simp add: num_def float_int_itoa gitlab_hook_def)
  then show "Repository (hook_ev ne r p) = repo" "MergeReqID (hook_ev ne r p) = mr"
    "EventType (hook_ev ne r p) = hook_type (as_map (at_key p ''object_attributes''))"
    "ChangedFiles (hook_ev ne r p) = payload_files p"
    using assms
    by (auto simp: gitlab_hook_def hook_ev_def event_of_request_def merge_request_event_def payload_repo_def
        says_def Let_def)
qed

lemma hook_served:
  assumes "gitlab_hook ne r body p repo mr" and "authentic s r body"
  shows "ServeHTTP (NewHandler s svc) ne perm c r st =
    (response_of (fst (HandleMergeRequestEvent svc perm c (hook_ev ne r p) st)),
     snd (HandleMergeRequestEvent svc perm c (hook_ev ne r p) st))"
proof -
  have "decodeEvent ne body = Inr (merge_request_event ne p)"
    using assms(1) by (simp add: gitlab_hook_def decodeEvent_def payload_event_def str_def)
  then have "accepted_event s ne r = Some (hook_ev ne r p)"
    using assms by (simp add: gitlab_hook_def accepted_event_def hook_ev_def)
  then show ?thesis
    using ServeHTTP_accepted [of "NewHandler s svc" ne r "hook_ev ne r p" perm c st] by (simp add: NewHandler_def)
qed

text \<open>The close branch of the in-memory service.\<close>

lemma handle_close_frees:
  assumes "event_problem ev = None" and "dstate (storeS st) (DeliveryID ev) = None"
    and "isCloseEvent (EventType ev)"
    and "HandleMergeRequestEvent (mem_service ttl) perm c ev st = (res, st')"
  shows "res = HandleOk \<and> lockS st' = ReleaseByMR (Repository ev) (MergeReqID ev) (lockS st) \<and> queueS st' = queueS st"
proof -
  obtain s where r: "Reserve (DeliveryID ev) (storeS st) = (True, s)"
    using assms(2) by (simp add: Reserve_def)
  have "HandleMergeRequestEvent (mem_service ttl) perm c ev st = handle_close (mem_service ttl) ev (st\<lparr>storeS := s\<rparr>)"
    using assms(1,3) r by (simp add: HandleMergeRequestEvent_def)
  then show ?thesis
    using assms(4) by (auto simp: handle_close_def Let_def)
qed

text \<open>
  C18. Locks end with their merge request: an authentic request whose body decodes to a complete
  GitLab hook that says a merge request was closed or merged is answered with 202 and queues nothing.
  When its delivery was not seen before, the merge request afterwards holds no project of the
  repository and every other lock is as it was; when it was, no lock changes.
\<close>

theorem closing_hook_frees_projects:
  assumes "gitlab_hook ne r body p repo mr" and "authentic s r body" and "closing p"
    and "event_problem (hook_ev ne r p) = None"
    and "ServeHTTP (NewHandler s (mem_service ttl)) ne perm c r st = (rsp, st')"
  shows "map_option StatusCode rsp = Some 202 \<and> queueS st' = queueS st \<and>
    lock_owner (lockS st') =
      (if dstate (storeS st) (DeliveryID (hook_ev ne r p)) = None
       then (lock_owner (lockS st))(repo :=
         (\<lambda>root. if lock_owner (lockS st) repo root = Some mr then None else lock_owner (lockS st) repo root))
       else lock_owner (lockS st))"
proof -
  let ?ev = "hook_ev ne r p"
  note ev = hook_ev_sel [OF assms(1)]
  obtain res st1 where h: "HandleMergeRequestEvent (mem_service ttl) perm c ?ev st = (res, st1)" by force
  then have serve: "rsp = response_of res" "st' = st1"
    using hook_served [OF assms(1,2), of "mem_service ttl" perm c st] assms(5) by simp_all
  show ?thesis
  proof (cases "dstate (storeS st) (DeliveryID ?ev) = None")
    case True
    have "isCloseEvent (EventType ?ev)" using closing_type [OF assms(3)] ev(3) by simp
    from handle_close_frees [OF assms(4) True this h] show ?thesis
      using serve True ev(1,2) by (simp add: response_of_def ReleaseByMR_owner)
  next
    case False
    then show ?thesis using mem_svc.handle_seen [OF False assms(4), of ttl perm c] h serve
      by (auto simp: response_of_def)
  qed
qed

lemma discover_no_files: "iteration_order perm \<Longrightarrow> DiscoverFromChangedFiles perm [] = []"
  using iteration_order_set [of perm "[]"] by (simp add: DiscoverFromChangedFiles_def candidates_def)

lemma handle_without_files:
  assumes "iteration_order perm" and "ChangedFiles ev = []" and "\<not> isCloseEvent (EventType ev)"
  shows "lockS (snd (HandleMergeRequestEvent (mem_service ttl) perm c ev st)) = lockS st"
proof -
  have le: "lockS (snd (lock_and_enqueue (mem_service ttl) perm c ev st)) = lockS st" for st
    using assms(1,2) mem_svc.enqueue_job_locks [of ttl c ev "st\<lparr>lockS := lockS st\<rparr>"]
    by (simp add: lock_and_enqueue_def discover_no_files)
  have "lockS (snd (handle_plan (mem_service ttl) perm c ev st)) = lockS st" for st
    using le by (auto simp: handle_plan_def split: prod.splits sum.splits bool.splits)
  then show ?thesis
    using assms(3) by (auto simp: HandleMergeRequestEvent_def split: option.splits prod.splits bool.splits)
qed

text \<open>
  C39. A merge request hook that does not list its changed files is queued without a lock, whatever it
  changes: an authentic update hook with no list, complete, delivered for the first time and not
  deduplicated, is answered with 202 on a queue with room, its job is appended with no files, and the
  locks are as before. GitLab's own hooks carry no such list; the worker looks the files up later,
  when no lock is taken any more.
\<close>

theorem hook_without_files_takes_no_lock:
  assumes "iteration_order perm" and "gitlab_hook ne r body p repo mr" and "authentic s r body"
    and "payload_files p = []" and "reaches_locks ttl (hook_ev ne r p) c st"
    and "ctxErr c = None" and "can_send c (queueS st)"
    and "ServeHTTP (NewHandler s (mem_service ttl)) ne perm c r st = (rsp, st')"
  shows "map_option StatusCode rsp = Some 202 \<and> lockS st' = lockS st \<and>
    (\<exists>job. chan (queueS st') = chan (queueS st) @ [job] \<and> jRepository job = repo \<and> jMergeReqID job = mr \<and>
       jDeliveryID job = DeliveryID (hook_ev ne r p) \<and> jChangedFiles job = [])"
proof -
  let ?ev = "hook_ev ne r p"
  note ev = hook_ev_sel [OF assms(2)]
  have files: "ChangedFiles ?ev = []" using ev(4) assms(4) by simp
  have res: "HandleMergeRequestEvent (mem_service ttl) perm c ?ev st
      = enqueue_job (mem_service ttl) c ?ev (mem_svc.reserved ttl ?ev c st)"
    using assms(5) discover_no_files [OF assms(1)] files
    by (simp add: reaches_locks_admitted mem_svc.handle_admitted lock_and_enqueue_def mem_svc.reserved_def Let_def)
  moreover have "fst (enqueue_job (mem_service ttl) c ?ev (mem_svc.reserved ttl ?ev c st)) = HandleOk \<and>
      chan (queueS (snd (enqueue_job (mem_service ttl) c ?ev (mem_svc.reserved ttl ?ev c st))))
        = chan (queueS st) @ [job_of_event ?ev]"
    using assms(6,7) by (simp add: enqueue_job_def Enqueue_def mem_svc.reserved_def Let_def)
  moreover have "lockS (snd (HandleMergeRequestEvent (mem_service ttl) perm c ?ev st)) = lockS st"
    using handle_without_files [OF assms(1) files] assms(5) by (simp add: reaches_locks_def)
  moreover have "rsp = response_of (fst (HandleMergeRequestEvent (mem_service ttl) perm c ?ev st))"
      "st' = snd (HandleMergeRequestEvent (mem_service ttl) perm c ?ev st)"
    using hook_served [OF assms(2,3), of "mem_service ttl" perm c st] assms(8) by simp_all
  ultimately show ?thesis
    using ev files by (auto simp: response_of_def)
qed

section \<open>Examples\<close>

definition plain_numbers :: number_env where
  "plain_numbers = \<lparr>canon = Some, huge = (\<lambda>_. - (2 ^ 63))\<rparr>"

text \<open>A word in quotes.\<close>

definition dq :: "string \<Rightarrow> string" where
  "dq s = dquote # s @ [dquote]"

text \<open>A hook as GitLab writes it: its own order of members, spaces, and members that are not read.\<close>

definition sample_text :: "string \<Rightarrow> string" where
  "sample_text action = join [nl]
     [''{ '' @ dq ''object_kind'' @ '': '' @ dq ''merge_request'' @ '','',
      ''  '' @ dq ''user'' @ '': {'' @ dq ''id'' @ '': 1},'',
      ''  '' @ dq ''project'' @ '': {'' @ dq ''id'' @ '': 9, '' @ dq ''path_with_namespace'' @ '': '' @ dq ''g/r'' @ ''},'',
      ''  '' @ dq ''object_attributes'' @ '': {'' @ dq ''iid'' @ '': 7, '' @ dq ''last_commit'' @ '': {'' @
        dq ''id'' @ '': '' @ dq ''abc'' @ ''}, '' @ dq ''action'' @ '': '' @ dq action @ ''} }'']"

definition sample_request :: "string \<Rightarrow> Request" where
  "sample_request action =
     \<lparr>Method = ''POST'', ReqBody = Inr (sample_text action),
      Header = (\<lambda>k. if k = ''X-Gitlab-Event-UUID'' then ''u1'' else if k = ''X-Gitlab-Token'' then ''key'' else [])\<rparr>"

definition sample_json :: "string \<Rightarrow> (string \<times> json) list" where
  "sample_json action =
     [(''object_kind'', JStr ''merge_request''), (''user'', JObj [(''id'', JNum ''1'')]),
      (''project'', JObj [(''id'', JNum ''9''), (''path_with_namespace'', JStr ''g/r'')]),
      (''object_attributes'', JObj [(''iid'', JNum ''7''), (''last_commit'', JObj [(''id'', JStr ''abc'')]),
         (''action'', JStr action)])]"

definition sample_hook :: "string \<Rightarrow> (string \<times> any) list" where
  "sample_hook action =
     [(''object_attributes'',
        AMap [(''action'', AStr action), (''iid'', ANum ''7''), (''last_commit'', AMap [(''id'', AStr ''abc'')])]),
      (''object_kind'', AStr ''merge_request''),
      (''project'', AMap [(''id'', ANum ''9''), (''path_with_namespace'', AStr ''g/r'')]),
      (''user'', AMap [(''id'', ANum ''1'')])]"

lemma sample_parsed:
  "parse_json (sample_text ''Close'') = Some (JObj (sample_json ''Close''))"
  "parse_json (sample_text ''update'') = Some (JObj (sample_json ''update''))"
  by (rule parse_json_eval [where r = "[]"], code_simp, code_simp)+

lemma hook_names:
  "list_all (\<lambda>k. fold_name k \<noteq> fold_name ''merge_request_id'')
     [''object_attributes'', ''object_kind'', ''project'', ''user'', ''event_id'', ''changed_files'', ''merge_request'']"
  by code_simp

lemma sample_gitlab_hook:
  assumes "parse_json (sample_text a) = Some (JObj (sample_json a))"
  shows "gitlab_hook plain_numbers (sample_request a) (sample_text a) (sample_hook a) ''g/r'' 7"
proof -
  have "direct_event (sample_text a) = None"
    using hook_names by (intro not_direct [OF assms]) (simp add: sample_json_def)
  moreover have "Unmarshal_map (canon plain_numbers) (sample_text a) = Some (sample_hook a)"
    unfolding Unmarshal_map_def assms sample_json_def sample_hook_def plain_numbers_def by simp code_simp
  moreover have "itoa 7 = ''7''" by code_simp
  ultimately show ?thesis
    by (simp add: gitlab_hook_def sample_request_def sample_hook_def at_key_def says_def as_map_def str_def)
qed

lemmas sample_hooks = sample_parsed [THEN sample_gitlab_hook]

lemma sample_valid: "event_problem (hook_ev plain_numbers (sample_request a) (sample_hook a)) = None"
  "DeliveryID (hook_ev plain_numbers (sample_request a) (sample_hook a)) = ''u1''"
proof -
  have "TrimSpace ''u1'' = ''u1''" by code_simp
  moreover have "num big (ANum ''7'') = 7" for big by (simp add: num_def float_int_def digits_val.simps is_digit_def)
  ultimately show "event_problem (hook_ev plain_numbers (sample_request a) (sample_hook a)) = None"
    "DeliveryID (hook_ev plain_numbers (sample_request a) (sample_hook a)) = ''u1''"
    by (simp_all add: event_problem_def hook_ev_def event_of_request_def merge_request_event_def payload_delivery_def
        sample_hook_def at_key_def as_map_def str_def sample_request_def hook_type_def payload_repo_def Let_def)
qed

lemma sample_authentic: "authentic ''key'' (sample_request a) (sample_text a)"
  by (simp add: authentic_def verifyToken_def sample_request_def)

lemma sample_new: "dstate (storeS (mem_init n)) d = None"
  by (simp add: mem_init_def NewMemoryDeliveryStore_def)

lemma sample_closing: "closing (sample_hook ''Close'')"
proof -
  have "ToLower ''Close'' = ''close''" by code_simp
  then show ?thesis by (simp add: closing_def says_def sample_hook_def at_key_def as_map_def str_def)
qed

text \<open>The hook frees the project on its first delivery and not on its second.\<close>

theorem closing_hook_frees_projects_witness:
  "let serve = ServeHTTP (NewHandler ''key'' (mem_service 5)) plain_numbers rev ex_call (sample_request ''Close'');
       st = (mem_init 1)\<lparr>lockS := snd (Acquire ''g/r'' ''apps'' 7 NewMemoryLocker)\<rparr>;
       seen = st\<lparr>storeS := \<lparr>dstate = [''u1'' \<mapsto> stateCommitted]\<rparr>\<rparr>
   in map_option StatusCode (fst (serve st)) = Some 202 \<and> lock_owner (lockS (snd (serve st))) ''g/r'' ''apps'' = None \<and>
      lock_owner (lockS (snd (serve seen))) ''g/r'' ''apps'' = Some 7"
proof -
  let ?st = "(mem_init 1)\<lparr>lockS := snd (Acquire ''g/r'' ''apps'' 7 NewMemoryLocker)\<rparr>"
  have "dstate (storeS ?st) d = None" for d using sample_new by simp
  then show ?thesis
    using closing_hook_frees_projects [OF sample_hooks(1) sample_authentic sample_closing sample_valid(1) prod.collapse [symmetric],
        of 5 rev ex_call ?st]
      closing_hook_frees_projects [OF sample_hooks(1) sample_authentic sample_closing sample_valid(1) prod.collapse [symmetric],
        of 5 rev ex_call "?st\<lparr>storeS := \<lparr>dstate = [''u1'' \<mapsto> stateCommitted]\<rparr>\<rparr>"]
    by (simp add: Acquire_granted sample_valid(2) Let_def)
qed

theorem hook_without_files_takes_no_lock_witness:
  "let st = snd (ServeHTTP (NewHandler ''key'' (mem_service 5)) plain_numbers rev ex_call (sample_request ''update'') (mem_init 1))
   in lockS st = NewMemoryLocker \<and> (\<exists>job. chan (queueS st) = [job] \<and> jMergeReqID job = 7 \<and> jChangedFiles job = [])"
proof -
  have files: "payload_files (sample_hook ''update'') = []"
    by (simp add: payload_files_def sample_hook_def at_key_def)
  have "hook_type (as_map (at_key (sample_hook ''update'') ''object_attributes'')) = ''merge_request.updated''"
    by code_simp
  moreover have "\<not> isCloseEvent ''merge_request.updated''" by code_simp
  ultimately have "reaches_locks 5 (hook_ev plain_numbers (sample_request ''update'') (sample_hook ''update'')) ex_call (mem_init 1)"
    using sample_valid(1) [of "''update''"] hook_ev_sel(3) [OF sample_hooks(2)]
    by (simp add: reaches_locks_def mem_init_def NewMemoryDeliveryStore_def NewMemoryDedupeStore_def key_held_def)
  from hook_without_files_takes_no_lock [OF iteration_order_rev sample_hooks(2) sample_authentic files this _ _ prod.collapse [symmetric]]
  show ?thesis by (auto simp: ex_call_def can_send_def mem_init_def Let_def)
qed

lemma sample_closed:
  "\<exists>rsp. ServeHTTP (NewHandler ''key'' (mem_service 5)) plain_numbers rev ex_call (sample_request ''Close'') (mem_init 1)
     = (Some rsp, snd (ServeHTTP (NewHandler ''key'' (mem_service 5)) plain_numbers rev ex_call
         (sample_request ''Close'') (mem_init 1))) \<and> StatusCode rsp = 202"
proof -
  let ?ev = "hook_ev plain_numbers (sample_request ''Close'') (sample_hook ''Close'')"
  have "isCloseEvent (EventType ?ev)"
    using closing_type [OF sample_closing] hook_ev_sel(3) [OF sample_hooks(1)] by simp
  then have "fst (HandleMergeRequestEvent (mem_service 5) rev ex_call ?ev (mem_init 1)) = HandleOk"
    using handle_close_frees [OF sample_valid(1) sample_new _ prod.collapse [symmetric]] by blast
  then show ?thesis
    using hook_served [OF sample_hooks(1) sample_authentic, of "mem_service 5" rev ex_call "mem_init 1"]
    by (simp add: response_of_def)
qed

theorem webhook_idempotent_witness:
  "snd (ServeHTTP (NewHandler ''key'' (mem_service 5)) plain_numbers rev ex_call (sample_request ''Close'')
     (snd (ServeHTTP (NewHandler ''key'' (mem_service 5)) plain_numbers rev ex_call (sample_request ''Close'') (mem_init 1))))
   = snd (ServeHTTP (NewHandler ''key'' (mem_service 5)) plain_numbers rev ex_call (sample_request ''Close'') (mem_init 1))"
  using sample_closed webhook_idempotent by (metis snd_conv)

theorem webhook_guard_witness:
  "\<exists>body ev. decodeEvent plain_numbers body = Inr ev \<and> ReqBody (sample_request ''Close'') = Inr body"
  using sample_closed webhook_guard [of "NewHandler ''key'' (mem_service 5)" plain_numbers rev ex_call
      "sample_request ''Close''" "mem_init 1"]
  by fastforce

text \<open>The two example payloads of \<^verbatim>\<open>docs/gitlab-setup.md\<close>, byte for byte.\<close>

definition doc_hook :: string where
  "doc_hook = join [nl]
     [''{'', ''  '' @ dq ''object_kind'' @ '': '' @ dq ''merge_request'' @ '','',
      ''  '' @ dq ''event_id'' @ '': '' @ dq ''evt-1'' @ '','',
      ''  '' @ dq ''project'' @ '': {'' @ dq ''path_with_namespace'' @ '': '' @ dq ''group/repo'' @ ''},'',
      ''  '' @ dq ''changed_files'' @ '': ['' @ dq ''apps/payments/deploy.yaml'' @ ''],'',
      ''  '' @ dq ''object_attributes'' @ '': {'', ''    '' @ dq ''iid'' @ '': 42,'',
      ''    '' @ dq ''last_commit'' @ '': {'' @ dq ''id'' @ '': '' @ dq ''abcdef'' @ ''}'', ''  }'', ''}'']"

definition doc_note :: string where
  "doc_note = join [nl]
     [''{'', ''  '' @ dq ''object_kind'' @ '': '' @ dq ''note'' @ '','',
      ''  '' @ dq ''event_id'' @ '': '' @ dq ''evt-2'' @ '','',
      ''  '' @ dq ''project'' @ '': {'' @ dq ''path_with_namespace'' @ '': '' @ dq ''group/repo'' @ ''},'',
      ''  '' @ dq ''merge_request'' @ '': {'' @ dq ''iid'' @ '': 42, '' @ dq ''last_commit'' @ '': '' @ dq ''abcdef'' @ ''},'',
      ''  '' @ dq ''object_attributes'' @ '': {'' @ dq ''note'' @ '': '' @ dq ''/thule plan'' @ ''}'', ''}'']"

lemma doc_hook_parsed:
  "parse_json doc_hook = Some (JObj
     [(''object_kind'', JStr ''merge_request''), (''event_id'', JStr ''evt-1''),
      (''project'', JObj [(''path_with_namespace'', JStr ''group/repo'')]),
      (''changed_files'', JArr [JStr ''apps/payments/deploy.yaml'']),
      (''object_attributes'', JObj [(''iid'', JNum ''42''), (''last_commit'', JObj [(''id'', JStr ''abcdef'')])])])"
  by (rule parse_json_eval [where r = "[]"]) code_simp+

lemma doc_note_parsed:
  "parse_json doc_note = Some (JObj
     [(''object_kind'', JStr ''note''), (''event_id'', JStr ''evt-2''),
      (''project'', JObj [(''path_with_namespace'', JStr ''group/repo'')]),
      (''merge_request'', JObj [(''iid'', JNum ''42''), (''last_commit'', JStr ''abcdef'')]),
      (''object_attributes'', JObj [(''note'', JStr ''/thule plan'')])])"
  by (rule parse_json_eval [where r = "[]"]) code_simp+

lemma doc_not_direct: "direct_event doc_hook = None" "direct_event doc_note = None"
  using hook_names by (simp_all add: not_direct [OF doc_hook_parsed] not_direct [OF doc_note_parsed])

text \<open>
  The two example payloads of the setup guide mean what it says: the first is an update of
  merge request 42 with its changed file, the second the \<^verbatim>\<open>/thule plan\<close> command for it.
\<close>

theorem documented_payloads_decode:
  "decodeEvent plain_numbers doc_hook = Inr \<lparr>DeliveryID = ''evt-1'', EventType = ''merge_request.updated'',
     Repository = ''group/repo'', MergeReqID = 42, HeadSHA = ''abcdef'', BaseRef = [],
     ChangedFiles = [''apps/payments/deploy.yaml'']\<rparr> \<and>
   decodeEvent plain_numbers doc_note = Inr \<lparr>DeliveryID = ''evt-2'', EventType = ''comment.plan'',
     Repository = ''group/repo'', MergeReqID = 42, HeadSHA = ''abcdef'', BaseRef = [], ChangedFiles = []\<rparr>"
  unfolding decodeEvent_def doc_not_direct Unmarshal_map_def doc_hook_parsed doc_note_parsed
  by code_simp

end
