(* ===== verification/Render.thy ===== *)
theory Render
  imports Go_Path Go_Value Config
begin

text \<open>
  Rendering, \<^verbatim>\<open>internal/render/render.go\<close>: the resources of a project read from the YAML files
  below its render path.

  The file system (\<^verbatim>\<open>os.Stat\<close>, \<^verbatim>\<open>filepath.WalkDir\<close>, \<^verbatim>\<open>os.ReadFile\<close>) and the YAML decoder
  (\<^verbatim>\<open>gopkg.in/yaml.v3\<close>) are fields of the record \<open>env\<close> that the definitions take as an argument.
\<close>

section \<open>Resources\<close>

record Resource =
  APIVersion :: string
  Kind :: string
  Namespace :: string
  Name :: string
  Body :: "(string \<times> any) list"
  SourcePath :: string

definition ID :: "Resource \<Rightarrow> string" where
  "ID r =
     (let ns = (if Namespace r = [] then ''_cluster'' else Namespace r)
      in APIVersion r @ ''|'' @ Kind r @ ''|'' @ ns @ ''|'' @ Name r)"

section \<open>The environment\<close>

text \<open>One call of the function given to \<^verbatim>\<open>WalkDir\<close>: the path, the entry's name and type, the error.\<close>

record walk_call =
  wpath :: string
  wname :: string
  wisdir :: bool
  werr :: "string option"

text \<open>
  What a YAML stream decodes to: its documents up to the end of the stream, or up to the first
  document that cannot be decoded into a mapping, with the decoder's error.
\<close>

type_synonym yaml_stream = "(string \<times> any) list list \<times> string option"

record env =
  stat :: "string \<Rightarrow> bool result"
  walk :: "string \<Rightarrow> walk_call list"
  read_file :: "string \<Rightarrow> string result"
  yaml_decode :: "string \<Rightarrow> yaml_stream"

section \<open>Parsing documents\<close>

definition str_at :: "(string \<times> any) list \<Rightarrow> string \<Rightarrow> string" where
  "str_at m k = (case at_key m k of AStr s \<Rightarrow> s | _ \<Rightarrow> [])"

definition map_at :: "(string \<times> any) list \<Rightarrow> string \<Rightarrow> (string \<times> any) list" where
  "map_at m k = (case at_key m k of AMap n \<Rightarrow> n | _ \<Rightarrow> [])"

definition doc_resource :: "string \<Rightarrow> (string \<times> any) list \<Rightarrow> Resource option" where
  "doc_resource sourcePath doc =
     (if doc = [] then None
      else
        (let apiVersion = str_at doc ''apiVersion'';
             kind = str_at doc ''kind'';
             meta = map_at doc ''metadata'';
             name = str_at meta ''name'';
             namespace = str_at meta ''namespace''
         in if apiVersion = [] \<or> kind = [] \<or> name = [] then None
            else Some \<lparr>APIVersion = apiVersion, Kind = kind, Namespace = namespace, Name = name,
                       Body = doc, SourcePath = sourcePath\<rparr>))"

definition parseYAMLDocumentsWithSource :: "env \<Rightarrow> string \<Rightarrow> string \<Rightarrow> Resource list result" where
  "parseYAMLDocumentsWithSource e content sourcePath =
     (case yaml_decode e content of
        (docs, Some err) \<Rightarrow> Inl err
      | (docs, None) \<Rightarrow> Inr (List.map_filter (doc_resource sourcePath) docs))"

definition parseYAMLDocuments :: "env \<Rightarrow> string \<Rightarrow> Resource list result" where
  "parseYAMLDocuments e content = parseYAMLDocumentsWithSource e content []"

text \<open>
  \<^verbatim>\<open>(?m)^key:\s*\S+\<close>: the key at the start of a line, and a character that is not a space after
  any number of spaces, which may be line breaks.
\<close>

definition re_space :: "char \<Rightarrow> bool" where
  "re_space c \<longleftrightarrow> c = CHR 0x09 \<or> c = nl \<or> c = CHR 0x0C \<or> c = CHR 0x0D \<or> c = CHR '' ''"

fun match_key :: "string \<Rightarrow> bool \<Rightarrow> string \<Rightarrow> bool" where
  "match_key p bol [] = False"
| "match_key p bol (c # s) =
     ((bol \<and> HasPrefix (c # s) p \<and> dropWhile re_space (drop (length p) (c # s)) \<noteq> []) \<or>
      match_key p (c = nl) s)"

definition looksLikeKubernetesManifest :: "string \<Rightarrow> bool" where
  "looksLikeKubernetesManifest content \<longleftrightarrow>
     match_key ''apiVersion:'' True content \<and> match_key ''kind:'' True content"

section \<open>Rendering a path\<close>

fun walk_files :: "walk_call list \<Rightarrow> string list \<Rightarrow> string list result" where
  "walk_files [] files = Inr files"
| "walk_files (w # ws) files =
     (case werr w of
        Some e \<Rightarrow> Inl e
      | None \<Rightarrow>
          if wisdir w then walk_files ws files
          else if HasSuffix (wname w) ''.yaml'' \<or> HasSuffix (wname w) ''.yml''
          then walk_files ws (files @ [wpath w])
          else walk_files ws files)"

fun render_files :: "env \<Rightarrow> string list \<Rightarrow> Resource list \<Rightarrow> Resource list result" where
  "render_files e [] out = Inr out"
| "render_files e (f # fs) out =
     (case read_file e f of
        Inl err \<Rightarrow> Inl err
      | Inr content \<Rightarrow>
          (case parseYAMLDocumentsWithSource e content f of
             Inl err \<Rightarrow>
               if looksLikeKubernetesManifest content
               then Inl (''parse '' @ f @ '': '' @ err)
               else render_files e fs out
           | Inr res \<Rightarrow> render_files e fs (out @ res)))"

definition renderYAMLPath :: "env \<Rightarrow> string \<Rightarrow> Resource list result" where
  "renderYAMLPath e path =
     (case stat e path of
        Inl err \<Rightarrow> Inl err
      | Inr isdir \<Rightarrow>
          (case (if isdir then walk_files (walk e path) [] else Inr [path]) of
             Inl err \<Rightarrow> Inl err
           | Inr files \<Rightarrow> render_files e (sort files) []))"

section \<open>Rendering a project\<close>

definition flux_kinds :: "string list" where
  "flux_kinds = [''HelmRelease'', ''Kustomization'', ''GitRepository'', ''OCIRepository'']"

definition filterFluxResources :: "Resource list \<Rightarrow> Config \<Rightarrow> Resource list" where
  "filterFluxResources resources c =
     (let kinds = IncludeKinds (RenderFlux (ConfRender c)) in
      if kinds = [] then resources
      else filter (\<lambda>r. Kind r \<in> set (flux_kinds @ kinds)) resources)"

definition RenderProject :: "env \<Rightarrow> string \<Rightarrow> Config \<Rightarrow> Resource list result" where
  "RenderProject e projectRoot c =
     (let target = Join [projectRoot, Path (ConfRender c)];
          mode = Mode (ConfRender c)
      in if mode \<in> {''yaml'', ''kustomize'', ''helm''} then renderYAMLPath e target
         else if mode = ''flux'' then
           (case renderYAMLPath e target of
              Inl err \<Rightarrow> Inl err
            | Inr resources \<Rightarrow> Inr (filterFluxResources resources c))
         else Inl (''render mode '' @ quoted mode @ '' not implemented''))"

section \<open>What rendering gives\<close>

text \<open>The documents of a file that are resources; a file whose stream is broken has none.\<close>

definition file_resources :: "env \<Rightarrow> string \<Rightarrow> Resource list" where
  "file_resources e f =
     (case read_file e f of
        Inl err \<Rightarrow> []
      | Inr content \<Rightarrow>
          (case parseYAMLDocumentsWithSource e content f of Inl err \<Rightarrow> [] | Inr rs \<Rightarrow> rs))"

text \<open>A file rendering stops at.\<close>

definition bad_file :: "env \<Rightarrow> string \<Rightarrow> bool" where
  "bad_file e f =
     (case read_file e f of
        Inl err \<Rightarrow> True
      | Inr content \<Rightarrow>
          (case parseYAMLDocumentsWithSource e content f of
             Inl err \<Rightarrow> looksLikeKubernetesManifest content
           | Inr rs \<Rightarrow> False))"

lemma render_files_step:
  "\<not> bad_file e f \<Longrightarrow> render_files e (f # fs) out = render_files e fs (out @ file_resources e f)"
  "bad_file e f \<Longrightarrow> \<exists>err. render_files e (f # fs) out = Inl err"
  by (auto simp: bad_file_def file_resources_def split: sum.splits)

lemma render_files_iff:
  "render_files e fs out = Inr rs \<longleftrightarrow>
     (\<forall>f \<in> set fs. \<not> bad_file e f) \<and> rs = out @ concat (map (file_resources e) fs)"
proof (induction fs arbitrary: out)
  case (Cons f fs)
  show ?case
  proof (cases "bad_file e f")
    case True
    then show ?thesis using render_files_step(2) [OF True, of fs out] by auto
  next
    case False
    then show ?thesis using Cons by (simp add: render_files_step(1) del: render_files.simps)
  qed
qed auto

definition yaml_files :: "walk_call list \<Rightarrow> string list" where
  "yaml_files ws =
     map wpath (filter (\<lambda>w. \<not> wisdir w \<and> (HasSuffix (wname w) ''.yaml'' \<or> HasSuffix (wname w) ''.yml'')) ws)"

lemma walk_files_iff:
  "walk_files ws fs = Inr out \<longleftrightarrow> (\<forall>w \<in> set ws. werr w = None) \<and> out = fs @ yaml_files ws"
  by (induction ws fs rule: walk_files.induct) (auto simp: yaml_files_def split: option.splits)

text \<open>A resource carries what its body says, and can be named.\<close>

definition well_identified :: "Resource \<Rightarrow> bool" where
  "well_identified r \<longleftrightarrow>
     APIVersion r = str_at (Body r) ''apiVersion'' \<and> Kind r = str_at (Body r) ''kind'' \<and>
     Name r = str_at (map_at (Body r) ''metadata'') ''name'' \<and>
     Namespace r = str_at (map_at (Body r) ''metadata'') ''namespace'' \<and>
     APIVersion r \<noteq> [] \<and> Kind r \<noteq> [] \<and> Name r \<noteq> []"

lemma doc_resource_Some:
  "doc_resource f doc = Some r \<Longrightarrow> well_identified r \<and> Body r = doc \<and> SourcePath r = f"
  by (auto simp: doc_resource_def well_identified_def Let_def split: if_splits)

lemma map_filter_memD: "x \<in> set (List.map_filter g xs) \<Longrightarrow> \<exists>y \<in> set xs. g y = Some x"
  by (induction xs) (auto simp: List.map_filter_simps split: option.splits)

lemma file_resources_spec:
  assumes "r \<in> set (file_resources e f)"
  shows "well_identified r \<and> SourcePath r = f"
proof -
  obtain content where rd: "read_file e f = Inr content"
    using assms by (cases "read_file e f") (auto simp: file_resources_def)
  obtain docs err where y: "yaml_decode e content = (docs, err)"
    by (cases "yaml_decode e content") auto
  have "r \<in> set (List.map_filter (doc_resource f) docs)"
    using assms rd y by (cases err) (auto simp: file_resources_def parseYAMLDocumentsWithSource_def)
  then show ?thesis using map_filter_memD doc_resource_Some by metis
qed

text \<open>The files a render path stands for, when they can be listed.\<close>

definition target_files :: "env \<Rightarrow> string \<Rightarrow> string list \<Rightarrow> bool" where
  "target_files e path files \<longleftrightarrow>
     (stat e path = Inr False \<and> files = [path]) \<or>
     (stat e path = Inr True \<and> (\<forall>w \<in> set (walk e path). werr w = None) \<and> files = sort (yaml_files (walk e path)))"

lemma renderYAMLPath_iff:
  "renderYAMLPath e path = Inr rs \<longleftrightarrow>
     (\<exists>files. target_files e path files \<and> (\<forall>f \<in> set files. \<not> bad_file e f) \<and>
        rs = concat (map (file_resources e) files))"
proof (cases "stat e path")
  case (Inr isdir)
  have "renderYAMLPath e path = Inr rs \<longleftrightarrow>
      (\<exists>files. (if isdir then walk_files (walk e path) [] else Inr [path]) = Inr files \<and>
         render_files e (sort files) [] = Inr rs)"
    using Inr by (simp add: renderYAMLPath_def split: sum.splits)
  then show ?thesis
    using Inr by (cases isdir) (auto simp: render_files_iff walk_files_iff target_files_def)
qed (simp add: renderYAMLPath_def target_files_def)

text \<open>A loaded configuration names a mode that rendering implements.\<close>

lemma RenderProject_valid:
  assumes "valid_config c"
  shows "RenderProject e root c =
    (case renderYAMLPath e (Join [root, Path (ConfRender c)]) of
       Inl err \<Rightarrow> Inl err
     | Inr rs \<Rightarrow> Inr (if Mode (ConfRender c) = ''flux'' then filterFluxResources rs c else rs))"
  using assms by (auto simp: RenderProject_def valid_config_def render_modes_def Let_def split: sum.splits)

lemma filterFlux_mem:
  "r \<in> set (filterFluxResources rs c) \<longleftrightarrow>
     r \<in> set rs \<and> (IncludeKinds (RenderFlux (ConfRender c)) = [] \<or>
       Kind r \<in> set flux_kinds \<or> Kind r \<in> set (IncludeKinds (RenderFlux (ConfRender c))))"
  by (auto simp: filterFluxResources_def Let_def)

definition kind_selected :: "Config \<Rightarrow> Resource \<Rightarrow> bool" where
  "kind_selected c r \<longleftrightarrow>
     Mode (ConfRender c) = ''flux'' \<longrightarrow> IncludeKinds (RenderFlux (ConfRender c)) \<noteq> [] \<longrightarrow>
     Kind r \<in> set flux_kinds \<or> Kind r \<in> set (IncludeKinds (RenderFlux (ConfRender c)))"

lemma RenderProject_filter:
  assumes "valid_config c"
  shows "RenderProject e root c = map_sum id (filter (kind_selected c))
    (renderYAMLPath e (Join [root, Path (ConfRender c)]))"
proof -
  have "(if Mode (ConfRender c) = ''flux'' then filterFluxResources rs c else rs) = filter (kind_selected c) rs"
    for rs
    by (auto simp: filterFluxResources_def kind_selected_def [abs_def] Let_def intro!: filter_True [symmetric] filter_cong)
  then show ?thesis
    by (simp add: RenderProject_valid [OF assms] split: sum.split)
qed

text \<open>
  C22. A project whose configuration loads is rendered from exactly the YAML files below its render
  path: it fails when the path cannot be listed, a file cannot be read or a broken file looks like a
  manifest; otherwise the result is the resources of all files, in the order of their paths. In flux
  mode with a list of kinds to include, only these kinds and the four kinds of Flux sources and
  releases are kept; in flux mode without such a list, and in every other mode, all are kept.
\<close>

theorem render_spec:
  assumes "Load rd path = Inr c"
  shows "RenderProject e root c = Inr rs \<longleftrightarrow>
    (\<exists>files. target_files e (Join [root, Path (ConfRender c)]) files \<and>
       (\<forall>f \<in> set files. \<not> bad_file e f) \<and>
       rs = filter (kind_selected c) (concat (map (file_resources e) files)))"
proof -
  have "RenderProject e root c = Inr rs \<longleftrightarrow>
      (\<exists>rs'. renderYAMLPath e (Join [root, Path (ConfRender c)]) = Inr rs' \<and> rs = filter (kind_selected c) rs')"
    unfolding RenderProject_filter [OF Load_valid [OF assms]]
    by (cases "renderYAMLPath e (Join [root, Path (ConfRender c)])") auto
  then show ?thesis by (auto simp: renderYAMLPath_iff)
qed

text \<open>
  Without a list of kinds flux mode filters nothing: an application manifest is kept beside the Flux
  resources, where the implementation notes name four kinds as the default.
\<close>

theorem flux_default_keeps_everything:
  assumes "Mode (ConfRender c) = ''flux''" and "IncludeKinds (RenderFlux (ConfRender c)) = []"
  shows "RenderProject e root c = renderYAMLPath e (Join [root, Path (ConfRender c)])"
  using assms by (simp add: RenderProject_def filterFluxResources_def Let_def split: sum.split)

text \<open>
  C23. Every rendered resource can be named: its version, kind and name are not empty, and they and
  the namespace are the ones its body states.
\<close>

theorem render_identified:
  assumes "RenderProject e root c = Inr rs" and "r \<in> set rs"
  shows "well_identified r"
proof -
  obtain rs' where y: "renderYAMLPath e (Join [root, Path (ConfRender c)]) = Inr rs'" and "r \<in> set rs'"
    using assms
    by (auto simp: RenderProject_def Let_def filterFlux_mem split: if_splits sum.splits)
  then show ?thesis
    using file_resources_spec by (auto simp: renderYAMLPath_iff)
qed

text \<open>A project with two files, one of them with a broken stream that is no manifest.\<close>

definition sample_doc :: "(string \<times> any) list" where
  "sample_doc =
     [(''apiVersion'', AStr ''v1''), (''kind'', AStr ''Secret''),
      (''metadata'', AMap [(''name'', AStr ''db''), (''namespace'', AStr ''pay'')])]"

definition sample_resource :: Resource where
  "sample_resource =
     \<lparr>APIVersion = ''v1'', Kind = ''Secret'', Namespace = ''pay'', Name = ''db'', Body = sample_doc,
      SourcePath = ''/r/manifests/b.yaml''\<rparr>"

definition sample_env :: env where
  "sample_env =
     \<lparr>stat = (\<lambda>p. Inr True),
      walk = (\<lambda>p. [\<lparr>wpath = p, wname = ''manifests'', wisdir = True, werr = None\<rparr>,
                  \<lparr>wpath = p @ ''/b.yaml'', wname = ''b.yaml'', wisdir = False, werr = None\<rparr>,
                  \<lparr>wpath = p @ ''/a.yml'', wname = ''a.yml'', wisdir = False, werr = None\<rparr>,
                  \<lparr>wpath = p @ ''/README'', wname = ''README'', wisdir = False, werr = None\<rparr>]),
      read_file = (\<lambda>p. if HasSuffix p ''b.yaml'' then Inr ''apiVersion: v1'' else Inr ''{{''),
      yaml_decode = (\<lambda>s. if s = ''{{'' then ([], Some ''bad'') else ([sample_doc, []], None))\<rparr>"

lemma sample_render: "RenderProject sample_env ''/r'' sample_config = Inr [sample_resource]"
  by code_simp

lemma sample_decode: "Decode (print_config sample_config) = Inr sample_config"
proof -
  have "print_config sample_config = CHR ''v'' # tl (print_config sample_config)" by code_simp
  then have "Decode (print_config sample_config) = decodeSimpleYAML (print_config sample_config)"
    using Decode_yaml [OF v_not_json] by metis
  also have "\<dots> = Inr sample_config" by code_simp
  finally show ?thesis .
qed

lemma sample_load: "Load (\<lambda>_. Inr (print_config sample_config)) path = Inr sample_config"
  by (simp add: Load_def sample_decode) code_simp

theorem render_spec_witness:
  "\<exists>files. target_files sample_env (Join [''/r'', Path (ConfRender sample_config)]) files \<and>
     [sample_resource] = filter (kind_selected sample_config) (concat (map (file_resources sample_env) files))"
  using sample_render unfolding render_spec [OF sample_load [of "''thule.conf''"]] by blast

theorem render_identified_witness: "well_identified sample_resource"
  by (rule render_identified [OF sample_render]) simp

section \<open>Identifiers\<close>

text \<open>The parts of an identifier are free of the separator, as the API server's names are.\<close>

definition id_clean :: "Resource \<Rightarrow> bool" where
  "id_clean r \<longleftrightarrow>
     CHR ''|'' \<notin> set (APIVersion r) \<and> CHR ''|'' \<notin> set (Kind r) \<and> CHR ''|'' \<notin> set (Namespace r) \<and>
     Namespace r \<noteq> ''_cluster''"

lemma sep_split:
  assumes "x @ c # r = y @ (c :: char) # s" and "c \<notin> set x" and "c \<notin> set y"
  shows "x = y" "r = s"
proof -
  have "split2 c (x @ c # r) = split2 c (y @ c # s)" using assms(1) by simp
  then show "x = y" "r = s" unfolding split2_append [OF assms(2)] split2_append [OF assms(3)] by simp_all
qed

lemma id_parts:
  assumes "a @ c # b @ c # n @ c # d = a' @ c # b' @ c # n' @ (c :: char) # d'"
    and "c \<notin> set a \<union> set b \<union> set n" and "c \<notin> set a' \<union> set b' \<union> set n'"
  shows "a = a' \<and> b = b' \<and> n = n' \<and> d = d'"
proof -
  have a: "a = a'" and 1: "b @ c # n @ c # d = b' @ c # n' @ c # d'"
    using sep_split [OF assms(1)] assms(2,3) by blast+
  have b: "b = b'" and 2: "n @ c # d = n' @ c # d'"
    using sep_split [OF 1] assms(2,3) by blast+
  show ?thesis using sep_split [OF 2] assms(2,3) a b by blast
qed

definition id_namespace :: "Resource \<Rightarrow> string" where
  "id_namespace r = (if Namespace r = [] then ''_cluster'' else Namespace r)"

lemma ID_parts: "ID r = APIVersion r @ CHR ''|'' # Kind r @ CHR ''|'' # id_namespace r @ CHR ''|'' # Name r"
  by (simp add: ID_def id_namespace_def)

lemma id_namespace_inj:
  "id_clean r \<Longrightarrow> id_clean s \<Longrightarrow> id_namespace r = id_namespace s \<longleftrightarrow> Namespace r = Namespace s"
  by (auto simp: id_clean_def id_namespace_def)

lemma id_clean_parts:
  "id_clean r \<Longrightarrow> CHR ''|'' \<notin> set (APIVersion r) \<union> set (Kind r) \<union> set (id_namespace r)"
  by (simp add: id_clean_def id_namespace_def)

text \<open>
  Two resources have the same identifier exactly when they have the same version, kind,
  namespace and name, for parts free of the separator.
\<close>

theorem ID_inj:
  assumes "id_clean r" and "id_clean s"
  shows "ID r = ID s \<longleftrightarrow>
    APIVersion r = APIVersion s \<and> Kind r = Kind s \<and> Namespace r = Namespace s \<and> Name r = Name s"
  using id_parts [OF _ id_clean_parts [OF assms(1)] id_clean_parts [OF assms(2)], of "Name r" "Name s"]
    id_namespace_inj [OF assms]
  unfolding ID_parts by metis

theorem ID_inj_witness:
  "ID sample_resource \<noteq> ID (sample_resource\<lparr>Namespace := []\<rparr>)"
  using ID_inj [of sample_resource "sample_resource\<lparr>Namespace := []\<rparr>"]
  by (simp add: id_clean_def sample_resource_def)

end
