(* ===== verification/Diff.thy ===== *)
theory Diff
  imports Render
begin

text \<open>
  The diff engine, \<^verbatim>\<open>internal/diff/diff.go\<close>: normalisation of resource bodies, the comparison of
  desired and live resources, and what is reported for a patched resource.

  \<^verbatim>\<open>yaml.Marshal\<close> (of \<^verbatim>\<open>gopkg.in/yaml.v3\<close>), the \<^verbatim>\<open>%v\<close> form of a value that JSON refuses, and the text
  \<^verbatim>\<open>Marshal\<close> prints for the \<^verbatim>\<open>float64\<close> a number is read as (None: out of its range) are fields of the
  record \<open>diff_env\<close>. A body is the association list of its map; \<^verbatim>\<open>nil\<close> and the empty
  map, which normalisation identifies, are both the empty list.
\<close>

record diff_env =
  yaml_marshal :: "any \<Rightarrow> string result"
  sprint_v :: "any \<Rightarrow> string"
  float64_text :: "string \<Rightarrow> string option"

datatype Action = Create | Patch | Delete | NoOp

record Change =
  ChangeID :: string
  ChangeAction :: Action
  ChangedKeys :: "string list"
  ChangedPaths :: "string list"
  AttributeDiff :: "string list"
  Risks :: "string list"
  CurrentYAML :: string
  DesiredYAML :: string

record Summary =
  Creates :: nat
  Patches :: nat
  Deletes :: nat
  NoOps :: nat

record Options =
  PruneDeletes :: bool
  OptIgnoreFields :: "string list"
  IgnoreActualExtraFields :: bool

section \<open>Normalisation\<close>

text \<open>
  A copy through JSON. \<^verbatim>\<open>Unmarshal\<close> turns every number into a \<^verbatim>\<open>float64\<close> and leaves nil for one that is
  out of range; its error is ignored, so what it decoded stays. A body that \<^verbatim>\<open>Marshal\<close> refuses gives
  the empty text, which decodes to nothing. A printed \<^verbatim>\<open>float64\<close> is the text of a number.
\<close>

definition float64 :: "diff_env \<Rightarrow> string \<Rightarrow> any" where
  "float64 e t =
     (case float64_text e t of Some u \<Rightarrow> (if num_text u then ANum u else ANil) | None \<Rightarrow> ANil)"

fun decoded :: "diff_env \<Rightarrow> json \<Rightarrow> any" where
  "decoded e JNull = ANil"
| "decoded e (JBool b) = ABool b"
| "decoded e (JNum t) = float64 e t"
| "decoded e (JStr s) = AStr s"
| "decoded e (JArr xs) = AList (map (decoded e) xs)"
| "decoded e (JObj ms) = AMap (put_all (map (\<lambda>(k, v). (k, decoded e v)) ms))"

definition deepCopyMap :: "diff_env \<Rightarrow> (string \<times> any) list \<Rightarrow> (string \<times> any) list" where
  "deepCopyMap e inp =
     (case parse_json (marshal_bytes (AMap inp)) of
        Some (JObj ms) \<Rightarrow> put_all (map (\<lambda>(k, v). (k, decoded e v)) ms)
      | _ \<Rightarrow> [])"

fun pruneNilValues :: "any \<Rightarrow> any" where
  "pruneNilValues (AMap m) =
     AMap (filter (\<lambda>kv. snd kv \<noteq> ANil) (map (\<lambda>(k, vv). (k, pruneNilValues vv)) m))"
| "pruneNilValues (AList xs) = AList (map pruneNilValues xs)"
| "pruneNilValues v = v"

definition cleaned :: "(string \<times> any) list \<Rightarrow> (string \<times> any) list" where
  "cleaned cp = (case pruneNilValues (AMap cp) of AMap m \<Rightarrow> m | _ \<Rightarrow> cp)"

definition last_applied :: string where
  "last_applied = ''kubectl.kubernetes.io/last-applied-configuration''"

definition clean_annotations :: "(string \<times> any) list \<Rightarrow> (string \<times> any) list" where
  "clean_annotations m =
     (case at_key m ''annotations'' of
        AMap anns \<Rightarrow>
          (let anns = del_key last_applied anns in
           if anns = [] then del_key ''annotations'' m else set_key ''annotations'' (AMap anns) m)
      | _ \<Rightarrow> m)"

definition clean_labels :: "(string \<times> any) list \<Rightarrow> (string \<times> any) list" where
  "clean_labels m =
     (case at_key m ''labels'' of
        AMap labels \<Rightarrow>
          set_key ''labels'' (AMap (del_key ''kustomize.toolkit.fluxcd.io/namespace''
            (del_key ''kustomize.toolkit.fluxcd.io/name'' labels))) m
      | _ \<Rightarrow> m)"

definition clean_metadata :: "(string \<times> any) list \<Rightarrow> (string \<times> any) list" where
  "clean_metadata cp =
     (case at_key cp ''metadata'' of
        AMap m \<Rightarrow>
          (let m = del_key ''generation'' (del_key ''creationTimestamp'' (del_key ''uid''
                     (del_key ''resourceVersion'' (del_key ''managedFields'' m))))
           in set_key ''metadata'' (AMap (clean_labels (clean_annotations m))) cp)
      | _ \<Rightarrow> cp)"

text \<open>
  \<^verbatim>\<open>strings.EqualFold(fmt.Sprint(v), "none")\<close>: only a string prints as a word that can fold to
  \<open>none\<close>.
\<close>

definition sprint_is_none :: "any \<Rightarrow> bool" where
  "sprint_is_none v = (case v of AStr s \<Rightarrow> EqualFold_ascii s ''none'' | _ \<Rightarrow> False)"

definition clean_crd :: "string \<Rightarrow> (string \<times> any) list \<Rightarrow> (string \<times> any) list" where
  "clean_crd kind cp =
     (if kind = ''CustomResourceDefinition'' then
        (case at_key cp ''spec'' of
           AMap spec \<Rightarrow>
             (let spec = (case at_key spec ''conversion'' of
                            AMap conv \<Rightarrow>
                              if sprint_is_none (at_key conv ''strategy'')
                              then del_key ''conversion'' spec else spec
                          | _ \<Rightarrow> spec)
              in set_key ''spec'' (AMap spec) cp)
         | _ \<Rightarrow> cp)
      else cp)"

fun delete_parts :: "string list \<Rightarrow> (string \<times> any) list \<Rightarrow> (string \<times> any) list" where
  "delete_parts [] obj = obj"
| "delete_parts [p] obj = del_key p obj"
| "delete_parts (p # q # ps) obj =
     (case at_key obj p of
        AMap nxt \<Rightarrow> set_key p (AMap (delete_parts (q # ps) nxt)) obj
      | _ \<Rightarrow> obj)"

definition deletePath :: "string \<Rightarrow> (string \<times> any) list \<Rightarrow> (string \<times> any) list" where
  "deletePath path obj = delete_parts (split_on (CHR ''.'') path) obj"

definition normalize :: "diff_env \<Rightarrow> Resource \<Rightarrow> string list \<Rightarrow> Resource" where
  "normalize e r ignore =
     (let cp = deepCopyMap e (Body r);
          cp = cleaned cp;
          cp = del_key ''status'' cp;
          cp = clean_metadata cp;
          cp = clean_crd (Kind r) cp
      in r\<lparr>Body := foldl (\<lambda>cp p. deletePath p cp) cp ignore\<rparr>)"

section \<open>Comparison\<close>

definition equalAny :: "any \<Rightarrow> any \<Rightarrow> bool" where
  "equalAny a b \<longleftrightarrow> marshal_bytes a = marshal_bytes b"

definition equal_body :: "(string \<times> any) list \<Rightarrow> (string \<times> any) list \<Rightarrow> bool" where
  "equal_body a b \<longleftrightarrow> marshal_bytes (AMap a) = marshal_bytes (AMap b)"

lemma size_enumerate [termination_simp]:
  "(i, d) \<in> set (List.enumerate n xs) \<Longrightarrow> size d < Suc (size_list size xs)"
  by (induction xs arbitrary: n) (fastforce simp: less_Suc_eq_le)+

fun projectActualToDesired :: "any \<Rightarrow> any \<Rightarrow> any" where
  "projectActualToDesired (AMap dv) actual =
     (case actual of
        AMap av \<Rightarrow>
          AMap (map (\<lambda>(k, dvv). (k, projectActualToDesired dvv (at_key av k)))
                  (filter (\<lambda>kv. map_of av (fst kv) \<noteq> None) dv))
      | _ \<Rightarrow> actual)"
| "projectActualToDesired (AList dv) actual =
     (case actual of
        AList av \<Rightarrow>
          AList (map (\<lambda>(i, d). if i \<ge> length av then ANil else projectActualToDesired d (av ! i))
                   (List.enumerate 0 dv))
      | _ \<Rightarrow> actual)"
| "projectActualToDesired desired actual = actual"

definition union_keys :: "(string \<times> any) list \<Rightarrow> (string \<times> any) list \<Rightarrow> string list" where
  "union_keys a b = sorted_keys (map fst a @ map fst b)"

definition changedTopLevelKeys :: "(string \<times> any) list \<Rightarrow> (string \<times> any) list \<Rightarrow> string list" where
  "changedTopLevelKeys a b = filter (\<lambda>k. \<not> equalAny (at_key a k) (at_key b k)) (union_keys a b)"

definition detectRisks :: "Resource \<Rightarrow> Resource \<Rightarrow> string list \<Rightarrow> string list" where
  "detectRisks desired actual changed =
     (if ''spec'' \<in> set changed \<and> Kind desired \<in> {''Deployment'', ''StatefulSet'', ''DaemonSet''}
      then [''workload-spec-change''] else []) @
     (if ''metadata'' \<in> set changed then [''metadata-change''] else []) @
     (if Kind desired = ''CustomResourceDefinition'' then [''crd-change''] else [])"

definition displayPath :: "string \<Rightarrow> string" where
  "displayPath path = (if path = [] then ''<root>'' else path)"

definition child_path :: "string \<Rightarrow> string \<Rightarrow> string" where
  "child_path path k = (if path \<noteq> [] then path @ ''.'' @ k else k)"

lemma size_map_of_snd [termination_simp]:
  "map_of m k = Some v \<Longrightarrow> size v < Suc (size_list (\<lambda>x. Suc (size (snd x))) m)"
  by (induction m) (auto simp: less_Suc_eq_le intro: trans_le_add2 split: if_splits)

lemma size_at_key [termination_simp]: "size (at_key m k) < Suc (size_list (\<lambda>x. Suc (size (snd x))) m)"
  by (auto simp: at_key_def dest: size_map_of_snd split: option.splits)

text \<open>The paths \<^verbatim>\<open>walk\<close> records, in the order of the walk.\<close>

fun walk_paths :: "string \<Rightarrow> any \<Rightarrow> any \<Rightarrow> string list" where
  "walk_paths path d a =
     (if equalAny d a then []
      else
        (case d of
           AMap dm \<Rightarrow>
             (case a of
                AMap am \<Rightarrow>
                  concat (map (\<lambda>k. walk_paths (child_path path k) (at_key dm k) (at_key am k))
                            (union_keys dm am))
              | _ \<Rightarrow> [displayPath path])
         | _ \<Rightarrow> [displayPath path]))"

declare walk_paths.simps [simp del]

definition changedFieldPaths :: "any \<Rightarrow> any \<Rightarrow> string list" where
  "changedFieldPaths desired actual = sorted_keys (walk_paths [] desired actual)"

definition formatValue :: "diff_env \<Rightarrow> any \<Rightarrow> string" where
  "formatValue e v = (case Marshal v of None \<Rightarrow> sprint_v e v | Some b \<Rightarrow> b)"

definition minus_line :: "diff_env \<Rightarrow> string \<Rightarrow> any \<Rightarrow> string" where
  "minus_line e path v = ''- '' @ displayPath path @ '': '' @ formatValue e v"

definition plus_line :: "diff_env \<Rightarrow> string \<Rightarrow> any \<Rightarrow> string" where
  "plus_line e path v = ''+ '' @ displayPath path @ '': '' @ formatValue e v"

definition index_path :: "string \<Rightarrow> nat \<Rightarrow> string" where
  "index_path path i = displayPath path @ ''['' @ nat_str i @ '']''"

lemma size_zipped:
  assumes "(i, x, y) \<in> set (List.enumerate 0 (zip ds as))"
  shows "size (x :: any) < Suc (size_list size ds)"
proof -
  have "x \<in> set ds" using assms by (auto simp: in_set_enumerate_eq dest: in_set_zipE nth_mem)
  then show ?thesis by (auto simp: less_Suc_eq_le intro: size_list_estimation')
qed

lemma size_option_map_of:
  "size_option size (map_of m k) < Suc (Suc (size_list (size_prod (\<lambda>x. 0) size) (m :: (string \<times> any) list)))"
  by (cases "map_of m k") (auto dest: size_any_map_of)

text \<open>The lines \<^verbatim>\<open>walk\<close> appends; an absent value is None.\<close>

function walk_lines :: "diff_env \<Rightarrow> string \<Rightarrow> any option \<Rightarrow> any option \<Rightarrow> string list" where
  "walk_lines e path (Some d) (Some a) =
     (case (d, a) of
        (AMap dm, AMap am) \<Rightarrow>
          concat (map (\<lambda>k. walk_lines e (child_path path k) (map_of dm k) (map_of am k)) (union_keys dm am))
      | (AList ds, AList as) \<Rightarrow>
          if length ds \<noteq> length as then [minus_line e path a, plus_line e path d]
          else concat (map (\<lambda>(i, x, y). walk_lines e (index_path path i) (Some x) (Some y))
                         (List.enumerate 0 (zip ds as)))
      | _ \<Rightarrow> if equalAny d a then [] else [minus_line e path a, plus_line e path d])"
| "walk_lines e path (Some d) None = [plus_line e path d]"
| "walk_lines e path None (Some a) = [minus_line e path a]"
| "walk_lines e path None None = []"
  by pat_completeness auto

termination
  by (relation "measure (\<lambda>(e, path, d, a). size_option size d)")
    (auto simp: size_zipped size_option_map_of)

definition buildAttributeDiffLines :: "diff_env \<Rightarrow> any \<Rightarrow> any \<Rightarrow> string list" where
  "buildAttributeDiffLines e desired actual = walk_lines e [] (Some desired) (Some actual)"

definition mustYAML :: "diff_env \<Rightarrow> any \<Rightarrow> string" where
  "mustYAML e obj =
     (if obj = ANil then []
      else (case yaml_marshal e obj of
              Inl err \<Rightarrow> ''# failed to marshal yaml: '' @ err @ [nl]
            | Inr b \<Rightarrow> b))"

section \<open>Computing the changes\<close>

type_synonym res_map = "string \<rightharpoonup> Resource"

definition by_id :: "diff_env \<Rightarrow> Options \<Rightarrow> Resource list \<Rightarrow> res_map" where
  "by_id e opts rs = foldl (\<lambda>m r. m(ID r \<mapsto> normalize e r (OptIgnoreFields opts))) Map.empty rs"

definition new_change :: "string \<Rightarrow> Action \<Rightarrow> Change" where
  "new_change k act =
     \<lparr>ChangeID = k, ChangeAction = act, ChangedKeys = [], ChangedPaths = [], AttributeDiff = [],
      Risks = [], CurrentYAML = [], DesiredYAML = []\<rparr>"

text \<open>The live body a desired body is compared with.\<close>

definition compared_body :: "Options \<Rightarrow> Resource \<Rightarrow> Resource \<Rightarrow> (string \<times> any) list" where
  "compared_body opts d a =
     (if IgnoreActualExtraFields opts then
        (case projectActualToDesired (AMap (Body d)) (AMap (Body a)) of
           AMap projected \<Rightarrow> projected
         | _ \<Rightarrow> Body a)
      else Body a)"

definition patch_change :: "diff_env \<Rightarrow> string \<Rightarrow> Resource \<Rightarrow> Resource \<Rightarrow> (string \<times> any) list \<Rightarrow> Change" where
  "patch_change e k d a actualBody =
     (let desiredBody = Body d;
          keys = changedTopLevelKeys desiredBody actualBody
      in (new_change k Patch)
           \<lparr>ChangedKeys := keys,
            ChangedPaths := changedFieldPaths (AMap desiredBody) (AMap actualBody),
            AttributeDiff := buildAttributeDiffLines e (AMap desiredBody) (AMap actualBody),
            Risks := detectRisks d a keys,
            CurrentYAML := mustYAML e (AMap actualBody),
            DesiredYAML := mustYAML e (AMap desiredBody)\<rparr>)"

text \<open>The loop over the sorted keys. A key comes from one of the two maps, so the last case is idle.\<close>

fun compute_loop ::
  "diff_env \<Rightarrow> Options \<Rightarrow> res_map \<Rightarrow> res_map \<Rightarrow> string list \<Rightarrow> Change list \<times> Summary \<Rightarrow> Change list \<times> Summary"
where
  "compute_loop e opts dm am [] acc = acc"
| "compute_loop e opts dm am (k # ks) (changes, summary) =
     compute_loop e opts dm am ks
       (case (dm k, am k) of
          (Some d, None) \<Rightarrow>
            (changes @ [(new_change k Create)\<lparr>DesiredYAML := mustYAML e (AMap (Body d))\<rparr>],
             summary\<lparr>Creates := Creates summary + 1\<rparr>)
        | (None, Some a) \<Rightarrow>
            if PruneDeletes opts then
              (changes @ [(new_change k Delete)\<lparr>CurrentYAML := mustYAML e (AMap (Body a))\<rparr>],
               summary\<lparr>Deletes := Deletes summary + 1\<rparr>)
            else (changes, summary)
        | (Some d, Some a) \<Rightarrow>
            let actualBody = compared_body opts d a in
            if equal_body (Body d) actualBody then
              (changes @ [new_change k NoOp], summary\<lparr>NoOps := NoOps summary + 1\<rparr>)
            else
              (changes @ [patch_change e k d a actualBody],
               summary\<lparr>Patches := Patches summary + 1\<rparr>)
        | (None, None) \<Rightarrow> (changes, summary))"

definition empty_summary :: Summary where
  "empty_summary = \<lparr>Creates = 0, Patches = 0, Deletes = 0, NoOps = 0\<rparr>"

definition Compute :: "diff_env \<Rightarrow> Resource list \<Rightarrow> Resource list \<Rightarrow> Options \<Rightarrow> Change list \<times> Summary" where
  "Compute e desired actual opts =
     compute_loop e opts (by_id e opts desired) (by_id e opts actual)
       (sorted_keys (map ID desired @ map ID actual)) ([], empty_summary)"

end
