(* ===== verification/Policy.thy ===== *)
theory Policy
  imports Render
begin

text \<open>
  Policy findings, \<^verbatim>\<open>internal/policy/evaluator.go\<close>, and what the configuration loader makes of them.
\<close>

datatype Severity = SeverityWarn | SeverityError

record Finding =
  ResourceID :: string
  RuleID :: string
  FindingSeverity :: Severity
  Message :: string

definition secret_finding :: "Resource \<Rightarrow> Finding" where
  "secret_finding r =
     \<lparr>ResourceID = ID r, RuleID = ''review-secret-change'', FindingSeverity = SeverityWarn,
      Message = ''Secret change detected; validate secret rotation and source of truth''\<rparr>"

definition binding_finding :: "Resource \<Rightarrow> Finding" where
  "binding_finding r =
     \<lparr>ResourceID = ID r, RuleID = ''restrict-cluster-admin-bindings'', FindingSeverity = SeverityError,
      Message = ''cluster-wide RBAC binding change requires security review: '' @ ID r\<rparr>"

fun evaluate_loop :: "string \<Rightarrow> Resource list \<Rightarrow> Finding list \<Rightarrow> Finding list" where
  "evaluate_loop profile [] findings = findings"
| "evaluate_loop profile (r # rs) findings =
     (let findings = (if Kind r = ''Secret'' then findings @ [secret_finding r] else findings);
          findings = (if profile = ''strict'' \<and> Kind r = ''ClusterRoleBinding''
                      then findings @ [binding_finding r] else findings)
      in evaluate_loop profile rs findings)"

definition Evaluate :: "Resource list \<Rightarrow> string \<Rightarrow> Finding list" where
  "Evaluate resources profile =
     (let profile = (if profile = [] then ''baseline'' else profile)
      in evaluate_loop profile resources [])"

section \<open>What is found\<close>

definition resource_findings :: "string \<Rightarrow> Resource \<Rightarrow> Finding list" where
  "resource_findings profile r =
     (if Kind r = ''Secret'' then [secret_finding r]
      else if profile = ''strict'' \<and> Kind r = ''ClusterRoleBinding'' then [binding_finding r] else [])"

lemma evaluate_loop_spec: "evaluate_loop p rs fs = fs @ concat (map (resource_findings p) rs)"
  by (induction p rs fs rule: evaluate_loop.induct) (auto simp: resource_findings_def Let_def)

lemma Evaluate_spec: "Evaluate rs profile = concat (map (resource_findings profile) rs)"
proof -
  have "resource_findings ''baseline'' = resource_findings []"
    by (simp add: resource_findings_def fun_eq_iff)
  then show ?thesis by (simp add: Evaluate_def evaluate_loop_spec)
qed

text \<open>
  A secret is always found, once per resource and in the order of the resources; a cluster-wide
  binding is an error under the strict profile and not found under any other.
\<close>

theorem evaluate_spec:
  "Evaluate rs profile =
     map (\<lambda>r. if Kind r = ''Secret'' then secret_finding r else binding_finding r)
       (filter (\<lambda>r. Kind r = ''Secret'' \<or> profile = ''strict'' \<and> Kind r = ''ClusterRoleBinding'') rs)"
  unfolding Evaluate_spec by (induction rs) (auto simp: resource_findings_def)

text \<open>
  C40. Under a configuration written in YAML no finding is ever an error: the reader drops the
  profile, so the strict rule is never applied, whatever the file says.
\<close>

theorem yaml_config_never_strict:
  assumes "parse_json inp = None" and "Decode inp = Inr c"
  shows "\<forall>f \<in> set (Evaluate rs (Profile (ConfPolicy c))). FindingSeverity f = SeverityWarn"
proof -
  have "decodeSimpleYAML inp = Inr c"
    using assms by (simp add: Decode_def unmarshal_config_def Unmarshal_struct_def)
  from decode_profile [OF this] show ?thesis
    unfolding Evaluate_spec by (auto simp: resource_findings_def secret_finding_def split: if_splits)
qed

theorem yaml_config_never_strict_witness:
  "\<exists>c. Decode strict_yaml = Inr c \<and>
     list_all (\<lambda>f. FindingSeverity f = SeverityWarn)
       (Evaluate [sample_resource\<lparr>Kind := ''ClusterRoleBinding''\<rparr>] (Profile (ConfPolicy c)))"
proof -
  have v: "strict_yaml = CHR ''v'' # tl strict_yaml" by code_simp
  then have p: "parse_json strict_yaml = None"
    using parse_json_start [of "CHR ''v''" "tl strict_yaml"] v_not_json
    by (cases "parse_json strict_yaml") auto
  have "decodeSimpleYAML strict_yaml = Inr (empty_config\<lparr>Version := ''v1''\<rparr>)" by code_simp
  then have "Decode strict_yaml = Inr (empty_config\<lparr>Version := ''v1''\<rparr>)"
    using v Decode_yaml [OF v_not_json] by metis
  then show ?thesis unfolding list_all_iff using yaml_config_never_strict [OF p] by blast
qed

end
