(* ===== verification/Report.thy ===== *)
theory Report
  imports Diff Policy
begin

text \<open>
  The plan comment, \<^verbatim>\<open>internal/report/report.go\<close>. A \<^verbatim>\<open>strings.Builder\<close> is the string written so far.
\<close>

section \<open>Formatting\<close>

definition defaultMaxResourceDetails :: int where "defaultMaxResourceDetails = 200"
definition maxCommentChars :: nat where "maxCommentChars = 900000"
definition maxYAMLCharsPerBlock :: nat where "maxYAMLCharsPerBlock = 12000"

record ProjectPlan =
  PlanProject :: string
  PlanChanges :: "Change list"
  PlanSummary :: Summary
  PlanFindings :: "Finding list"

definition action_str :: "Action \<Rightarrow> string" where
  "action_str a = (case a of Create \<Rightarrow> ''CREATE'' | Patch \<Rightarrow> ''PATCH'' | Delete \<Rightarrow> ''DELETE'' | NoOp \<Rightarrow> ''NO-OP'')"

definition severity_str :: "Severity \<Rightarrow> string" where
  "severity_str s = (case s of SeverityWarn \<Rightarrow> ''WARN'' | SeverityError \<Rightarrow> ''ERROR'')"

text \<open>\<^verbatim>\<open>%v\<close> of a slice of strings.\<close>

definition show_slice :: "string list \<Rightarrow> string" where
  "show_slice xs = ''['' @ join '' '' xs @ '']''"

definition summaryLine :: "Summary \<Rightarrow> string" where
  "summaryLine s =
     ''Summary: CREATE='' @ nat_str (Creates s) @ '' PATCH='' @ nat_str (Patches s) @
     '' DELETE='' @ nat_str (Deletes s) @ '' NO-OP='' @ nat_str (NoOps s)"

definition truncated_mark :: string where
  "truncated_mark = nl # ''# ... truncated ...''"

definition truncateYAMLBlock :: "string \<Rightarrow> string" where
  "truncateYAMLBlock input =
     (let trimmed = TrimSpace input
      in if length trimmed \<le> maxYAMLCharsPerBlock then trimmed
         else TrimSpace (take maxYAMLCharsPerBlock trimmed) @ truncated_mark)"

text \<open>The loop of \<^verbatim>\<open>truncateDiffLines\<close>; \<open>first\<close> is \<^verbatim>\<open>i == 0\<close>.\<close>

fun diff_lines_loop :: "bool \<Rightarrow> nat \<Rightarrow> string list \<Rightarrow> string \<Rightarrow> string" where
  "diff_lines_loop first remaining [] b = b"
| "diff_lines_loop first remaining (line # lines) b =
     (if \<not> first \<and> remaining \<le> 1 then b @ truncated_mark
      else
        (let b = (if first then b else b @ [nl]);
             remaining = (if first then remaining else remaining - 1)
         in if length line \<le> remaining then
              diff_lines_loop False (remaining - length line) lines (b @ line)
            else b @ take remaining line @ truncated_mark))"

definition truncateDiffLines :: "string list \<Rightarrow> string" where
  "truncateDiffLines lines =
     (if lines = [] then [] else TrimSpace (diff_lines_loop True maxYAMLCharsPerBlock lines []))"

definition fence :: string where "fence = ''```''"

definition renderChangeDetails :: "Change \<Rightarrow> string" where
  "renderChangeDetails c =
     (case ChangeAction c of
        Create \<Rightarrow>
          if DesiredYAML c = [] then []
          else [nl] @ fence @ ''yaml'' @ [nl] @ ''# desired'' @ [nl] @ truncateYAMLBlock (DesiredYAML c) @
               [nl] @ fence @ [nl]
      | Delete \<Rightarrow>
          if CurrentYAML c = [] then []
          else [nl] @ fence @ ''yaml'' @ [nl] @ ''# current'' @ [nl] @ truncateYAMLBlock (CurrentYAML c) @
               [nl] @ fence @ [nl]
      | Patch \<Rightarrow>
          if AttributeDiff c \<noteq> [] then
            [nl] @ fence @ ''diff'' @ [nl] @ truncateDiffLines (AttributeDiff c) @ [nl] @ fence @ [nl]
          else
            (let parts =
               (if CurrentYAML c \<noteq> [] then
                  [fence @ ''yaml'' @ [nl] @ ''# current'' @ [nl] @ truncateYAMLBlock (CurrentYAML c) @ [nl] @ fence]
                else []) @
               (if DesiredYAML c \<noteq> [] then
                  [fence @ ''yaml'' @ [nl] @ ''# desired'' @ [nl] @ truncateYAMLBlock (DesiredYAML c) @ [nl] @ fence]
                else [])
             in if parts = [] then [] else [nl] @ join [nl] parts @ [nl])
      | NoOp \<Rightarrow> [])"

definition change_line :: "Change \<Rightarrow> string" where
  "change_line c =
     ''- `'' @ action_str (ChangeAction c) @ ''` '' @ ChangeID c @
     (if ChangedKeys c \<noteq> [] then '' changed='' @ show_slice (ChangedKeys c) else []) @
     (if ChangedPaths c \<noteq> [] then '' paths='' @ show_slice (ChangedPaths c) else []) @
     (if Risks c \<noteq> [] then '' risks='' @ show_slice (Risks c) else [])"

section \<open>Sections of a plan\<close>

text \<open>The loop over the changes returns the text, the number printed, and whether the size limit was hit.\<close>

fun changes_loop :: "int \<Rightarrow> nat \<Rightarrow> Change list \<Rightarrow> string \<Rightarrow> nat \<Rightarrow> string \<times> nat \<times> bool" where
  "changes_loop maxd tot [] b printed = (b, printed, False)"
| "changes_loop maxd tot (c # cs) b printed =
     (if ChangeAction c = NoOp then changes_loop maxd tot cs b printed
      else if int printed \<ge> maxd then
        (b @ ''- ... truncated ('' @ nat_str (tot - printed) @ '' additional resources)'' @ [nl], printed, False)
      else if length b + length (change_line c) + 1 > maxCommentChars then (b, printed, True)
      else
        (let b = b @ change_line c @ [nl];
             details = renderChangeDetails c
         in if details \<noteq> [] \<and> length b + length details > maxCommentChars then (b, printed, True)
            else changes_loop maxd tot cs (b @ details) (printed + 1)))"

definition finding_line :: "Finding \<Rightarrow> string" where
  "finding_line f =
     ''- `'' @ severity_str (FindingSeverity f) @ ''` `'' @ RuleID f @ ''` '' @ Message f @
     '' ('' @ ResourceID f @ '')'' @ [nl]"

fun findings_loop :: "Finding list \<Rightarrow> string \<Rightarrow> string" where
  "findings_loop [] b = b"
| "findings_loop (f # fs) b =
     (if length b + length (finding_line f) > maxCommentChars
      then b @ ''- ... truncated (comment size limit)'' @ [nl]
      else findings_loop fs (b @ finding_line f))"

definition non_noop :: "Change list \<Rightarrow> nat" where
  "non_noop cs = length (filter (\<lambda>c. ChangeAction c \<noteq> NoOp) cs)"

definition appendPlanSections ::
  "string \<Rightarrow> Change list \<Rightarrow> Finding list \<Rightarrow> int \<Rightarrow> string \<Rightarrow> string \<Rightarrow> string"
where
  "appendPlanSections b changes findings maxd changesHeading findingsHeading =
     (let (b, printed, sizeTruncated) = changes_loop maxd (non_noop changes) changes (b @ changesHeading @ [nl]) 0;
          b = (if sizeTruncated
               then b @ ''- ... truncated ('' @ nat_str (non_noop changes - printed) @
                      '' additional resources; comment size limit)'' @ [nl]
               else b);
          b = (if printed = 0 then b @ ''- none'' @ [nl] else b);
          b = b @ [nl] @ findingsHeading @ [nl]
      in if findings = [] then b @ ''- none'' @ [nl] else findings_loop findings b)"

section \<open>Comments\<close>

definition plan_title :: string where "plan_title = ''## Thule Plan'' @ [nl, nl]"

definition read_only_note :: string where
  "read_only_note =
     nl # ''> Thule is read-only and did not apply these changes. Flux or repository operators must reconcile/apply.'' @ [nl]"

definition no_changes_note :: string where
  "no_changes_note = nl # ''> Thule is read-only and did not apply any changes.'' @ [nl]"

definition max_details :: "int \<Rightarrow> int" where
  "max_details m = (if m \<le> 0 then defaultMaxResourceDetails else m)"

definition BuildPlanComment ::
  "string \<Rightarrow> string \<Rightarrow> Change list \<Rightarrow> Summary \<Rightarrow> Finding list \<Rightarrow> int \<Rightarrow> string"
where
  "BuildPlanComment project sha changes summary findings maxResourceDetails =
     appendPlanSections
       (plan_title @ ''Project: `'' @ project @ ''`  '' @ [nl] @ ''Commit: `'' @ sha @ ''`'' @ [nl, nl] @
        summaryLine summary @ [nl, nl])
       changes findings (max_details maxResourceDetails) ''### Changes'' ''### Policy Findings''
     @ read_only_note"

fun files_loop :: "nat \<Rightarrow> nat \<Rightarrow> nat \<Rightarrow> string list \<Rightarrow> string" where
  "files_loop maxFiles tot i [] = []"
| "files_loop maxFiles tot i (f # fs) =
     (if i \<ge> maxFiles then ''- ... truncated ('' @ nat_str (tot - maxFiles) @ '' additional files)'' @ [nl]
      else ''- `'' @ f @ ''`'' @ [nl] @ files_loop maxFiles tot (i + 1) fs)"

definition BuildNoChangesComment :: "string \<Rightarrow> string list \<Rightarrow> int \<Rightarrow> string" where
  "BuildNoChangesComment sha changedFiles maxFiles =
     (let maxFiles = (if maxFiles \<le> 0 then 50 else maxFiles)
      in plan_title @ ''Commit: `'' @ sha @ ''`'' @ [nl, nl] @
         ''Summary: no diffs generated.'' @ [nl] @
         (if changedFiles = [] then ''Reason: no changed files were detected for this event.'' @ [nl, nl]
          else ''Reason: changed files did not map to rendered Kubernetes resources in configured Thule projects.'' @ [nl, nl]) @
         ''### Changed files'' @ [nl] @
         (if changedFiles = [] then ''- none'' @ [nl]
          else files_loop (nat maxFiles) (length changedFiles) 0 changedFiles) @
         no_changes_note)"

definition BuildNoDiffComment :: "string \<Rightarrow> nat \<Rightarrow> string" where
  "BuildNoDiffComment sha discoveredProjects =
     plan_title @ ''Commit: `'' @ sha @ ''`'' @ [nl, nl] @
     ''Summary: no CREATE/PATCH/DELETE changes for touched manifests.'' @ [nl] @
     (if discoveredProjects > 0 then ''Projects checked: `'' @ nat_str discoveredProjects @ ''`'' @ [nl] else []) @
     no_changes_note"

definition hasActionableChanges :: "ProjectPlan \<Rightarrow> bool" where
  "hasActionableChanges plan \<longleftrightarrow>
     Creates (PlanSummary plan) > 0 \<or> Patches (PlanSummary plan) > 0 \<or> Deletes (PlanSummary plan) > 0 \<or>
     length (PlanFindings plan) > 0"

definition total_summary :: "ProjectPlan list \<Rightarrow> Summary" where
  "total_summary ps =
     foldl (\<lambda>t p. \<lparr>Creates = Creates t + Creates (PlanSummary p), Patches = Patches t + Patches (PlanSummary p),
                  Deletes = Deletes t + Deletes (PlanSummary p), NoOps = NoOps t + NoOps (PlanSummary p)\<rparr>)
       empty_summary ps"

definition project_header :: "ProjectPlan \<Rightarrow> string" where
  "project_header p = ''### Project: `'' @ PlanProject p @ ''`'' @ [nl]"

definition size_note :: string where
  "size_note = ''- ... truncated (comment size limit)'' @ [nl]"

definition project_sections :: "string \<Rightarrow> int \<Rightarrow> ProjectPlan \<Rightarrow> string" where
  "project_sections b maxd p =
     appendPlanSections b (PlanChanges p) (PlanFindings p) maxd ''#### Changes'' ''#### Policy Findings''"

text \<open>The loop over the projects; \<open>first\<close> is \<^verbatim>\<open>i == 0\<close>.\<close>

fun projects_loop :: "int \<Rightarrow> bool \<Rightarrow> ProjectPlan list \<Rightarrow> string \<Rightarrow> string" where
  "projects_loop maxd first [] b = b"
| "projects_loop maxd first (p # ps) b =
     (let b = (if first then b else b @ [nl]);
          header = project_header p;
          sLine = summaryLine (PlanSummary p) @ [nl, nl]
      in if length b + length header > maxCommentChars then b @ [nl] @ size_note
         else if length (b @ header) + length sLine > maxCommentChars then b @ header @ size_note
         else projects_loop maxd False ps (project_sections (b @ header @ sLine) maxd p))"

definition BuildAggregatedPlanComment :: "string \<Rightarrow> ProjectPlan list \<Rightarrow> int \<Rightarrow> string" where
  "BuildAggregatedPlanComment sha projects maxResourceDetails =
     (let visible = filter hasActionableChanges projects
      in if projects = [] then BuildNoChangesComment sha [] 0
         else if visible = [] then BuildNoDiffComment sha (length projects)
         else
           (let visible = sort_key PlanProject visible
            in projects_loop (max_details maxResourceDetails) True visible
                 (plan_title @ ''Commit: `'' @ sha @ ''`  '' @ [nl] @ ''Projects: `'' @ nat_str (length visible) @
                  ''`'' @ [nl, nl] @ summaryLine (total_summary visible) @ [nl, nl])
               @ read_only_note))"

section \<open>Bounds\<close>

lemma length_join_le: "length (join sep xs) \<le> sum_list (map length xs) + length xs * length sep"
  by (induction sep xs rule: join.induct) auto

lemma length_truncated_mark [len_bounds]: "length truncated_mark = 20"
  by (simp add: truncated_mark_def)

lemma length_truncateYAMLBlock [len_bounds]: "length (truncateYAMLBlock s) \<le> maxYAMLCharsPerBlock + 20"
proof -
  have "length (TrimSpace (take maxYAMLCharsPerBlock (TrimSpace s))) \<le> maxYAMLCharsPerBlock"
    using length_TrimSpace [of "take maxYAMLCharsPerBlock (TrimSpace s)"] by simp
  then show ?thesis by (simp add: truncateYAMLBlock_def Let_def length_truncated_mark)
qed

lemma length_diff_lines_loop:
  "length (diff_lines_loop first remaining lines b) \<le> length b + remaining + 20"
proof (induction first remaining lines b rule: diff_lines_loop.induct)
  case (2 first remaining line lines b)
  show ?case
  proof (cases "\<not> first \<and> remaining \<le> 1")
    case False
    let ?b = "if first then b else b @ [nl]" and ?r = "if first then remaining else remaining - 1"
    have r: "length ?b + ?r \<le> length b + remaining" using False by auto
    show ?thesis
    proof (cases "length line \<le> ?r")
      case True
      have "length (diff_lines_loop False (?r - length line) lines (?b @ line))
          \<le> length (?b @ line) + (?r - length line) + 20"
        using "2.IH" [OF _ refl refl True] False by simp
      then show ?thesis using False True r by (auto simp: Let_def)
    next
      case big: False
      then show ?thesis using False r by (auto simp: Let_def length_truncated_mark)
    qed
  qed (simp add: length_truncated_mark)
qed simp

lemma length_truncateDiffLines [len_bounds]: "length (truncateDiffLines lines) \<le> maxYAMLCharsPerBlock + 20"
  using length_TrimSpace [of "diff_lines_loop True maxYAMLCharsPerBlock lines []"]
    length_diff_lines_loop [of True maxYAMLCharsPerBlock lines "[]"]
  by (simp add: truncateDiffLines_def)

text \<open>
  The details of one change stay within two blocks of the block limit, whatever the size of the
  resource.
\<close>

theorem change_details_bounded: "length (renderChangeDetails c) \<le> 2 * maxYAMLCharsPerBlock + 100"
  using length_truncateYAMLBlock [of "DesiredYAML c"] length_truncateYAMLBlock [of "CurrentYAML c"]
    length_truncateDiffLines [of "AttributeDiff c"]
  by (simp add: renderChangeDetails_def fence_def Let_def split: Action.split)

text \<open>The size of the text is kept near the limit by every step that writes.\<close>

lemma length_count: "n < 10 ^ 19 \<Longrightarrow> length (nat_str (n - k)) \<le> 19"
  by (rule length_nat_str) auto

lemma length_changes_loop:
  assumes "length b \<le> maxCommentChars + k" and "tot < 10 ^ 19"
  shows "length (fst (changes_loop maxd tot cs b printed)) \<le> maxCommentChars + k + 60"
  using assms
proof (induction maxd tot cs b printed rule: changes_loop.induct)
  case (2 maxd tot c cs b printed)
  let ?b = "b @ change_line c @ [nl]"
  consider (skip) "ChangeAction c = NoOp"
    | (many) "ChangeAction c \<noteq> NoOp" "int printed \<ge> maxd"
    | (long) "ChangeAction c \<noteq> NoOp" "\<not> int printed \<ge> maxd" "length b + length (change_line c) + 1 > maxCommentChars"
    | (details) "ChangeAction c \<noteq> NoOp" "\<not> int printed \<ge> maxd" "\<not> length b + length (change_line c) + 1 > maxCommentChars"
    by blast
  then show ?case
  proof cases
    case skip
    then show ?thesis using 2 by simp
  next
    case many
    then show ?thesis using "2.prems" length_count [OF "2.prems"(2), of printed] by simp
  next
    case long
    then show ?thesis using "2.prems"(1) by simp
  next
    case details
    show ?thesis
    proof (cases "renderChangeDetails c \<noteq> [] \<and> length ?b + length (renderChangeDetails c) > maxCommentChars")
      case True
      then show ?thesis using details by (simp add: Let_def)
    next
      case False
      then have "length (?b @ renderChangeDetails c) \<le> maxCommentChars + k" using details by auto
      then show ?thesis
        using "2.IH"(2) [OF details refl refl False _ "2.prems"(2)] details False by (auto simp: Let_def)
    qed
  qed
qed simp

lemma length_findings_loop:
  "length b \<le> maxCommentChars + k \<Longrightarrow> length (findings_loop fs b) \<le> maxCommentChars + k + 37"
proof (induction fs b rule: findings_loop.induct)
  case (2 f fs b)
  show ?case
  proof (cases "length b + length (finding_line f) > maxCommentChars")
    case False
    then have "length (findings_loop fs (b @ finding_line f)) \<le> maxCommentChars + k + 37"
      by (intro "2.IH") auto
    then show ?thesis using False by simp
  qed (use 2 in simp)
qed simp

lemma length_appendPlanSections:
  assumes "length b \<le> maxCommentChars" and "non_noop changes < 10 ^ 19"
    and "length ch \<le> 20" and "length fh \<le> 20"
  shows "length (appendPlanSections b changes findings maxd ch fh) \<le> maxCommentChars + 240"
proof -
  obtain b1 printed trunc where loop: "changes_loop maxd (non_noop changes) changes (b @ ch @ [nl]) 0 = (b1, printed, trunc)"
    by (metis prod_cases3)
  have b1: "length b1 \<le> maxCommentChars + 21 + 60"
    using length_changes_loop [of "b @ ch @ [nl]" 21, OF _ assms(2), of maxd changes 0] loop assms(1,3) by simp
  define b2 where "b2 = (if trunc then b1 @ ''- ... truncated ('' @ nat_str (non_noop changes - printed) @
    '' additional resources; comment size limit)'' @ [nl] else b1)"
  define b3 where "b3 = (if printed = 0 then b2 @ ''- none'' @ [nl] else b2) @ [nl] @ fh @ [nl]"
  have "length b2 \<le> maxCommentChars + 161"
    unfolding b2_def using b1 length_count [OF assms(2), of printed] by simp
  then have b3: "length b3 \<le> maxCommentChars + 195" unfolding b3_def using assms(4) by simp
  have "appendPlanSections b changes findings maxd ch fh =
      (if findings = [] then b3 @ ''- none'' @ [nl] else findings_loop findings b3)"
    unfolding appendPlanSections_def loop b3_def b2_def by (simp add: Let_def)
  then show ?thesis using length_findings_loop [OF b3, of findings] b3 by simp
qed

definition plan_fits :: "ProjectPlan \<Rightarrow> bool" where
  "plan_fits p \<longleftrightarrow> non_noop (PlanChanges p) < 10 ^ 19"

lemma length_projects_loop:
  "\<forall>p \<in> set ps. plan_fits p \<Longrightarrow> length b \<le> maxCommentChars + 240 \<Longrightarrow>
     length (projects_loop maxd first ps b) \<le> maxCommentChars + 300"
proof (induction maxd first ps b rule: projects_loop.induct)
  case (2 maxd first p ps b)
  define b1 where "b1 = (if first then b else b @ [nl])"
  define sLine where "sLine = summaryLine (PlanSummary p) @ [nl, nl]"
  have loop: "projects_loop maxd first (p # ps) b =
     (if length b1 + length (project_header p) > maxCommentChars then b1 @ [nl] @ size_note
      else if length (b1 @ project_header p) + length sLine > maxCommentChars then b1 @ project_header p @ size_note
      else projects_loop maxd False ps (project_sections (b1 @ project_header p @ sLine) maxd p))"
    by (simp add: b1_def sLine_def Let_def)
  have b1: "length b1 \<le> maxCommentChars + 241" using "2.prems"(2) by (simp add: b1_def)
  consider (header) "length b1 + length (project_header p) > maxCommentChars"
    | (summary) "\<not> length b1 + length (project_header p) > maxCommentChars"
        "length (b1 @ project_header p) + length sLine > maxCommentChars"
    | (body) "\<not> length b1 + length (project_header p) > maxCommentChars"
        "\<not> length (b1 @ project_header p) + length sLine > maxCommentChars"
    by blast
  then show ?case
  proof cases
    case header
    then show ?thesis unfolding loop using b1 by (simp add: size_note_def)
  next
    case summary
    then show ?thesis unfolding loop by (simp add: size_note_def)
  next
    case body
    have "length (project_sections (b1 @ project_header p @ sLine) maxd p) \<le> maxCommentChars + 240"
      unfolding project_sections_def
      using body "2.prems"(1) by (intro length_appendPlanSections) (simp_all add: plan_fits_def)
    then have "length (projects_loop maxd False ps (project_sections (b1 @ project_header p @ sLine) maxd p))
        \<le> maxCommentChars + 300"
      using "2.IH" [OF b1_def refl sLine_def body] "2.prems"(1) by simp
    then show ?thesis unfolding loop using body by simp
  qed
qed simp

definition summary_fits :: "Summary \<Rightarrow> bool" where
  "summary_fits s \<longleftrightarrow> Creates s < 10 ^ 19 \<and> Patches s < 10 ^ 19 \<and> Deletes s < 10 ^ 19 \<and> NoOps s < 10 ^ 19"

lemma length_summaryLine:
  assumes "summary_fits s"
  shows "length (summaryLine s) \<le> 120"
proof -
  have "length (nat_str n) \<le> 19" if "n < 10 ^ 19" for n
    using that by (rule length_nat_str) simp
  then have "length (nat_str (Creates s)) \<le> 19" "length (nat_str (Patches s)) \<le> 19"
    "length (nat_str (Deletes s)) \<le> 19" "length (nat_str (NoOps s)) \<le> 19"
    using assms by (simp_all add: summary_fits_def)
  then show ?thesis by (simp add: summaryLine_def)
qed

text \<open>
  C24. The comment stays below the limit of one million characters GitLab puts on a note, however
  large the plan: for a commit identifier of at most a thousand bytes and counts that fit an
  \<^verbatim>\<open>int\<close>.
\<close>

theorem aggregated_comment_fits:
  assumes "length sha \<le> 1000" and "\<forall>p \<in> set projects. plan_fits p"
    and "summary_fits (total_summary (sort_key PlanProject (filter hasActionableChanges projects)))"
    and "length projects < 10 ^ 19"
  shows "length (BuildAggregatedPlanComment sha projects maxd) < 1000000"
proof -
  let ?v = "sort_key PlanProject (filter hasActionableChanges projects)"
  let ?b = "plan_title @ ''Commit: `'' @ sha @ ''`  '' @ [nl] @ ''Projects: `'' @ nat_str (length ?v) @
                  ''`'' @ [nl, nl] @ summaryLine (total_summary ?v) @ [nl, nl]"
  have "length ?v < 10 ^ 19"
    using assms(4) length_filter_le [of hasActionableChanges projects] unfolding length_sort by linarith
  then have len: "length (nat_str (length ?v)) \<le> 19" "length (nat_str (length projects)) \<le> 19"
    using length_count [of _ 0] assms(4) by simp_all
  have "length ?b \<le> maxCommentChars + 240"
    using assms(1) len length_summaryLine [OF assms(3)] by (simp add: plan_title_def maxCommentChars_def)
  then have "length (projects_loop (max_details maxd) True ?v ?b) \<le> maxCommentChars + 300"
    using assms(2) by (intro length_projects_loop) auto
  moreover have "length (BuildNoChangesComment sha [] 0) < 2000"
    using assms(1) by (simp add: BuildNoChangesComment_def plan_title_def no_changes_note_def Let_def)
  moreover have "length (BuildNoDiffComment sha (length projects)) < 2000"
    using assms(1) len(2) by (simp add: BuildNoDiffComment_def plan_title_def no_changes_note_def)
  ultimately show ?thesis
    by (simp add: BuildAggregatedPlanComment_def Let_def maxCommentChars_def read_only_note_def)
qed

definition sample_plan :: ProjectPlan where
  "sample_plan =
     \<lparr>PlanProject = ''p'', PlanChanges = [new_change ''a'' Create, new_change ''b'' NoOp],
      PlanSummary = \<lparr>Creates = 1, Patches = 0, Deletes = 0, NoOps = 1\<rparr>, PlanFindings = []\<rparr>"

theorem aggregated_comment_fits_witness:
  "length (BuildAggregatedPlanComment ''abc'' [sample_plan] 0) < 1000000"
  by (rule aggregated_comment_fits)
    (simp_all add: sample_plan_def plan_fits_def non_noop_def new_change_def summary_fits_def
      hasActionableChanges_def total_summary_def empty_summary_def)

section \<open>Nothing is left out\<close>

text \<open>
  What a reader should see of a change: its line, then the whole manifest of what is created or
  deleted, or all lines of the difference.
\<close>

definition yaml_block :: "string \<Rightarrow> string \<Rightarrow> string" where
  "yaml_block label body = fence @ ''yaml'' @ [nl] @ ''# '' @ label @ [nl] @ TrimSpace body @ [nl] @ fence"

definition full_details :: "Change \<Rightarrow> string" where
  "full_details c =
     (let shown =
        (case ChangeAction c of
           Create \<Rightarrow> (if DesiredYAML c = [] then [] else [yaml_block ''desired'' (DesiredYAML c)])
         | Delete \<Rightarrow> (if CurrentYAML c = [] then [] else [yaml_block ''current'' (CurrentYAML c)])
         | Patch \<Rightarrow>
             (if AttributeDiff c \<noteq> []
              then [fence @ ''diff'' @ [nl] @ TrimSpace (join [nl] (AttributeDiff c)) @ [nl] @ fence]
              else (if CurrentYAML c = [] then [] else [yaml_block ''current'' (CurrentYAML c)]) @
                   (if DesiredYAML c = [] then [] else [yaml_block ''desired'' (DesiredYAML c)]))
         | NoOp \<Rightarrow> [])
      in if shown = [] then [] else [nl] @ join [nl] shown @ [nl])"

definition change_text :: "Change \<Rightarrow> string" where
  "change_text c = change_line c @ [nl] @ full_details c"

definition changes_text :: "Change list \<Rightarrow> string" where
  "changes_text cs = concat (map change_text (filter (\<lambda>c. ChangeAction c \<noteq> NoOp) cs))"

text \<open>The blocks of a change are within the limit for one block.\<close>

definition blocks_fit :: "Change \<Rightarrow> bool" where
  "blocks_fit c =
     (let fits = (\<lambda>y. length (TrimSpace y) \<le> maxYAMLCharsPerBlock)
      in (case ChangeAction c of
            Create \<Rightarrow> fits (DesiredYAML c)
          | Delete \<Rightarrow> fits (CurrentYAML c)
          | Patch \<Rightarrow> (if AttributeDiff c \<noteq> [] then length (join [nl] (AttributeDiff c)) < maxYAMLCharsPerBlock
                      else fits (CurrentYAML c) \<and> fits (DesiredYAML c))
          | NoOp \<Rightarrow> True))"

lemma length_join_Cons: "length (join [nl] (x # xs)) = length x + sum_list (map (\<lambda>y. Suc (length y)) xs)"
  by (induction xs arbitrary: x) auto

lemma join_nl_Cons: "join [nl] (x # xs) = x @ concat (map (\<lambda>y. nl # y) xs)"
  by (induction xs arbitrary: x) auto

lemma diff_lines_rest:
  "sum_list (map (\<lambda>y. Suc (length y)) ls) < remaining \<Longrightarrow>
     diff_lines_loop False remaining ls b = b @ concat (map (\<lambda>y. nl # y) ls)"
  by (induction ls arbitrary: remaining b) (auto simp: Let_def)

lemma truncateDiffLines_whole:
  assumes "ls \<noteq> []" and "length (join [nl] ls) < maxYAMLCharsPerBlock"
  shows "truncateDiffLines ls = TrimSpace (join [nl] ls)"
proof (cases ls)
  case (Cons x xs)
  then have "length x + sum_list (map (\<lambda>y. Suc (length y)) xs) < maxYAMLCharsPerBlock"
    using assms(2) by (simp only: length_join_Cons)
  then show ?thesis
    using Cons diff_lines_rest [of xs "maxYAMLCharsPerBlock - length x" x]
    by (simp add: truncateDiffLines_def Let_def join_nl_Cons)
qed (use assms(1) in simp)

lemma details_whole: "blocks_fit c \<Longrightarrow> renderChangeDetails c = full_details c"
  by (auto simp: blocks_fit_def renderChangeDetails_def full_details_def truncateYAMLBlock_def truncateDiffLines_whole
      yaml_block_def Let_def split: Action.splits)

lemma changes_loop_complete:
  "list_all blocks_fit cs \<Longrightarrow> int (printed + non_noop cs) \<le> maxd \<Longrightarrow> length (b @ changes_text cs) \<le> maxCommentChars \<Longrightarrow>
     changes_loop maxd tot cs b printed = (b @ changes_text cs, printed + non_noop cs, False)"
proof (induction cs arbitrary: b printed)
  case (Cons c cs)
  show ?case
  proof (cases "ChangeAction c = NoOp")
    case True
    then show ?thesis using Cons by (simp add: non_noop_def changes_text_def)
  next
    case False
    have det: "renderChangeDetails c = full_details c" using Cons.prems(1) by (simp add: details_whole)
    have split: "changes_text (c # cs) = change_text c @ changes_text cs" and n: "non_noop (c # cs) = Suc (non_noop cs)"
      using False by (simp_all add: changes_text_def non_noop_def)
    have fits: "length b + length (change_line c) + 1 + length (full_details c) \<le> maxCommentChars"
      using Cons.prems(3) unfolding split change_text_def by simp
    have "changes_loop maxd tot cs (b @ change_text c) (Suc printed)
        = ((b @ change_text c) @ changes_text cs, Suc printed + non_noop cs, False)"
      using Cons.prems n split by (intro Cons.IH) simp_all
    moreover have "changes_loop maxd tot (c # cs) b printed = changes_loop maxd tot cs (b @ change_text c) (Suc printed)"
      using False fits Cons.prems(2) n by (simp add: Let_def change_text_def det)
    ultimately show ?thesis by (simp add: split n)
  qed
qed (simp add: non_noop_def changes_text_def)

definition findings_text :: "Finding list \<Rightarrow> string" where
  "findings_text fs = (if fs = [] then ''- none'' @ [nl] else concat (map finding_line fs))"

lemma findings_loop_complete:
  "length (b @ concat (map finding_line fs)) \<le> maxCommentChars \<Longrightarrow> findings_loop fs b = b @ concat (map finding_line fs)"
  by (induction fs arbitrary: b) auto

text \<open>
  C25. A plan within the limits is shown in full. When there are changes other than NO-OP, no more of
  them than the maximum, each manifest they show has at most 12000 bytes and each difference fewer than
  12000, and the whole text fits the comment, then the sections hold, in order, the line of every such
  change with its whole manifests or all lines of its difference (trimmed of surrounding space), and
  every finding; nothing is truncated.
\<close>

theorem plan_shown_in_full:
  assumes "list_all blocks_fit cs" and "int (non_noop cs) \<le> maxd" and "0 < non_noop cs"
    and "length (b @ ch @ [nl] @ changes_text cs @ [nl] @ fh @ [nl] @ findings_text fs) \<le> maxCommentChars"
  shows "appendPlanSections b cs fs maxd ch fh
    = b @ ch @ [nl] @ changes_text cs @ [nl] @ fh @ [nl] @ findings_text fs"
proof -
  have "changes_loop maxd (non_noop cs) cs (b @ ch @ [nl]) 0 = ((b @ ch @ [nl]) @ changes_text cs, 0 + non_noop cs, False)"
    using assms by (intro changes_loop_complete) simp_all
  then show ?thesis
    using assms(3,4) findings_loop_complete [of "b @ ch @ [nl] @ changes_text cs @ [nl] @ fh @ [nl]" fs]
    by (auto simp: appendPlanSections_def findings_text_def)
qed

definition sample_patch :: Change where
  "sample_patch = (new_change ''a'' Patch)\<lparr>AttributeDiff := [''- x'', ''+ y'']\<rparr>"

theorem plan_shown_in_full_witness:
  "appendPlanSections [] [sample_patch, new_change ''b'' NoOp] [] 5 ''C'' ''F''
     = ''C'' @ [nl] @ ''- `PATCH` a'' @ [nl, nl] @ ''```diff'' @ [nl] @ ''- x'' @ [nl] @ ''+ y'' @ [nl] @ ''```'' @ [nl, nl] @
       ''F'' @ [nl] @ ''- none'' @ [nl]"
proof -
  let ?cs = "[sample_patch, new_change ''b'' NoOp]"
  have shown: "changes_text ?cs = ''- `PATCH` a'' @ [nl, nl] @ ''```diff'' @ [nl] @ ''- x'' @ [nl] @ ''+ y'' @ [nl] @ ''```'' @ [nl]"
    by code_simp
  have "list_all blocks_fit ?cs" by code_simp
  moreover have "int (non_noop ?cs) \<le> 5" "0 < non_noop ?cs" by code_simp+
  ultimately show ?thesis
    using plan_shown_in_full [of ?cs 5 "[]" "''C''" "''F''" "[]"] shown by (simp add: findings_text_def maxCommentChars_def)
qed

end
