(* ===== verification/Run_Store.thy ===== *)
theory Run_Store
  imports Prelude
begin

text \<open>
  Runs and their artifacts, \<^verbatim>\<open>internal/run/store.go\<close>: the in-memory store, the paging of its lists
  with the wrap-around of Go's \<^verbatim>\<open>int\<close>, and the contract of the \<^verbatim>\<open>Store\<close> interface. The time an
  operation reads from the clock is an argument.
\<close>

datatype State = StateZero | StateRunning | StateSuccess | StateFailed | StateCanceled

record Record =
  RunID :: int
  RunMergeReqID :: int
  RunHeadSHA :: string
  RunProject :: string
  RunState :: State
  CreatedAt :: int
  UpdatedAt :: int
  RunError :: string

record Artifact =
  ArtRunID :: int
  ArtName :: string
  ArtData :: string

record MemoryStore =
  nextRunID :: int
  runs :: "int \<rightharpoonup> Record"
  byMR :: "int \<Rightarrow> int list"
  artifacts :: "int \<Rightarrow> Artifact list"
  latestSHA :: "int \<Rightarrow> string"

text \<open>A missing key of the maps \<^verbatim>\<open>byMR\<close>, \<^verbatim>\<open>artifacts\<close> and \<^verbatim>\<open>latestSHA\<close> reads as the empty value.\<close>

definition NewMemoryStore :: MemoryStore where
  "NewMemoryStore =
     \<lparr>nextRunID = 1, runs = Map.empty, byMR = (\<lambda>_. []), artifacts = (\<lambda>_. []), latestSHA = (\<lambda>_. [])\<rparr>"

definition Start :: "int \<Rightarrow> int \<Rightarrow> string \<Rightarrow> string \<Rightarrow> MemoryStore \<Rightarrow> Record \<times> MemoryStore" where
  "Start now mergeReqID sha project s =
     (let r = \<lparr>RunID = nextRunID s, RunMergeReqID = mergeReqID, RunHeadSHA = sha, RunProject = project,
               RunState = StateRunning, CreatedAt = now, UpdatedAt = now, RunError = []\<rparr>
      in (r, s\<lparr>nextRunID := wrap64 (nextRunID s + 1),
               runs := (runs s)(RunID r \<mapsto> r),
               byMR := (byMR s)(mergeReqID := byMR s mergeReqID @ [RunID r])\<rparr>))"

definition Complete :: "int \<Rightarrow> int \<Rightarrow> State \<Rightarrow> string \<Rightarrow> MemoryStore \<Rightarrow> MemoryStore" where
  "Complete now runID state errMsg s =
     (case runs s runID of
        None \<Rightarrow> s
      | Some r \<Rightarrow> s\<lparr>runs := (runs s)(runID \<mapsto> r\<lparr>RunState := state, RunError := errMsg, UpdatedAt := now\<rparr>)\<rparr>)"

text \<open>
  The page of a list: None is the panic of a slice expression or of \<^verbatim>\<open>make\<close> with bounds that have
  wrapped around.
\<close>

definition page_bounds :: "int \<Rightarrow> int \<Rightarrow> int \<Rightarrow> (int \<times> int) option option" where
  "page_bounds len page pageSize =
     (let pageSize = (if pageSize \<le> 0 then 20 else pageSize);
          page = (if page \<le> 0 then 1 else page);
          start = wrap64 ((page - 1) * pageSize)
      in if start \<ge> len then Some None
         else (let e = wrap64 (start + pageSize);
                   e = (if e > len then len else e)
               in if 0 \<le> start \<and> start \<le> e then Some (Some (start, e)) else None))"

definition page_of :: "'a list \<Rightarrow> int \<Rightarrow> int \<Rightarrow> 'a list option" where
  "page_of items page pageSize =
     map_option (\<lambda>b. case b of
         None \<Rightarrow> []
       | Some (start, e) \<Rightarrow> take (nat (e - start)) (drop (nat start) items))
       (page_bounds (int (length items)) page pageSize)"

definition zero_record :: Record where
  "zero_record = \<lparr>RunID = 0, RunMergeReqID = 0, RunHeadSHA = [], RunProject = [],
     RunState = StateZero, CreatedAt = 0, UpdatedAt = 0, RunError = []\<rparr>"

definition ListRuns :: "int \<Rightarrow> int \<Rightarrow> int \<Rightarrow> MemoryStore \<Rightarrow> Record list option" where
  "ListRuns mergeReqID page pageSize s =
     (let ids = rev (sort (byMR s mergeReqID))
      in map_option (map (\<lambda>i. case runs s i of Some r \<Rightarrow> r | None \<Rightarrow> zero_record)) (page_of ids page pageSize))"

definition AddArtifact :: "int \<Rightarrow> string \<Rightarrow> string \<Rightarrow> MemoryStore \<Rightarrow> MemoryStore" where
  "AddArtifact runID name data s =
     s\<lparr>artifacts := (artifacts s)
        (runID := artifacts s runID @ [\<lparr>ArtRunID = runID, ArtName = name, ArtData = data\<rparr>])\<rparr>"

definition ListArtifacts :: "int \<Rightarrow> int \<Rightarrow> int \<Rightarrow> MemoryStore \<Rightarrow> Artifact list option" where
  "ListArtifacts runID page pageSize s = page_of (artifacts s runID) page pageSize"

definition SetLatestSHA :: "int \<Rightarrow> string \<Rightarrow> MemoryStore \<Rightarrow> MemoryStore" where
  "SetLatestSHA mergeReqID sha s = s\<lparr>latestSHA := (latestSHA s)(mergeReqID := sha)\<rparr>"

definition IsStale :: "int \<Rightarrow> string \<Rightarrow> MemoryStore \<Rightarrow> bool" where
  "IsStale mergeReqID sha s \<longleftrightarrow> latestSHA s mergeReqID \<noteq> [] \<and> latestSHA s mergeReqID \<noteq> sha"

section \<open>The invariant of the store\<close>

definition run_inv :: "MemoryStore \<Rightarrow> bool" where
  "run_inv s \<longleftrightarrow>
     0 < nextRunID s \<and>
     (\<forall>i r. runs s i = Some r \<longrightarrow> 0 < i \<and> i < nextRunID s \<and> RunID r = i \<and> i \<in> set (byMR s (RunMergeReqID r))) \<and>
     (\<forall>mr. sorted_wrt (<) (byMR s mr)) \<and>
     (\<forall>mr. \<forall>i \<in> set (byMR s mr). \<exists>r. runs s i = Some r \<and> RunMergeReqID r = mr)"

lemma run_inv_New: "run_inv NewMemoryStore"
  by (simp add: run_inv_def NewMemoryStore_def)

lemma run_invD:
  assumes "run_inv s"
  shows "0 < nextRunID s" and "sorted_wrt (<) (byMR s mr)"
    and "runs s i = Some r \<Longrightarrow> 0 < i \<and> i < nextRunID s \<and> RunID r = i \<and> i \<in> set (byMR s (RunMergeReqID r))"
    and "i \<in> set (byMR s mr) \<Longrightarrow> \<exists>r. runs s i = Some r \<and> RunMergeReqID r = mr"
  using assms unfolding run_inv_def by simp_all

lemma run_inv_Start:
  assumes inv: "run_inv s" and room: "nextRunID s < 2 ^ 63 - 1"
  shows "run_inv (snd (Start now mr sha prj s))"
proof -
  have next_id: "wrap64 (nextRunID s + 1) = nextRunID s + 1"
    using run_invD(1) [OF inv] room by (intro wrap64_id) simp_all
  have below: "i < nextRunID s" if "i \<in> set (byMR s m)" for i m
    using run_invD(3) [OF inv] run_invD(4) [OF inv that] by blast
  have inc: "sorted_wrt (<) (byMR s m @ [nextRunID s])" for m
    using run_invD(2) [OF inv] below by (simp add: sorted_wrt_append)
  let ?s = "snd (Start now mr sha prj s)"
  let ?r = "fst (Start now mr sha prj s)"
  have fields: "nextRunID ?s = nextRunID s + 1" "byMR ?s = (byMR s)(mr := byMR s mr @ [nextRunID s])"
    "runs ?s = (runs s)(nextRunID s \<mapsto> ?r)"
    using next_id by (simp_all add: Start_def Let_def)
  have mr_new: "RunMergeReqID ?r = mr" "RunID ?r = nextRunID s"
    by (simp_all add: Start_def Let_def)
  show ?thesis
    unfolding run_inv_def
  proof (intro conjI allI impI ballI)
    show "0 < nextRunID ?s" using run_invD(1) [OF inv] fields(1) by simp
    show "sorted_wrt (<) (byMR ?s m)" for m using inc run_invD(2) [OF inv] by (simp add: fields(2))
    fix i r assume r: "runs ?s i = Some r"
    have old: "0 < i \<and> i < nextRunID s \<and> RunID r = i \<and> i \<in> set (byMR s (RunMergeReqID r))" if "i \<noteq> nextRunID s"
      using r that run_invD(3) [OF inv] by (simp add: fields(3))
    show "0 < i" using old run_invD(1) [OF inv] by (cases "i = nextRunID s") auto
    show "i < nextRunID ?s" using old by (cases "i = nextRunID s") (auto simp: fields(1))
    show "RunID r = i" "i \<in> set (byMR ?s (RunMergeReqID r))"
      using r old mr_new by (cases "i = nextRunID s"; force simp: fields(2,3))+
  next
    fix m i assume "i \<in> set (byMR ?s m)"
    then consider "i = nextRunID s" "m = mr" | "i \<in> set (byMR s m)" by (auto simp: fields(2) split: if_splits)
    then show "\<exists>r. runs ?s i = Some r \<and> RunMergeReqID r = m"
    proof cases
      case 1
      then show ?thesis using mr_new by (simp add: fields(3))
    next
      case 2
      then have "i \<noteq> nextRunID s" using below by blast
      then show ?thesis using run_invD(4) [OF inv 2] by (simp add: fields(3))
    qed
  qed
qed

lemma run_inv_Complete:
  assumes "run_inv s"
  shows "run_inv (Complete now i st e s)"
proof (cases "runs s i")
  case (Some r)
  then show ?thesis using assms unfolding run_inv_def Complete_def by simp (metis option.inject)
qed (use assms in \<open>simp add: Complete_def\<close>)

lemma run_inv_others:
  "run_inv s \<Longrightarrow> run_inv (AddArtifact i n d s)" "run_inv s \<Longrightarrow> run_inv (SetLatestSHA mr sha s)"
  by (simp_all add: run_inv_def AddArtifact_def SetLatestSHA_def)

section \<open>Paging\<close>

lemma page_of_start:
  assumes "0 < n" and "0 < page" and "(page - 1) * int n = int p" and "int p + int n < 2 ^ 63"
  shows "page_of items page (int n) = Some (take n (drop p items))"
proof -
  have w: "wrap64 ((page - 1) * int n) = int p" "wrap64 (int p + int n) = int p + int n"
    unfolding assms(3) using assms(4) by (intro wrap64_id; linarith)+
  show ?thesis
  proof (cases "length items \<le> p")
    case True
    then show ?thesis using assms(1,2) w by (simp add: page_of_def page_bounds_def Let_def)
  next
    case False
    have "take (nat ((if int p + int n > int (length items) then int (length items) else int p + int n) - int p))
        (drop p items) = take n (drop p items)"
      using False by auto
    then show ?thesis
      using assms(1,2) False w by (simp add: page_of_def page_bounds_def Let_def)
  qed
qed

lemma page_of_chunk:
  assumes "0 < n" and "(int k + 1) * int n < 2 ^ 63"
  shows "page_of items (int k + 1) (int n) = Some (take n (drop (k * n) items))"
  using assms by (intro page_of_start) (simp_all add: algebra_simps)

lemma chunks_cover: "concat (map (\<lambda>k. take n (drop (k * n) xs)) [0..<m]) = take (m * n) xs"
proof (induction m)
  case (Suc m)
  have "take (n + m * n) xs = take (m * n) xs @ take n (drop (m * n) xs)"
    using take_add [of "m * n" n xs] by (simp add: add.commute)
  then show ?case using Suc by simp
qed simp

definition newest_first :: "int \<Rightarrow> MemoryStore \<Rightarrow> Record list" where
  "newest_first mr s = map (\<lambda>i. the (runs s i)) (rev (byMR s mr))"

lemma ListRuns_chunk:
  assumes "run_inv s" and "0 < n" and "(int k + 1) * int n < 2 ^ 63"
  shows "ListRuns mr (int k + 1) (int n) s = Some (take n (drop (k * n) (newest_first mr s)))"
proof -
  have sorted: "sort (byMR s mr) = byMR s mr"
    using run_invD(2) [OF assms(1), of mr] by (simp add: strict_sorted_iff sorted_sort_id)
  have rec: "(case runs s i of Some r \<Rightarrow> r | None \<Rightarrow> zero_record) = the (runs s i)" if "i \<in> set (byMR s mr)" for i
    using run_invD(4) [OF assms(1) that] by auto
  have "map (\<lambda>i. case runs s i of Some r \<Rightarrow> r | None \<Rightarrow> zero_record) (take n (drop (k * n) (rev (byMR s mr))))
      = map (\<lambda>i. the (runs s i)) (take n (drop (k * n) (rev (byMR s mr))))"
    using rec by (intro map_cong refl) (metis in_set_dropD in_set_takeD set_rev)
  then show ?thesis
    by (simp add: ListRuns_def sorted page_of_chunk [OF assms(2,3)] newest_first_def take_map drop_map)
qed

text \<open>
  C31. Reading the runs of a merge request page by page gives every run exactly once, newest first:
  with enough pages and no overflow in the page arithmetic, each page is a slice of the list of all
  runs and together they make it up; the identifiers of that list are strictly decreasing.
\<close>

theorem list_pages:
  assumes "run_inv s" and "0 < n" and "length (byMR s mr) \<le> m * n" and "int m * int n < 2 ^ 63"
  shows "(\<forall>k < m. ListRuns mr (int k + 1) (int n) s = Some (take n (drop (k * n) (newest_first mr s)))) \<and>
    concat (map (\<lambda>k. the (ListRuns mr (int k + 1) (int n) s)) [0..<m]) = newest_first mr s \<and>
    sorted_wrt (>) (map RunID (newest_first mr s))"
proof (intro conjI allI impI)
  have chunk: "ListRuns mr (int k + 1) (int n) s = Some (take n (drop (k * n) (newest_first mr s)))" if "k < m" for k
  proof (rule ListRuns_chunk [OF assms(1,2)])
    have "(int k + 1) * int n \<le> int m * int n" using that by (intro mult_right_mono) auto
    then show "(int k + 1) * int n < 2 ^ 63" using assms(4) by linarith
  qed
  show "k < m \<Longrightarrow> ListRuns mr (int k + 1) (int n) s = Some (take n (drop (k * n) (newest_first mr s)))" for k
    by (rule chunk)
  have "concat (map (\<lambda>k. the (ListRuns mr (int k + 1) (int n) s)) [0..<m])
      = concat (map (\<lambda>k. take n (drop (k * n) (newest_first mr s))) [0..<m])"
    using chunk by (intro arg_cong [of _ _ concat] map_cong) auto
  then show "concat (map (\<lambda>k. the (ListRuns mr (int k + 1) (int n) s)) [0..<m]) = newest_first mr s"
    using assms(3) by (simp add: chunks_cover newest_first_def)
  have "RunID (the (runs s i)) = i" if "i \<in> set (byMR s mr)" for i
    using run_invD(4) [OF assms(1) that] run_invD(3) [OF assms(1)] by fastforce
  then have "map RunID (newest_first mr s) = rev (byMR s mr)"
    unfolding newest_first_def map_map by (intro map_idI) simp
  then show "sorted_wrt (>) (map RunID (newest_first mr s))"
    using run_invD(2) [OF assms(1), of mr] by (simp add: sorted_wrt_rev)
qed

text \<open>Two runs of merge request 5 and one of another, in the order they were started.\<close>

definition sample_runs :: MemoryStore where
  "sample_runs =
     snd (Start 3 5 ''b'' ''p'' (snd (Start 2 6 ''c'' ''p'' (snd (Start 1 5 ''a'' ''p'' NewMemoryStore)))))"

lemma sample_runs_inv: "run_inv sample_runs"
  unfolding sample_runs_def
  by (intro run_inv_Start run_inv_New)
    (simp_all add: Start_def NewMemoryStore_def Let_def wrap64_def)

theorem list_pages_witness:
  "map RunID (concat (map (\<lambda>k. the (ListRuns 5 (int k + 1) 1 sample_runs)) [0..<2])) = [3, 1]"
proof -
  have "byMR sample_runs 5 = [1, 3]" "map RunID (newest_first 5 sample_runs) = [3, 1]"
    by (simp_all add: sample_runs_def newest_first_def Start_def NewMemoryStore_def Let_def wrap64_def)
  then show ?thesis using list_pages [OF sample_runs_inv, of 1 5 2] by simp
qed

section \<open>The interface\<close>

text \<open>
  What a user of the \<^verbatim>\<open>Store\<close> interface relies on: a started run has an identifier no earlier run
  has, completing changes one run, and staleness compares with the last commit announced.
\<close>

locale run_store =
  fixes start :: "int \<Rightarrow> int \<Rightarrow> string \<Rightarrow> string \<Rightarrow> 's \<Rightarrow> Record \<times> 's"
    and complete :: "int \<Rightarrow> int \<Rightarrow> State \<Rightarrow> string \<Rightarrow> 's \<Rightarrow> 's"
    and artifact :: "int \<Rightarrow> string \<Rightarrow> string \<Rightarrow> 's \<Rightarrow> 's"
    and set_latest :: "int \<Rightarrow> string \<Rightarrow> 's \<Rightarrow> 's"
    and stale :: "int \<Rightarrow> string \<Rightarrow> 's \<Rightarrow> bool"
    and lookup_run :: "'s \<Rightarrow> int \<Rightarrow> Record option"
    and latest :: "'s \<Rightarrow> int \<Rightarrow> string"
    and ok :: "'s \<Rightarrow> bool"
    and avail :: "'s \<Rightarrow> nat"
  assumes start_run: "ok s \<Longrightarrow> start now mr sha prj s = (r, s') \<Longrightarrow>
      lookup_run s (RunID r) = None \<and> lookup_run s' = (lookup_run s)(RunID r \<mapsto> r) \<and> latest s' = latest s \<and>
      0 < RunID r \<and> RunState r = StateRunning \<and> RunMergeReqID r = mr \<and> RunHeadSHA r = sha \<and> RunProject r = prj"
    and start_ok: "ok s \<Longrightarrow> 0 < avail s \<Longrightarrow> start now mr sha prj s = (r, s') \<Longrightarrow>
      ok s' \<and> avail s' = avail s - 1"
    and keep_ok: "ok s \<Longrightarrow> ok (complete now i st e s)" "ok s \<Longrightarrow> ok (artifact i n d s)"
      "ok s \<Longrightarrow> ok (set_latest mr sha s)"
    and keep_avail: "avail (complete now i st e s) = avail s" "avail (artifact i n d s) = avail s"
      "avail (set_latest mr sha s) = avail s"
    and complete_run: "lookup_run (complete now i st e s) = (lookup_run s)
      (i := map_option (\<lambda>r. r\<lparr>RunState := st, RunError := e, UpdatedAt := now\<rparr>) (lookup_run s i))"
    and artifact_run: "lookup_run (artifact i n d s) = lookup_run s"
    and set_latest_run: "lookup_run (set_latest mr sha s) = lookup_run s"
    and latest_set: "latest (set_latest mr sha s) = (latest s)(mr := sha)"
    and latest_other: "latest (complete now i st e s) = latest s" "latest (artifact i n d s) = latest s"
    and stale_iff: "stale mr sha s \<longleftrightarrow> latest s mr \<noteq> [] \<and> latest s mr \<noteq> sha"
begin

text \<open>Completing a list of runs one after the other.\<close>

definition complete_all :: "int \<Rightarrow> int list \<Rightarrow> State \<Rightarrow> string \<Rightarrow> 's \<Rightarrow> 's" where
  "complete_all now ids st e s = foldl (\<lambda>s i. complete now i st e s) s ids"

definition run_states :: "'s \<Rightarrow> int \<Rightarrow> State option" where
  "run_states s i = map_option RunState (lookup_run s i)"

lemma complete_states:
  "run_states (complete now i st e s) = (run_states s)(i := map_option (\<lambda>_. st) (run_states s i))"
  by (auto simp: run_states_def complete_run fun_eq_iff option.map_comp comp_def)

lemma complete_all_states:
  "run_states (complete_all now ids st e s) i =
     (if i \<in> set ids then map_option (\<lambda>_. st) (run_states s i) else run_states s i)"
  by (induction ids arbitrary: s) (simp_all add: complete_all_def complete_states option.map_comp comp_def)

lemma latest_after_set: "stale mr sha' (set_latest mr sha s) \<longleftrightarrow> sha \<noteq> [] \<and> sha \<noteq> sha'"
  by (simp add: stale_iff latest_set)

end

text \<open>How many more runs the store can number.\<close>

definition free_ids :: "MemoryStore \<Rightarrow> nat" where
  "free_ids s = nat (2 ^ 63 - 1 - nextRunID s)"

lemma Start_fresh:
  assumes "run_inv s"
  shows "runs s (nextRunID s) = None"
  using run_invD(3) [OF assms, of "nextRunID s"] by (cases "runs s (nextRunID s)") auto

interpretation mem_runs: run_store Start Complete AddArtifact SetLatestSHA IsStale runs latestSHA run_inv free_ids
proof
  fix s s' r now mr sha prj
  assume ok: "run_inv s" and st: "Start now mr sha prj s = (r, s')"
  show "runs s (RunID r) = None \<and> runs s' = (runs s)(RunID r \<mapsto> r) \<and> latestSHA s' = latestSHA s \<and>
      0 < RunID r \<and> RunState r = StateRunning \<and> RunMergeReqID r = mr \<and> RunHeadSHA r = sha \<and> RunProject r = prj"
    using st Start_fresh [OF ok] run_invD(1) [OF ok] by (auto simp: Start_def Let_def)
  assume "0 < free_ids s"
  then have room: "nextRunID s < 2 ^ 63 - 1" by (simp add: free_ids_def)
  then have "wrap64 (nextRunID s + 1) = nextRunID s + 1"
    using run_invD(1) [OF ok] by (intro wrap64_id) simp_all
  then show "run_inv s' \<and> free_ids s' = free_ids s - 1"
    using run_inv_Start [OF ok room, of now mr sha prj] st room
    by (auto simp: Start_def Let_def free_ids_def)
qed (rule run_inv_Complete run_inv_others; assumption | auto simp: Complete_def AddArtifact_def SetLatestSHA_def IsStale_def
    free_ids_def fun_eq_iff split: option.splits)+

end
