(* ===== verification/Vcs.thy ===== *)
theory Vcs
  imports Prelude
begin

text \<open>
  Comments and status checks of merge requests, \<^verbatim>\<open>internal/vcs/comments.go\<close> and
  \<^verbatim>\<open>internal/vcs/status.go\<close>: the in-memory stores, the invariant of the comment store, and the
  contracts of the two interfaces the planner publishes through.
\<close>

section \<open>Comments\<close>

record Comment =
  CommentID :: int
  CommentMR :: int
  CommentBody :: string
  Superseded :: bool
  SupersededBy :: int

record MemoryCommentStore =
  nextID :: int
  comments :: "int \<Rightarrow> Comment list"

definition NewMemoryCommentStore :: MemoryCommentStore where
  "NewMemoryCommentStore = \<lparr>nextID = 1, comments = (\<lambda>_. [])\<rparr>"

definition supersede :: "int \<Rightarrow> Comment \<Rightarrow> Comment" where
  "supersede newID c = (if \<not> Superseded c then c\<lparr>Superseded := True, SupersededBy := newID\<rparr> else c)"

definition PostOrSupersede :: "int \<Rightarrow> string \<Rightarrow> MemoryCommentStore \<Rightarrow> Comment \<times> MemoryCommentStore" where
  "PostOrSupersede mergeReqID body s =
     (let c = \<lparr>CommentID = nextID s, CommentMR = mergeReqID, CommentBody = body, Superseded = False,
               SupersededBy = 0\<rparr>
      in (c, s\<lparr>nextID := wrap64 (nextID s + 1),
               comments := (comments s)
                 (mergeReqID := map (supersede (CommentID c)) (comments s mergeReqID) @ [c])\<rparr>))"

definition ListComments :: "int \<Rightarrow> MemoryCommentStore \<Rightarrow> Comment list" where
  "ListComments mergeReqID s = comments s mergeReqID"

section \<open>Status checks\<close>

datatype CheckState = CheckPending | CheckSuccess | CheckFailed

record StatusCheck =
  StatusMR :: int
  StatusSHA :: string
  StatusContext :: string
  StatusState :: CheckState
  StatusDescription :: string

record MemoryStatusPublisher =
  items :: "StatusCheck list"

definition NewMemoryStatusPublisher :: MemoryStatusPublisher where
  "NewMemoryStatusPublisher = \<lparr>items = []\<rparr>"

definition SetStatus :: "StatusCheck \<Rightarrow> MemoryStatusPublisher \<Rightarrow> MemoryStatusPublisher" where
  "SetStatus status m = m\<lparr>items := items m @ [status]\<rparr>"

definition ListStatuses :: "int \<Rightarrow> string \<Rightarrow> MemoryStatusPublisher \<Rightarrow> StatusCheck list" where
  "ListStatuses mergeReqID sha m = filter (\<lambda>s. StatusMR s = mergeReqID \<and> StatusSHA s = sha) (items m)"

section \<open>One comment is in force\<close>

text \<open>
  A thread of comments is a chain: every comment but the last is superseded, by the one after it,
  and the last is not.
\<close>

fun chained :: "Comment list \<Rightarrow> bool" where
  "chained [] = True"
| "chained [c] = (\<not> Superseded c)"
| "chained (c # d # cs) = (Superseded c \<and> SupersededBy c = CommentID d \<and> chained (d # cs))"

lemma chained_active: "chained cs \<Longrightarrow> filter (\<lambda>c. \<not> Superseded c) cs = (if cs = [] then [] else [last cs])"
  by (induction cs rule: chained.induct) auto

lemma supersede_simps [simp]: "CommentID (supersede n c) = CommentID c" "CommentBody (supersede n c) = CommentBody c"
  "CommentMR (supersede n c) = CommentMR c" "Superseded (supersede n c)"
  by (simp_all add: supersede_def)

lemma chained_post: "chained cs \<Longrightarrow> \<not> Superseded c \<Longrightarrow> chained (map (supersede (CommentID c)) cs @ [c])"
  by (induction cs rule: chained.induct) (auto simp: supersede_def)

definition comment_inv :: "MemoryCommentStore \<Rightarrow> bool" where
  "comment_inv s \<longleftrightarrow> (\<forall>mr. chained (comments s mr) \<and> (\<forall>c \<in> set (comments s mr). CommentMR c = mr))"

lemma comment_inv_post: "comment_inv s \<Longrightarrow> comment_inv (snd (PostOrSupersede mr body s))"
  by (auto simp: comment_inv_def PostOrSupersede_def Let_def
      chained_post [of _ "\<lparr>CommentID = _, CommentMR = _, CommentBody = _, Superseded = False, SupersededBy = _\<rparr>", simplified])

text \<open>The store after a sequence of posts.\<close>

definition after_posts :: "(int \<times> string) list \<Rightarrow> MemoryCommentStore" where
  "after_posts ps = foldl (\<lambda>s (mr, body). snd (PostOrSupersede mr body s)) NewMemoryCommentStore ps"

lemma comment_inv_after: "comment_inv (after_posts ps)"
proof (induction ps rule: rev_induct)
  case Nil
  show ?case by (simp add: after_posts_def NewMemoryCommentStore_def comment_inv_def)
next
  case (snoc p ps)
  then show ?case by (auto simp: after_posts_def comment_inv_post case_prod_beta)
qed

lemma bodies_after: "map CommentBody (comments (after_posts ps) mr) = map snd (filter (\<lambda>p. fst p = mr) ps)"
proof (induction ps rule: rev_induct)
  case Nil
  show ?case by (simp add: after_posts_def NewMemoryCommentStore_def)
next
  case (snoc p ps)
  then show ?case
    by (auto simp: after_posts_def PostOrSupersede_def Let_def case_prod_beta comp_def)
qed

text \<open>
  C30. After any sequence of posts, the comments of a merge request carry the bodies posted to it, in
  order; every one but the last is superseded by its successor, and the last is the only one in
  force.
\<close>

theorem one_active_comment:
  "map CommentBody (ListComments mr (after_posts ps)) = map snd (filter (\<lambda>p. fst p = mr) ps) \<and>
   chained (ListComments mr (after_posts ps)) \<and>
   map CommentBody (filter (\<lambda>c. \<not> Superseded c) (ListComments mr (after_posts ps)))
     = (case rev (filter (\<lambda>p. fst p = mr) ps) of [] \<Rightarrow> [] | p # _ \<Rightarrow> [snd p])"
proof -
  have chain: "chained (comments (after_posts ps) mr)"
    using comment_inv_after by (simp add: comment_inv_def)
  have "map CommentBody (filter (\<lambda>c. \<not> Superseded c) (comments (after_posts ps) mr))
      = (case rev (map CommentBody (comments (after_posts ps) mr)) of [] \<Rightarrow> [] | b # _ \<Rightarrow> [b])"
    unfolding chained_active [OF chain]
    by (cases "comments (after_posts ps) mr" rule: rev_cases) auto
  also have "\<dots> = (case rev (filter (\<lambda>p. fst p = mr) ps) of [] \<Rightarrow> [] | p # _ \<Rightarrow> [snd p])"
    unfolding bodies_after by (simp add: rev_map split: list.split)
  finally show ?thesis using chain bodies_after by (simp add: ListComments_def)
qed

section \<open>The interfaces\<close>

locale comment_store =
  fixes post :: "int \<Rightarrow> string \<Rightarrow> 's \<Rightarrow> Comment \<times> 's"
    and list_comments :: "int \<Rightarrow> 's \<Rightarrow> Comment list"
  assumes post_new: "post mr body s = (c, s') \<Longrightarrow>
      CommentMR c = mr \<and> CommentBody c = body \<and> \<not> Superseded c \<and>
      (\<exists>old. list_comments mr s' = old @ [c] \<and> list_all Superseded old)"
    and post_other: "post mr body s = (c, s') \<Longrightarrow> mr' \<noteq> mr \<Longrightarrow> list_comments mr' s' = list_comments mr' s"
begin

definition active :: "int \<Rightarrow> 's \<Rightarrow> Comment list" where
  "active mr s = filter (\<lambda>c. \<not> Superseded c) (list_comments mr s)"

lemma active_post:
  assumes "post mr body s = (c, s')"
  shows "active mr s' = [c]" and "mr' \<noteq> mr \<Longrightarrow> active mr' s' = active mr' s"
proof -
  obtain old where "list_comments mr s' = old @ [c]" "list_all Superseded old" "\<not> Superseded c"
    using post_new [OF assms] by blast
  then show "active mr s' = [c]" by (simp add: active_def list_all_iff)
  show "mr' \<noteq> mr \<Longrightarrow> active mr' s' = active mr' s"
    using post_other [OF assms] by (simp add: active_def)
qed

end

interpretation mem_comments: comment_store PostOrSupersede ListComments
  by unfold_locales (auto simp: PostOrSupersede_def ListComments_def Let_def list_all_iff)

locale status_publisher =
  fixes set_status :: "StatusCheck \<Rightarrow> 's \<Rightarrow> 's"
    and list_statuses :: "int \<Rightarrow> string \<Rightarrow> 's \<Rightarrow> StatusCheck list"
  assumes set_list: "list_statuses mr sha (set_status c s) =
      list_statuses mr sha s @ (if StatusMR c = mr \<and> StatusSHA c = sha then [c] else [])"
begin

text \<open>The state a reader of the merge request sees last.\<close>

definition current :: "int \<Rightarrow> string \<Rightarrow> 's \<Rightarrow> CheckState option" where
  "current mr sha s =
     (if list_statuses mr sha s = [] then None else Some (StatusState (last (list_statuses mr sha s))))"

lemma current_set: "current (StatusMR c) (StatusSHA c) (set_status c s) = Some (StatusState c)"
  by (simp add: current_def set_list)

end

interpretation mem_status: status_publisher SetStatus ListStatuses
  by unfold_locales (simp add: SetStatus_def ListStatuses_def)

end
