(* ===== verification/Planner.thy ===== *)
theory Planner
  imports Service Report Run_Store Vcs
begin

text \<open>
  The planner, \<^verbatim>\<open>internal/orchestrator/planner.go\<close>, with the in-memory cluster reader of
  \<^verbatim>\<open>internal/orchestrator/cluster_memory.go\<close>.

  A planner holds a run store, a comment store, a status publisher and a policy evaluator, any of
  which may be absent; each is a record of operations over a state of its own. What the outside world
  answers while a project is planned (the file system, the decoders, the cluster, the clock, and what
  other users of the run store did since the last project) is a record \<open>world\<close>, one per project.
\<close>

section \<open>The planner and its surroundings\<close>

record 'r RunOps =
  opStart :: "int \<Rightarrow> int \<Rightarrow> string \<Rightarrow> string \<Rightarrow> 'r \<Rightarrow> Record \<times> 'r"
  opComplete :: "int \<Rightarrow> int \<Rightarrow> State \<Rightarrow> string \<Rightarrow> 'r \<Rightarrow> 'r"
  opAddArtifact :: "int \<Rightarrow> string \<Rightarrow> string \<Rightarrow> 'r \<Rightarrow> 'r"
  opSetLatestSHA :: "int \<Rightarrow> string \<Rightarrow> 'r \<Rightarrow> 'r"
  opIsStale :: "int \<Rightarrow> string \<Rightarrow> 'r \<Rightarrow> bool"

record ('r, 'c, 's) Planner =
  repoRoot :: string
  plannerComments :: "(int \<Rightarrow> string \<Rightarrow> 'c \<Rightarrow> Comment \<times> 'c) option"
  plannerStatus :: "(StatusCheck \<Rightarrow> 's \<Rightarrow> 's) option"
  plannerRuns :: "'r RunOps option"
  policyEval :: "(Resource list \<Rightarrow> string \<Rightarrow> Finding list) option"

record ('r, 'c, 's) PState =
  runsS :: 'r
  commentsS :: 'c
  statusS :: 's

text \<open>A cluster reader, with the wider method when it has one.\<close>

datatype ClusterReader =
    PlainReader "string \<Rightarrow> string \<Rightarrow> Resource list result"
  | ProjectAwareReader "string \<Rightarrow> string \<Rightarrow> string \<Rightarrow> Resource list \<Rightarrow> Resource list result"

record 'r world =
  others :: "'r \<Rightarrow> 'r"
  conf_stat :: "string \<Rightarrow> bool"
  conf_read :: "string \<Rightarrow> string result"
  wfiles :: env
  wcluster :: ClusterReader
  wyaml :: diff_env
  wnow :: int

section \<open>The in-memory cluster reader\<close>

record MemoryClusterReader =
  ByClusterNS :: "string \<Rightarrow> Resource list"

text \<open>None is the nil reader.\<close>

definition ListResources :: "MemoryClusterReader option \<Rightarrow> string \<Rightarrow> string \<Rightarrow> Resource list result" where
  "ListResources m clusterRef namespace =
     (case m of None \<Rightarrow> Inr [] | Some m \<Rightarrow> Inr (ByClusterNS m (clusterRef @ ''/'' @ namespace)))"

section \<open>Keeping the touched resources\<close>

definition manifest_files :: "string list \<Rightarrow> string list" where
  "manifest_files changedFiles =
     filter (\<lambda>f. ToLower (Ext f) \<in> {''.yaml'', ''.yml''}) (map (\<lambda>f. Clean (TrimSpace f)) changedFiles)"

definition touched :: "string list \<Rightarrow> string \<Rightarrow> Resource \<Rightarrow> bool" where
  "touched manifests root r =
     (if SourcePath r = [] then False
      else (case Rel root (SourcePath r) of
              None \<Rightarrow> False
            | Some rel \<Rightarrow> Clean rel \<in> set manifests))"

definition filterDesiredByChangedFiles :: "Resource list \<Rightarrow> string list \<Rightarrow> string \<Rightarrow> Resource list" where
  "filterDesiredByChangedFiles desired changedFiles root =
     (if desired = [] \<or> changedFiles = [] then desired
      else
        (let manifests = manifest_files changedFiles
         in if manifests = [] then [] else filter (touched manifests root) desired))"

section \<open>Status and run bookkeeping\<close>

definition plan_status :: "MergeRequestEvent \<Rightarrow> CheckState \<Rightarrow> string \<Rightarrow> StatusCheck" where
  "plan_status evt st desc =
     \<lparr>StatusMR = MergeReqID evt, StatusSHA = HeadSHA evt, StatusContext = ''thule/plan'', StatusState = st,
      StatusDescription = desc\<rparr>"

definition set_status ::
  "('r, 'c, 's) Planner \<Rightarrow> MergeRequestEvent \<Rightarrow> CheckState \<Rightarrow> string \<Rightarrow> ('r, 'c, 's) PState \<Rightarrow> ('r, 'c, 's) PState"
where
  "set_status p evt st desc s =
     (case plannerStatus p of
        None \<Rightarrow> s
      | Some op \<Rightarrow> s\<lparr>statusS := op (plan_status evt st desc) (statusS s)\<rparr>)"

definition complete_run ::
  "('r, 'c, 's) Planner \<Rightarrow> int \<Rightarrow> int \<Rightarrow> State \<Rightarrow> string \<Rightarrow> ('r, 'c, 's) PState \<Rightarrow> ('r, 'c, 's) PState"
where
  "complete_run p t runID st err s =
     (case plannerRuns p of
        None \<Rightarrow> s
      | Some ops \<Rightarrow> s\<lparr>runsS := opComplete ops t runID st err (runsS s)\<rparr>)"

definition failRuns ::
  "('r, 'c, 's) Planner \<Rightarrow> int \<Rightarrow> int list \<Rightarrow> int \<Rightarrow> string \<Rightarrow> ('r, 'c, 's) PState \<Rightarrow> ('r, 'c, 's) PState"
where
  "failRuns p t runIDs currentRunID err s =
     foldl (\<lambda>s runID. if runID \<le> 0 \<or> runID = currentRunID then s else complete_run p t runID StateFailed err s)
       s runIDs"

definition finishWithError ::
  "('r, 'c, 's) Planner \<Rightarrow> int \<Rightarrow> MergeRequestEvent \<Rightarrow> int \<Rightarrow> string \<Rightarrow> ('r, 'c, 's) PState \<Rightarrow> ('r, 'c, 's) PState"
where
  "finishWithError p t evt runID err s =
     set_status p evt CheckFailed err
       (if runID > 0 then complete_run p t runID StateFailed err s else s)"

section \<open>Planning one project\<close>

text \<open>What the loop over the projects carries.\<close>

record loop_vars =
  planned :: bool
  projectPlans :: "ProjectPlan list"
  runIDs :: "int list"
  maxDetails :: int

text \<open>How an iteration ends: the commit is stale, an error ends the plan, or the loop goes on.\<close>

datatype 'a iteration = Stale | Failed string | Next 'a

definition fail_plan ::
  "('r, 'c, 's) Planner \<Rightarrow> int \<Rightarrow> MergeRequestEvent \<Rightarrow> loop_vars \<Rightarrow> int \<Rightarrow> string \<Rightarrow> ('r, 'c, 's) PState \<Rightarrow>
   loop_vars iteration \<times> ('r, 'c, 's) PState"
where
  "fail_plan p t evt v runID err s =
     (Failed err, finishWithError p t evt runID err (failRuns p t (runIDs v) runID err s))"

definition start_run ::
  "('r, 'c, 's) Planner \<Rightarrow> int \<Rightarrow> MergeRequestEvent \<Rightarrow> string \<Rightarrow> loop_vars \<Rightarrow> ('r, 'c, 's) PState \<Rightarrow>
   int \<times> loop_vars \<times> ('r, 'c, 's) PState"
where
  "start_run p t evt project v s =
     (case plannerRuns p of
        None \<Rightarrow> (0, v, s)
      | Some ops \<Rightarrow>
          (let (rr, r') = opStart ops t (MergeReqID evt) (HeadSHA evt) project (runsS s)
           in (RunID rr, v\<lparr>runIDs := runIDs v @ [RunID rr]\<rparr>, s\<lparr>runsS := r'\<rparr>)))"

definition live_resources :: "ClusterReader \<Rightarrow> Config \<Rightarrow> Resource list \<Rightarrow> Resource list result" where
  "live_resources cl c desired =
     (case cl of
        ProjectAwareReader f \<Rightarrow> f (ConfProject c) (ClusterRef c) (ConfNamespace c) desired
      | PlainReader f \<Rightarrow> f (ClusterRef c) (ConfNamespace c))"

definition diff_options :: "Config \<Rightarrow> Options" where
  "diff_options c =
     \<lparr>PruneDeletes = Prune (ConfDiff c), OptIgnoreFields = IgnoreFields (ConfDiff c),
      IgnoreActualExtraFields = True\<rparr>"

definition project_plan ::
  "('r, 'c, 's) Planner \<Rightarrow> diff_env \<Rightarrow> Config \<Rightarrow> Resource list \<Rightarrow> Resource list \<Rightarrow> ProjectPlan"
where
  "project_plan p e c desired actual =
     (let (changes, summary) = Compute e desired actual (diff_options c)
      in \<lparr>PlanProject = ConfProject c, PlanChanges = changes, PlanSummary = summary,
          PlanFindings = (case policyEval p of None \<Rightarrow> [] | Some ev \<Rightarrow> ev desired (Profile (ConfPolicy c)))\<rparr>)"

text \<open>From the desired resources of a project to its plan.\<close>

definition plan_desired ::
  "('r, 'c, 's) Planner \<Rightarrow> 'r world \<Rightarrow> MergeRequestEvent \<Rightarrow> Config \<Rightarrow> Resource list \<Rightarrow> loop_vars \<Rightarrow>
   ('r, 'c, 's) PState \<Rightarrow> loop_vars iteration \<times> ('r, 'c, 's) PState"
where
  "plan_desired p w evt c desired v s =
     (if desired = [] then (Next v, s)
      else
        (let (runID, v, s) = start_run p (wnow w) evt (ConfProject c) v s
         in (case live_resources (wcluster w) c desired of
               Inl err \<Rightarrow> fail_plan p (wnow w) evt v runID err s
             | Inr actual \<Rightarrow>
                 (Next (v\<lparr>projectPlans := projectPlans v @ [project_plan p (wyaml w) c desired actual]\<rparr>), s))))"

definition plan_project ::
  "('r, 'c, 's) Planner \<Rightarrow> 'r world \<Rightarrow> MergeRequestEvent \<Rightarrow> DiscoveredProject \<Rightarrow> loop_vars \<Rightarrow>
   ('r, 'c, 's) PState \<Rightarrow> loop_vars iteration \<times> ('r, 'c, 's) PState"
where
  "plan_project p w evt prj v s0 =
     (let s = s0\<lparr>runsS := others w (runsS s0)\<rparr>;
          configPath = Join [repoRoot p, ConfigPath prj]
      in if (case plannerRuns p of None \<Rightarrow> False | Some ops \<Rightarrow> opIsStale ops (MergeReqID evt) (HeadSHA evt) (runsS s))
         then (Stale, s)
         else if \<not> conf_stat w configPath then (Next v, s)
         else
           (let v = v\<lparr>planned := True\<rparr>
            in (case Load (conf_read w) configPath of
                  Inl err \<Rightarrow> fail_plan p (wnow w) evt v 0 err s
                | Inr c \<Rightarrow>
                    (let v = (if MaxResourceDetails (ConfComment c) > maxDetails v
                              then v\<lparr>maxDetails := MaxResourceDetails (ConfComment c)\<rparr> else v)
                     in (case RenderProject (wfiles w) (Join [repoRoot p, Root prj]) c of
                           Inl err \<Rightarrow> fail_plan p (wnow w) evt v 0 err s
                         | Inr rendered \<Rightarrow>
                             plan_desired p w evt c
                               (filterDesiredByChangedFiles rendered (ChangedFiles evt) (repoRoot p)) v s)))))"

fun plan_projects ::
  "('r, 'c, 's) Planner \<Rightarrow> (nat \<Rightarrow> 'r world) \<Rightarrow> MergeRequestEvent \<Rightarrow> nat \<Rightarrow> DiscoveredProject list \<Rightarrow> loop_vars \<Rightarrow>
   ('r, 'c, 's) PState \<Rightarrow> loop_vars iteration \<times> ('r, 'c, 's) PState"
where
  "plan_projects p ws evt i [] v s = (Next v, s)"
| "plan_projects p ws evt i (prj # prjs) v s =
     (case plan_project p (ws i) evt prj v s of
        (Next v', s') \<Rightarrow> plan_projects p ws evt (Suc i) prjs v' s'
      | (Stale, s') \<Rightarrow> (Stale, s')
      | (Failed err, s') \<Rightarrow> (Failed err, s'))"

section \<open>Publishing\<close>

definition post_comment ::
  "('r, 'c, 's) Planner \<Rightarrow> MergeRequestEvent \<Rightarrow> string \<Rightarrow> ('r, 'c, 's) PState \<Rightarrow> int \<times> ('r, 'c, 's) PState"
where
  "post_comment p evt body s =
     (case plannerComments p of
        None \<Rightarrow> (0, s)
      | Some op \<Rightarrow> (let (c, cs) = op (MergeReqID evt) body (commentsS s) in (CommentID c, s\<lparr>commentsS := cs\<rparr>)))"

definition finish_run ::
  "'r RunOps \<Rightarrow> int \<Rightarrow> string \<Rightarrow> int \<Rightarrow> 'r \<Rightarrow> int \<Rightarrow> 'r"
where
  "finish_run ops t body commentID r runID =
     (if runID \<le> 0 then r
      else
        (let r = opAddArtifact ops runID ''plan-comment'' body r;
             r = (if commentID > 0 then opAddArtifact ops runID ''comment-id'' (itoa commentID) r else r)
         in opComplete ops t runID StateSuccess [] r))"

definition plan_body :: "MergeRequestEvent \<Rightarrow> loop_vars \<Rightarrow> string" where
  "plan_body evt v =
     (if planned v \<and> projectPlans v \<noteq> [] then BuildAggregatedPlanComment (HeadSHA evt) (projectPlans v) (maxDetails v)
      else BuildNoChangesComment (HeadSHA evt) (ChangedFiles evt) 50)"

definition publish ::
  "('r, 'c, 's) Planner \<Rightarrow> int \<Rightarrow> MergeRequestEvent \<Rightarrow> loop_vars \<Rightarrow> ('r, 'c, 's) PState \<Rightarrow> ('r, 'c, 's) PState"
where
  "publish p t evt v s =
     (let (commentID, s) = post_comment p evt (plan_body evt v) s
      in if planned v then
           (case plannerRuns p of
              None \<Rightarrow> s
            | Some ops \<Rightarrow> s\<lparr>runsS := foldl (finish_run ops t (plan_body evt v) commentID) (runsS s) (runIDs v)\<rparr>)
         else s)"

text \<open>
  \<open>PlanForEvent\<close> returns the error, if any. \<open>perm\<close> is the order in which discovery visits its map,
  \<open>t\<close> the clock when the results are published.
\<close>

definition PlanForEvent ::
  "(string list \<Rightarrow> string list) \<Rightarrow> ('r, 'c, 's) Planner \<Rightarrow> (nat \<Rightarrow> 'r world) \<Rightarrow> int \<Rightarrow> MergeRequestEvent \<Rightarrow>
   ('r, 'c, 's) PState \<Rightarrow> string option \<times> ('r, 'c, 's) PState"
where
  "PlanForEvent perm p ws t evt s =
     (let s = (case plannerRuns p of
                 None \<Rightarrow> s
               | Some ops \<Rightarrow> s\<lparr>runsS := opSetLatestSHA ops (MergeReqID evt) (HeadSHA evt) (runsS s)\<rparr>);
          s = set_status p evt CheckPending ''Thule plan running'' s;
          projects = sort_key ConfigPath (DiscoverFromChangedFiles perm (ChangedFiles evt))
      in (case plan_projects p ws evt 0 projects
                 \<lparr>planned = False, projectPlans = [], runIDs = [], maxDetails = 0\<rparr> s of
            (Stale, s) \<Rightarrow> (None, s)
          | (Failed err, s) \<Rightarrow> (Some err, s)
          | (Next v, s) \<Rightarrow> (None, set_status p evt CheckSuccess ''Thule plan completed'' (publish p t evt v s))))"

end
