(* ===== verification/Go_Env.thy ===== *)
theory Go_Env
  imports Config
begin

text \<open>
  Settings from the process environment: the helpers \<^verbatim>\<open>getEnv\<close> and \<^verbatim>\<open>getEnvInt\<close> that the packages
  repeat, and the parsers of the standard library they use. An environment is a function from names
  to values, with the empty string for an unset name, as \<^verbatim>\<open>os.Getenv\<close> returns.
\<close>

type_synonym environ = "string \<Rightarrow> string"

definition getEnv :: "environ \<Rightarrow> string \<Rightarrow> string \<Rightarrow> string" where
  "getEnv env key fallback = (if env key \<noteq> [] then env key else fallback)"

text \<open>The error of \<^verbatim>\<open>strconv.Atoi\<close>, for a text it refuses.\<close>

definition atoi_syntax :: "string \<Rightarrow> bool" where
  "atoi_syntax s \<longleftrightarrow>
     parse_nat (case s of c # cs \<Rightarrow> if c = CHR ''-'' \<or> c = CHR ''+'' then cs else s | [] \<Rightarrow> []) \<noteq> None"

definition atoi_error :: "string \<Rightarrow> string" where
  "atoi_error s =
     ''strconv.Atoi: parsing '' @ quoted s @
     (if atoi_syntax s then '': value out of range'' else '': invalid syntax'')"

text \<open>\<^verbatim>\<open>getEnvInt\<close> of the packages \<^verbatim>\<open>queue\<close> and \<^verbatim>\<open>storage\<close>.\<close>

definition getEnvInt :: "environ \<Rightarrow> string \<Rightarrow> int \<Rightarrow> int result" where
  "getEnvInt env key fallback =
     (if env key = [] then Inr fallback
      else (case Atoi (env key) of
              None \<Rightarrow> Inl (''invalid '' @ key @ '': '' @ atoi_error (env key))
            | Some n \<Rightarrow> Inr n))"

section \<open>Durations\<close>

text \<open>
  \<^verbatim>\<open>time.ParseDuration\<close>: a sign and then numbers with units, in nanoseconds. The fraction of a
  number is scaled exactly and cut off; Go scales it in \<^verbatim>\<open>float64\<close>, which can differ by a nanosecond
  for fractions of more than fifteen digits.
\<close>

definition unit_ns :: "string \<Rightarrow> int option" where
  "unit_ns u =
     map_of [(''ns'', 1), (''us'', 10 ^ 3), ([CHR 0xC2, CHR 0xB5, CHR ''s''], 10 ^ 3),
             ([CHR 0xCE, CHR 0xBC, CHR ''s''], 10 ^ 3), (''ms'', 10 ^ 6), (''s'', 10 ^ 9),
             (''m'', 60 * 10 ^ 9), (''h'', 3600 * 10 ^ 9)] u"

definition not_unit_char :: "char \<Rightarrow> bool" where
  "not_unit_char c \<longleftrightarrow> c = CHR ''.'' \<or> is_digit c"

text \<open>One number with its unit: its length in nanoseconds and the rest of the text.\<close>

definition digits_int :: "string \<Rightarrow> int" where
  "digits_int ds = (case digits_val 0 ds of None \<Rightarrow> 0 | Some n \<Rightarrow> int n)"

definition duration_item :: "string \<Rightarrow> (int \<times> string) option" where
  "duration_item s =
     (let whole = takeWhile is_digit s; s1 = dropWhile is_digit s;
          dotted = (case s1 of c # _ \<Rightarrow> c = CHR ''.'' | [] \<Rightarrow> False);
          s2 = (if dotted then tl s1 else s1);
          frac = (if dotted then takeWhile is_digit s2 else []);
          s3 = (if dotted then dropWhile is_digit s2 else s2);
          u = takeWhile (\<lambda>c. \<not> not_unit_char c) s3; rest = dropWhile (\<lambda>c. \<not> not_unit_char c) s3
      in if whole = [] \<and> frac = [] then None
         else (case unit_ns u of
                 None \<Rightarrow> None
               | Some n \<Rightarrow>
                   Some (digits_int whole * n + digits_int frac * n div 10 ^ length frac, rest)))"

primrec duration_items :: "nat \<Rightarrow> string \<Rightarrow> int option" where
  "duration_items 0 s = None"
| "duration_items (Suc k) s =
     (if s = [] then Some 0
      else (case duration_item s of
              None \<Rightarrow> None
            | Some (n, r) \<Rightarrow> map_option (\<lambda>m. n + m) (duration_items k r)))"

text \<open>The value has to fit 64 bits; the smallest negative one is accepted too.\<close>

definition ParseDuration :: "string \<Rightarrow> int option" where
  "ParseDuration s =
     (let neg = (case s of c # _ \<Rightarrow> c = CHR ''-'' | [] \<Rightarrow> False);
          t = (case s of c # r \<Rightarrow> if c = CHR ''-'' \<or> c = CHR ''+'' then r else s | [] \<Rightarrow> [])
      in if t = ''0'' then Some 0
         else if t = [] then None
         else (case duration_items (Suc (length t)) t of
                 None \<Rightarrow> None
               | Some n \<Rightarrow>
                   (if neg \<and> n \<le> 2 ^ 63 then Some (- n)
                    else if \<not> neg \<and> n < 2 ^ 63 then Some n
                    else None)))"

lemma ParseDuration_5m: "ParseDuration ''5m'' = Some (300 * 10 ^ 9)"
  by code_simp

text \<open>Every number with its unit takes at least one byte, so the fuel is never what ends the loop.\<close>

lemma duration_item_shorter:
  assumes "duration_item s = Some (n, r)"
  shows "length r < length s"
proof -
  have short: "length (if b then dropWhile is_digit (tl t) else t) \<le> length t \<and>
      (b \<longrightarrow> length (if b then dropWhile is_digit (tl t) else t) < length t)"
    if "b = (case t of c # _ \<Rightarrow> c = CHR ''.'' | [] \<Rightarrow> False)" for b t
    using that length_dropWhile_le [of is_digit "tl t"] by (cases t) auto
  let ?s1 = "dropWhile is_digit s"
  let ?d = "case ?s1 of c # _ \<Rightarrow> c = CHR ''.'' | [] \<Rightarrow> False"
  let ?s3 = "if ?d then dropWhile is_digit (tl ?s1) else ?s1"
  have "\<not> (takeWhile is_digit s = [] \<and> (if ?d then takeWhile is_digit (tl ?s1) else []) = [])"
    and r: "r = dropWhile (\<lambda>c. \<not> not_unit_char c) ?s3"
    using assms by (auto simp: duration_item_def Let_def split: if_splits option.splits)
  have "length ?s1 = length s - length (takeWhile is_digit s)"
    by (metis add_diff_cancel_left' length_append takeWhile_dropWhile_id)
  moreover have "length (takeWhile is_digit s) \<le> length s" by (rule length_takeWhile_le)
  moreover have "length r \<le> length ?s3" unfolding r by (rule length_dropWhile_le)
  moreover have "length ?s3 \<le> length ?s1 \<and> (?d \<longrightarrow> length ?s3 < length ?s1)"
    using short [of ?d ?s1] by blast
  ultimately show ?thesis
    using \<open>\<not> (takeWhile is_digit s = [] \<and> _)\<close> by (cases ?d; cases "takeWhile is_digit s") auto
qed

lemma duration_items_fuel:
  "length s < n \<Longrightarrow> length s < m \<Longrightarrow> duration_items n s = duration_items m s"
proof (induction n arbitrary: m s)
  case (Suc n)
  then obtain k where m: "m = Suc k" by (cases m) auto
  have "duration_items n r = duration_items k r" if "duration_item s = Some (x, r)" for x r
    using duration_item_shorter [OF that] Suc.prems m by (intro Suc.IH) auto
  then show ?case using m by (auto split: option.splits)
qed simp

end
