(* ===== verification/Repo.thy ===== *)
theory Repo
  imports Go_Path Go_Env
begin

text \<open>
  \<^verbatim>\<open>internal/repo\<close>: the local clone the worker plans from. \<^verbatim>\<open>sync.go\<close> brings it to a commit,
  \<^verbatim>\<open>diff.go\<close> lists the files a commit changes against its merge base, \<^verbatim>\<open>auth.go\<close> picks the
  credentials.

  The git library and the file system are the fields of the record \<open>git\<close>: each operation acts on a
  state \<open>'g\<close> of the disk and the remote, and returns an error or nothing. Credentials are passed on
  to it unread.
\<close>

datatype open_result = Opened | RepositoryNotExists | OpenFailed string

datatype fetch_result = Fetched | AlreadyUpToDate | FetchFailed string

text \<open>What is checked out: a commit by its hash, or, when that is the zero hash, a branch.\<close>

record CheckoutOptions =
  coHash :: string
  coBranch :: string
  coForce :: bool

datatype repack_result = Repacked | PackedNotSupported | RepackFailed string

datatype prune_result = Pruned | LooseNotSupported | PruneFailed string

record 'a CloneOptions =
  cloneURL :: string
  cloneAuth :: 'a
  cloneRef :: "string option"
  SingleBranch :: bool

record ('g, 'a) git =
  ErrRepositoryNotExists :: string
  PlainOpen :: "string \<Rightarrow> 'g \<Rightarrow> open_result"
  MkdirAll :: "string \<Rightarrow> 'g \<Rightarrow> string option \<times> 'g"
  PlainClone :: "string \<Rightarrow> 'a CloneOptions \<Rightarrow> 'g \<Rightarrow> string option \<times> 'g"
  Fetch :: "string \<Rightarrow> 'a \<Rightarrow> string list \<Rightarrow> 'g \<Rightarrow> fetch_result \<times> 'g"
  Worktree :: "string \<Rightarrow> 'g \<Rightarrow> string option"
  Checkout :: "string \<Rightarrow> CheckoutOptions \<Rightarrow> 'g \<Rightarrow> string option \<times> 'g"
  RepackObjects :: "string \<Rightarrow> 'g \<Rightarrow> repack_result \<times> 'g"
  PruneObjects :: "string \<Rightarrow> int \<Rightarrow> 'g \<Rightarrow> prune_result \<times> 'g"
  IsHash :: "string \<Rightarrow> bool"
  NewHash :: "string \<Rightarrow> string"
  ZeroHash :: string
  NewBranchReferenceName :: "string \<Rightarrow> string"
  NewRemoteReferenceName :: "string \<Rightarrow> string \<Rightarrow> string"
  Reference :: "string \<Rightarrow> string \<Rightarrow> 'g \<Rightarrow> string option"
  CommitObject :: "string \<Rightarrow> string \<Rightarrow> 'g \<Rightarrow> string option"
  MergeBase :: "string \<Rightarrow> string \<Rightarrow> string \<Rightarrow> 'g \<Rightarrow> string list option"
  CommitPatch :: "string \<Rightarrow> string \<Rightarrow> string \<Rightarrow> 'g \<Rightarrow> (string option \<times> string option) list result"

section \<open>Keeping the clone at a commit\<close>

record 'a Syncer =
  syncURL :: string
  syncRef :: string
  syncDir :: string
  syncAuth :: 'a

definition NewSyncer :: "string \<Rightarrow> string \<Rightarrow> string \<Rightarrow> 'a \<Rightarrow> 'a Syncer" where
  "NewSyncer url ref dir auth = \<lparr>syncURL = url, syncRef = ref, syncDir = dir, syncAuth = auth\<rparr>"

definition Enabled :: "'a Syncer \<Rightarrow> bool" where
  "Enabled s \<longleftrightarrow> syncURL s \<noteq> []"

definition normalizeRef :: "('g, 'a) git \<Rightarrow> string \<Rightarrow> string" where
  "normalizeRef G ref = (if HasPrefix ref ''refs/'' then ref else NewBranchReferenceName G ref)"

definition ref_specs :: "string list" where
  "ref_specs = [''+refs/heads/*:refs/remotes/origin/*'', ''+refs/merge-requests/*:refs/merge-requests/*'']"

text \<open>Open the clone, or make it when there is none.\<close>

definition open_or_clone :: "('g, 'a) git \<Rightarrow> 'a Syncer \<Rightarrow> 'g \<Rightarrow> string option \<times> 'g" where
  "open_or_clone G s g =
     (case PlainOpen G (syncDir s) g of
        Opened \<Rightarrow> (None, g)
      | OpenFailed e \<Rightarrow> (Some (''open repo: '' @ e), g)
      | RepositoryNotExists \<Rightarrow>
          (case MkdirAll G (Dir (syncDir s)) g of
             (Some e, g1) \<Rightarrow> (Some (''create repo parent: '' @ e), g1)
           | (None, g1) \<Rightarrow>
               (case PlainClone G (syncDir s)
                       \<lparr>cloneURL = syncURL s, cloneAuth = syncAuth s,
                        cloneRef = (if syncRef s \<noteq> [] then Some (normalizeRef G (syncRef s)) else None),
                        SingleBranch = (syncRef s \<noteq> [])\<rparr> g1 of
                  (Some e, g2) \<Rightarrow> (Some (''clone repo: '' @ e), g2)
                | (None, g2) \<Rightarrow> (None, g2))))"

text \<open>
  A field that the code does not set has its zero value. \<^verbatim>\<open>NewHash\<close> of a text that is not hexadecimal
  is the zero hash too, which the library takes as no hash given.
\<close>

definition checkout_at :: "('g, 'a) git \<Rightarrow> 'a Syncer \<Rightarrow> string \<Rightarrow> 'g \<Rightarrow> string option \<times> 'g" where
  "checkout_at G s sha g =
     (if sha \<noteq> [] then
        (case Checkout G (syncDir s) \<lparr>coHash = NewHash G sha, coBranch = [], coForce = True\<rparr> g of
           (Some e, g') \<Rightarrow> (Some (''checkout sha '' @ sha @ '': '' @ e), g')
         | (None, g') \<Rightarrow> (None, g'))
      else if syncRef s \<noteq> [] then
        (case Checkout G (syncDir s) \<lparr>coHash = ZeroHash G, coBranch = normalizeRef G (syncRef s), coForce = True\<rparr> g of
           (Some e, g') \<Rightarrow> (Some (''checkout ref '' @ syncRef s @ '': '' @ e), g')
         | (None, g') \<Rightarrow> (None, g'))
      else (None, g))"

definition Sync :: "('g, 'a) git \<Rightarrow> 'a Syncer \<Rightarrow> string \<Rightarrow> 'g \<Rightarrow> string option \<times> 'g" where
  "Sync G s sha g =
     (if syncURL s = [] then (None, g)
      else if syncDir s = [] then (Some ''repo dir is empty'', g)
      else
        (case open_or_clone G s g of
           (Some e, g1) \<Rightarrow> (Some e, g1)
         | (None, g1) \<Rightarrow>
             (case Fetch G (syncDir s) (syncAuth s) ref_specs g1 of
                (FetchFailed e, g2) \<Rightarrow> (Some (''fetch repo: '' @ e), g2)
              | (_, g2) \<Rightarrow>
                  (case Worktree G (syncDir s) g2 of
                     Some e \<Rightarrow> (Some (''worktree: '' @ e), g2)
                   | None \<Rightarrow> checkout_at G s sha g2))))"

text \<open>\<open>now\<close> is the clock; objects younger than an hour are kept.\<close>

definition Maintain :: "('g, 'a) git \<Rightarrow> 'a Syncer \<Rightarrow> int \<Rightarrow> 'g \<Rightarrow> string option \<times> 'g" where
  "Maintain G s now g =
     (if \<not> Enabled s then (None, g)
      else
        (case PlainOpen G (syncDir s) g of
           RepositoryNotExists \<Rightarrow> (None, g)
         | OpenFailed e \<Rightarrow> (Some (''open repo: '' @ e), g)
         | Opened \<Rightarrow>
             (case Fetch G (syncDir s) (syncAuth s) ref_specs g of
                (FetchFailed e, g1) \<Rightarrow> (Some (''prune fetch: '' @ e), g1)
              | (_, g1) \<Rightarrow>
                  (case RepackObjects G (syncDir s) g1 of
                     (RepackFailed _, g2) \<Rightarrow> (None, g2)
                   | (_, g2) \<Rightarrow> (None, snd (PruneObjects G (syncDir s) (now - 3600 * 10 ^ 9) g2))))))"

section \<open>The files a commit changes\<close>

text \<open>The loop that drops repeated paths, keeping the first of each.\<close>

fun keep_first :: "string list \<Rightarrow> string list \<Rightarrow> string list" where
  "keep_first seen [] = []"
| "keep_first seen (p # ps) =
     (if p \<in> set seen then keep_first seen ps else p # keep_first (p # seen) ps)"

definition resolveRef :: "('g, 'a) git \<Rightarrow> string \<Rightarrow> string \<Rightarrow> 'g \<Rightarrow> string result" where
  "resolveRef G dir ref g =
     (if ref = [] then Inl ''base ref is empty''
      else if IsHash G ref then Inr (NewHash G ref)
      else
        (let candidates = (if HasPrefix ref ''refs/'' then [ref]
                           else [NewRemoteReferenceName G ''origin'' ref, NewBranchReferenceName G ref])
         in (case List.find (\<lambda>n. Reference G dir n g \<noteq> None) candidates of
               Some n \<Rightarrow> Inr (the (Reference G dir n g))
             | None \<Rightarrow> Inl (''base ref '' @ quoted ref @ '' not found''))))"

text \<open>The path of a file patch: where the file is now, or where it was.\<close>

definition patch_path :: "string option \<times> string option \<Rightarrow> string" where
  "patch_path fp = (case fp of (_, Some to) \<Rightarrow> to | (Some from, None) \<Rightarrow> from | (None, None) \<Rightarrow> [])"

definition patch_files :: "(string option \<times> string option) list \<Rightarrow> string list" where
  "patch_files fps =
     keep_first [] (map (\<lambda>p. TrimPrefix p ''./'') (filter (\<lambda>p. p \<noteq> []) (map patch_path fps)))"

text \<open>\<^const>\<open>CommitObject\<close> and \<^const>\<open>Worktree\<close> return an error or nothing.\<close>

definition RepoChangedFiles :: "('g, 'a) git \<Rightarrow> string \<Rightarrow> string \<Rightarrow> string \<Rightarrow> 'g \<Rightarrow> string list result" where
  "RepoChangedFiles G repoDir baseRef headSHA g =
     (if repoDir = [] then Inl ''repo dir is empty''
      else if headSHA = [] then Inl ''head sha is empty''
      else
        (case PlainOpen G repoDir g of
           RepositoryNotExists \<Rightarrow> Inl (''open repo: '' @ ErrRepositoryNotExists G)
         | OpenFailed e \<Rightarrow> Inl (''open repo: '' @ e)
         | Opened \<Rightarrow>
             (case resolveRef G repoDir baseRef g of
                Inl e \<Rightarrow> Inl e
              | Inr baseHash \<Rightarrow>
                  (case CommitObject G repoDir (NewHash G headSHA) g of
                     Some e \<Rightarrow> Inl (''head commit: '' @ e)
                   | None \<Rightarrow>
                       (case CommitObject G repoDir baseHash g of
                          Some e \<Rightarrow> Inl (''base commit: '' @ e)
                        | None \<Rightarrow>
                            (let mergeBase = (case MergeBase G repoDir (NewHash G headSHA) baseHash g of
                                                Some (b # _) \<Rightarrow> b | _ \<Rightarrow> baseHash)
                             in (case CommitPatch G repoDir mergeBase (NewHash G headSHA) g of
                                   Inl e \<Rightarrow> Inl (''diff commits: '' @ e)
                                 | Inr fps \<Rightarrow> Inr (patch_files fps))))))))"

section \<open>Credentials\<close>

text \<open>
  \<open>from_file\<close> and \<open>from_key\<close> are the SSH library's readers of a private key; the flag tells that host
  keys are not checked.
\<close>

datatype 'k auth_method =
    NoAuth
  | BasicAuth string string
  | SSHKey 'k bool

definition AuthFromEnv ::
  "(string \<Rightarrow> string \<Rightarrow> string \<Rightarrow> 'k result) \<Rightarrow> (string \<Rightarrow> string \<Rightarrow> string \<Rightarrow> 'k result) \<Rightarrow> environ \<Rightarrow>
   'k auth_method result" where
  "AuthFromEnv from_file from_key env =
     (if env ''THULE_GIT_HTTP_TOKEN'' \<noteq> [] then
        Inr (BasicAuth (getEnv env ''THULE_GIT_HTTP_USER'' ''oauth2'') (env ''THULE_GIT_HTTP_TOKEN''))
      else if env ''THULE_GIT_HTTP_USER'' \<noteq> [] then
        Inr (BasicAuth (env ''THULE_GIT_HTTP_USER'') (env ''THULE_GIT_HTTP_PASSWORD''))
      else
        (let keyPath = env ''THULE_GIT_SSH_KEY_PATH''; key = env ''THULE_GIT_SSH_KEY'';
             user = getEnv env ''THULE_GIT_SSH_USER'' ''git'';
             passphrase = env ''THULE_GIT_SSH_PASSPHRASE''
         in if keyPath = [] \<and> key = [] then Inr NoAuth
            else (case (if keyPath \<noteq> [] then from_file user keyPath passphrase
                        else from_key user key passphrase) of
                    Inl e \<Rightarrow> Inl (''ssh auth: '' @ e)
                  | Inr k \<Rightarrow> Inr (SSHKey k True))))"

section \<open>What the clone and its files satisfy\<close>

lemma remdups_snoc: "remdups (xs @ [p]) = filter (\<lambda>x. x \<noteq> p) (remdups xs) @ [p]"
  by (induction xs) auto

text \<open>The loop keeps exactly the first occurrence of every path.\<close>

lemma keep_first_eq: "keep_first seen ps = filter (\<lambda>p. p \<notin> set seen) (rev (remdups (rev ps)))"
proof (induction ps arbitrary: seen)
  case (Cons p ps)
  have "rev (remdups (rev (p # ps))) = p # filter (\<lambda>x. x \<noteq> p) (rev (remdups (rev ps)))"
    by (simp add: remdups_snoc rev_filter)
  then show ?case
    using Cons [of seen] Cons [of "p # seen"] by (auto simp: conj_commute intro!: filter_cong)
qed simp

lemma keep_first_Nil: "keep_first [] ps = rev (remdups (rev ps))"
  by (simp add: keep_first_eq)

lemma keep_first_facts: "distinct (keep_first [] ps)" "set (keep_first [] ps) = set ps"
  by (simp_all add: keep_first_Nil)

lemma resolveRef_ok:
  assumes "resolveRef G dir ref g = Inr h"
  shows "ref \<noteq> [] \<and>
    (IsHash G ref \<and> h = NewHash G ref \<or>
     (\<exists>n. Reference G dir n g = Some h \<and>
        n \<in> {ref, NewRemoteReferenceName G ''origin'' ref, NewBranchReferenceName G ref}))"
  using assms
  by (auto simp: resolveRef_def Let_def find_Some_iff2 split: if_splits option.splits)

end
