(* ===== verification/Redis_Queue.thy ===== *)
theory Redis_Queue
  imports Queue Go_Env
begin

text \<open>
  \<^verbatim>\<open>internal/queue/redis.go\<close> and \<^verbatim>\<open>config.go\<close>: the job queue kept in a Redis list, and the choice
  between it and the in-memory queue. A job travels as JSON text, so the queue rests on the round
  trip of a job through \<^verbatim>\<open>encoding/json\<close>.

  The client library is a pair of parameters acting on the state of the server: \<open>rpush key v\<close>
  returns an error or nothing, \<open>blpop key\<close> an error, the reply (the key and the value), or no reply
  while the list is empty.
\<close>

section \<open>Jobs as JSON\<close>

text \<open>
  \<^verbatim>\<open>json.Marshal\<close> of a job: the fields carry no tags, so they are written under their own names and
  in their order. A nil slice is written as \<^verbatim>\<open>null\<close>, an empty one as \<^verbatim>\<open>[]\<close>; the flag tells which one
  an empty list of files is.
\<close>

definition job_any :: "bool \<Rightarrow> Job \<Rightarrow> any" where
  "job_any nilFiles j =
     AMap [(''DeliveryID'', AStr (jDeliveryID j)), (''EventType'', AStr (jEventType j)),
           (''Repository'', AStr (jRepository j)), (''MergeReqID'', ANum (itoa (jMergeReqID j))),
           (''HeadSHA'', AStr (jHeadSHA j)), (''BaseRef'', AStr (jBaseRef j)),
           (''ChangedFiles'',
             (if nilFiles \<and> jChangedFiles j = [] then ANil else AList (map AStr (jChangedFiles j))))]"

definition job_fields :: "Job fields" where
  "job_fields =
     [(''DeliveryID'', string_field (\<lambda>v j. j\<lparr>jDeliveryID := v\<rparr>)),
      (''EventType'', string_field (\<lambda>v j. j\<lparr>jEventType := v\<rparr>)),
      (''Repository'', string_field (\<lambda>v j. j\<lparr>jRepository := v\<rparr>)),
      (''MergeReqID'', int_field (\<lambda>v j. j\<lparr>jMergeReqID := v\<rparr>)),
      (''HeadSHA'', string_field (\<lambda>v j. j\<lparr>jHeadSHA := v\<rparr>)),
      (''BaseRef'', string_field (\<lambda>v j. j\<lparr>jBaseRef := v\<rparr>)),
      (''ChangedFiles'', strings_field (\<lambda>v j. j\<lparr>jChangedFiles := v\<rparr>))]"

definition empty_job :: Job where
  "empty_job =
     \<lparr>jDeliveryID = [], jEventType = [], jRepository = [], jMergeReqID = 0, jHeadSHA = [],
      jBaseRef = [], jChangedFiles = []\<rparr>"

definition unmarshal_job :: "string \<Rightarrow> Job option" where
  "unmarshal_job s = Unmarshal_struct job_fields empty_job s"

section \<open>The queue\<close>

record RedisQueue =
  rqKey :: string

definition NewRedisQueue :: "string \<Rightarrow> RedisQueue" where
  "NewRedisQueue key = \<lparr>rqKey = (if key = [] then ''thule:jobs'' else key)\<rparr>"

definition RedisEnqueue ::
  "(string \<Rightarrow> string \<Rightarrow> 'r \<Rightarrow> string option \<times> 'r) \<Rightarrow> RedisQueue \<Rightarrow> bool \<Rightarrow> Job \<Rightarrow> 'r \<Rightarrow>
     enqueue_outcome \<times> 'r" where
  "RedisEnqueue rpush q nilFiles job r =
     (case Marshal (job_any nilFiles job) of
        None \<Rightarrow> (EnqueueErr ''marshal job'', r)
      | Some payload \<Rightarrow>
          (case rpush (rqKey q) payload r of
             (Some e, r') \<Rightarrow> (EnqueueErr (''redis enqueue: '' @ e), r')
           | (None, r') \<Rightarrow> (Enqueued, r')))"

definition RedisDequeue ::
  "(string \<Rightarrow> 'r \<Rightarrow> string list result option \<times> 'r) \<Rightarrow> RedisQueue \<Rightarrow> 'r \<Rightarrow> dequeue_outcome \<times> 'r" where
  "RedisDequeue blpop q r =
     (case blpop (rqKey q) r of
        (None, r') \<Rightarrow> (DequeueBlocked, r')
      | (Some (Inl e), r') \<Rightarrow> (DequeueErr e, r')
      | (Some (Inr res), r') \<Rightarrow>
          (if length res < 2 then (DequeueErr ''redis dequeue: empty result'', r')
           else (case unmarshal_job (res ! 1) of
                   None \<Rightarrow> (DequeueErr ''unmarshal job'', r')
                 | Some job \<Rightarrow> (Dequeued job, r'))))"

section \<open>Choosing a queue\<close>

text \<open>What the client is connected with.\<close>

record RedisOptions =
  Addr :: string
  Password :: string
  DB :: int

datatype queue_choice = UseMemory MemoryQueue | UseRedis RedisOptions RedisQueue

text \<open>A negative buffer makes \<^verbatim>\<open>NewMemoryQueue\<close> panic: None.\<close>

definition QueueFromEnv :: "environ \<Rightarrow> queue_choice result option" where
  "QueueFromEnv env =
     (if ToLower (getEnv env ''THULE_QUEUE'' ''memory'') = ''redis'' then
        (case getEnvInt env ''THULE_REDIS_DB'' 0 of
           Inl e \<Rightarrow> Some (Inl e)
         | Inr db \<Rightarrow>
             Some (Inr (UseRedis
               \<lparr>Addr = getEnv env ''THULE_REDIS_ADDR'' ''127.0.0.1:6379'',
                Password = env ''THULE_REDIS_PASSWORD'', DB = db\<rparr>
               (NewRedisQueue (getEnv env ''THULE_REDIS_QUEUE'' ''thule:jobs'')))))
      else
        (case getEnvInt env ''THULE_QUEUE_BUFFER'' 100 of
           Inl e \<Rightarrow> Some (Inl e)
         | Inr n \<Rightarrow> map_option (\<lambda>q. Inr (UseMemory q)) (NewMemoryQueue n)))"

section \<open>A job survives its trip\<close>

lemma job_text_parsed: "parse_json (json_text (job_any nilFiles j)) = Some (json_of (job_any nilFiles j))"
proof (rule parse_json_text)
  show "wf_nums (job_any nilFiles j)" "jsonable (job_any nilFiles j)"
    by (simp_all add: job_any_def num_text_itoa list_all_iff)
  show "fits max_depth (job_any nilFiles j)"
    by (rule fits_max) (simp add: job_any_def eval_nat_numeral list_all_iff)
qed

lemma find_job_field:
  "find_field job_fields ''DeliveryID'' = Some (string_field (\<lambda>v j. j\<lparr>jDeliveryID := v\<rparr>))"
  "find_field job_fields ''EventType'' = Some (string_field (\<lambda>v j. j\<lparr>jEventType := v\<rparr>))"
  "find_field job_fields ''Repository'' = Some (string_field (\<lambda>v j. j\<lparr>jRepository := v\<rparr>))"
  "find_field job_fields ''MergeReqID'' = Some (int_field (\<lambda>v j. j\<lparr>jMergeReqID := v\<rparr>))"
  "find_field job_fields ''HeadSHA'' = Some (string_field (\<lambda>v j. j\<lparr>jHeadSHA := v\<rparr>))"
  "find_field job_fields ''BaseRef'' = Some (string_field (\<lambda>v j. j\<lparr>jBaseRef := v\<rparr>))"
  "find_field job_fields ''ChangedFiles'' = Some (strings_field (\<lambda>v j. j\<lparr>jChangedFiles := v\<rparr>))"
  by (simp_all add: find_field_def job_fields_def)

lemma decode_job_files:
  "strings_field put (json_of (if n \<and> fs = [] then ANil else AList (map AStr fs))) x = Some (put fs x)"
  using strings_of_json [of fs] by (simp add: strings_field_def comp_def)

lemma unmarshal_job_text:
  assumes "- (2 ^ 63) \<le> jMergeReqID j" and "jMergeReqID j < 2 ^ 63"
  shows "unmarshal_job (json_text (job_any nilFiles j)) = Some j"
proof -
  have "int_field put (JNum (itoa (jMergeReqID j))) x = Some (put (jMergeReqID j) x)"
    for put and x :: Job
    using Atoi_itoa [OF assms] by (simp add: int_field_def)
  then show ?thesis
    unfolding unmarshal_job_def Unmarshal_struct_def job_text_parsed
    by (simp add: job_any_def decode_struct_def empty_job_def find_job_field decode_job_files
        del: json_of.simps(5) if_split)
qed

section \<open>The Redis list as a queue\<close>

text \<open>
  What the code relies on of Redis: the server keeps a list per key, \<^verbatim>\<open>RPUSH\<close> that succeeds appends
  to it, \<^verbatim>\<open>BLPOP\<close> with a reply removes the first element and returns it after the key, and only
  answers while there is one. Nothing is said about a call that fails: the command may have been
  carried out.
\<close>

definition redis_list ::
  "(string \<Rightarrow> string \<Rightarrow> 'r \<Rightarrow> string option \<times> 'r) \<Rightarrow> (string \<Rightarrow> 'r \<Rightarrow> string list result option \<times> 'r) \<Rightarrow>
     ('r \<Rightarrow> string \<Rightarrow> string list) \<Rightarrow> bool" where
  "redis_list rpush blpop entries \<longleftrightarrow>
     (\<forall>k v r r'. rpush k v r = (None, r') \<longrightarrow> entries r' = (entries r)(k := entries r k @ [v])) \<and>
     (\<forall>k r r' res. blpop k r = (Some (Inr res), r') \<longrightarrow>
        (\<exists>v vs. entries r k = v # vs \<and> res = [k, v] \<and> entries r' = (entries r)(k := vs)))"

text \<open>The list of a queue holds exactly these jobs.\<close>

definition holds_jobs :: "('r \<Rightarrow> string \<Rightarrow> string list) \<Rightarrow> RedisQueue \<Rightarrow> 'r \<Rightarrow> Job list \<Rightarrow> bool" where
  "holds_jobs entries q r js \<longleftrightarrow> map unmarshal_job (entries r (rqKey q)) = map Some js"

lemma Marshal_job: "Marshal (job_any n j) = Some (json_text (job_any n j))"
  by (simp add: Marshal_def job_any_def list_all_iff)

lemma enqueue_holds:
  assumes "redis_list rpush blpop entries" and "holds_jobs entries q r js"
    and "- (2 ^ 63) \<le> jMergeReqID j" and "jMergeReqID j < 2 ^ 63"
    and "RedisEnqueue rpush q n j r = (Enqueued, r')"
  shows "holds_jobs entries q r' (js @ [j])"
proof -
  have "rpush (rqKey q) (json_text (job_any n j)) r = (None, r')"
    using assms(5) by (auto simp: RedisEnqueue_def Marshal_job split: prod.splits option.splits)
  then have "entries r' = (entries r)(rqKey q := entries r (rqKey q) @ [json_text (job_any n j)])"
    using assms(1) unfolding redis_list_def by blast
  then show ?thesis
    using assms(2) unmarshal_job_text [OF assms(3,4)] by (simp add: holds_jobs_def)
qed

lemma dequeue_holds:
  assumes "redis_list rpush blpop entries" and "holds_jobs entries q r js"
    and "blpop (rqKey q) r = (Some (Inr res), r')"
  shows "\<exists>j js'. js = j # js' \<and> RedisDequeue blpop q r = (Dequeued j, r') \<and> holds_jobs entries q r' js'"
proof -
  obtain v vs where e: "entries r (rqKey q) = v # vs" "res = [rqKey q, v]"
      "entries r' = (entries r)(rqKey q := vs)"
    using assms(1,3) unfolding redis_list_def by blast
  then obtain j js' where js: "js = j # js'" "unmarshal_job v = Some j" "map unmarshal_job vs = map Some js'"
    using assms(2) by (auto simp: holds_jobs_def)
  then show ?thesis using e assms(3) by (simp add: RedisDequeue_def holds_jobs_def)
qed

text \<open>Sending jobs one after the other, and receiving until the client has no reply.\<close>

primrec send_all ::
  "(string \<Rightarrow> string \<Rightarrow> 'r \<Rightarrow> string option \<times> 'r) \<Rightarrow> RedisQueue \<Rightarrow> bool \<Rightarrow> Job list \<Rightarrow> 'r \<Rightarrow> bool \<times> 'r" where
  "send_all rpush q n [] r = (True, r)"
| "send_all rpush q n (j # js) r =
     (case RedisEnqueue rpush q n j r of
        (Enqueued, r') \<Rightarrow> send_all rpush q n js r'
      | (_, r') \<Rightarrow> (False, r'))"

primrec receive ::
  "(string \<Rightarrow> 'r \<Rightarrow> string list result option \<times> 'r) \<Rightarrow> RedisQueue \<Rightarrow> nat \<Rightarrow> 'r \<Rightarrow> dequeue_outcome list \<times> 'r" where
  "receive blpop q 0 r = ([], r)"
| "receive blpop q (Suc k) r =
     (case RedisDequeue blpop q r of (d, r') \<Rightarrow> (case receive blpop q k r' of (ds, r'') \<Rightarrow> (d # ds, r'')))"

definition int64_job :: "Job \<Rightarrow> bool" where
  "int64_job j \<longleftrightarrow> - (2 ^ 63) \<le> jMergeReqID j \<and> jMergeReqID j < 2 ^ 63"

lemma send_holds:
  "redis_list rpush blpop entries \<Longrightarrow> holds_jobs entries q r js0 \<Longrightarrow> list_all int64_job js \<Longrightarrow>
     send_all rpush q n js r = (True, r') \<Longrightarrow> holds_jobs entries q r' (js0 @ js)"
proof (induction js arbitrary: r js0)
  case (Cons j js)
  obtain r1 where r1: "RedisEnqueue rpush q n j r = (Enqueued, r1)" "send_all rpush q n js r1 = (True, r')"
    using Cons.prems(4) by (auto split: prod.splits enqueue_outcome.splits)
  have "holds_jobs entries q r1 (js0 @ [j])"
    using Cons.prems r1(1) by (intro enqueue_holds) (auto simp: int64_job_def)
  then show ?case using Cons.IH [OF Cons.prems(1) _ _ r1(2)] Cons.prems(3) by fastforce
qed simp

lemma receive_holds:
  assumes "redis_list rpush blpop entries"
    and answers: "\<And>k r. entries r k \<noteq> [] \<Longrightarrow> \<exists>res r'. blpop k r = (Some (Inr res), r')"
  shows "holds_jobs entries q r js \<Longrightarrow> fst (receive blpop q (length js) r) = map Dequeued js"
proof (induction js arbitrary: r)
  case (Cons j js)
  have "entries r (rqKey q) \<noteq> []" using Cons.prems by (auto simp: holds_jobs_def)
  then obtain res r' where "blpop (rqKey q) r = (Some (Inr res), r')" using answers by blast
  from dequeue_holds [OF assms(1) Cons.prems this]
  have "RedisDequeue blpop q r = (Dequeued j, r')" "holds_jobs entries q r' js" by auto
  then show ?case using Cons.IH [of r'] by (simp add: case_prod_beta)
qed simp

text \<open>
  C15. Jobs handed over through Redis arrive complete and in order: what is sent successfully to an
  empty list and then received by a client that answers whenever the list is not empty is exactly
  what was sent, every field included, for merge request numbers of 64 bits.
\<close>

theorem redis_hands_over_jobs:
  assumes "redis_list rpush blpop entries"
    and "\<And>k r. entries r k \<noteq> [] \<Longrightarrow> \<exists>res r'. blpop k r = (Some (Inr res), r')"
    and "entries r (rqKey q) = []" and "list_all int64_job js"
    and "send_all rpush q nilFiles js r = (True, r')"
  shows "fst (receive blpop q (length js) r') = map Dequeued js"
proof -
  have "holds_jobs entries q r []" using assms(3) by (simp add: holds_jobs_def)
  from send_holds [OF assms(1) this assms(4,5)] show ?thesis
    using receive_holds [OF assms(1,2)] by simp
qed

text \<open>A server that keeps its lists in a map.\<close>

definition list_rpush :: "string \<Rightarrow> string \<Rightarrow> (string \<Rightarrow> string list) \<Rightarrow> string option \<times> (string \<Rightarrow> string list)" where
  "list_rpush k v m = (None, m(k := m k @ [v]))"

definition list_blpop :: "string \<Rightarrow> (string \<Rightarrow> string list) \<Rightarrow> string list result option \<times> (string \<Rightarrow> string list)" where
  "list_blpop k m = (case m k of [] \<Rightarrow> (None, m) | v # vs \<Rightarrow> (Some (Inr [k, v]), m(k := vs)))"

definition sample_jobs :: "Job list" where
  "sample_jobs =
     [empty_job\<lparr>jDeliveryID := ''d1'', jMergeReqID := 7, jChangedFiles := [''a'', [dquote]]\<rparr>,
      empty_job\<lparr>jDeliveryID := ''d2'', jMergeReqID := - 1\<rparr>]"

theorem redis_hands_over_jobs_witness:
  "fst (receive list_blpop (NewRedisQueue []) (length sample_jobs)
     (snd (send_all list_rpush (NewRedisQueue []) True sample_jobs (\<lambda>_. []))))
   = map Dequeued sample_jobs"
proof -
  let ?q = "NewRedisQueue []"
  have laws: "redis_list list_rpush list_blpop (\<lambda>m. m)"
    by (auto simp: redis_list_def list_rpush_def list_blpop_def split: list.splits)
  have answers: "\<exists>res r'. list_blpop k m = (Some (Inr res), r')" if "m k \<noteq> []" for k m
    using that by (cases "m k") (auto simp: list_blpop_def)
  have ok: "fst (send_all list_rpush ?q True js m)" for js m
    by (induction js arbitrary: m) (simp_all add: RedisEnqueue_def Marshal_job list_rpush_def)
  let ?r = "snd (send_all list_rpush ?q True sample_jobs (\<lambda>_. []))"
  have "send_all list_rpush ?q True sample_jobs (\<lambda>_. []) = (True, ?r)"
    using ok [of sample_jobs "\<lambda>_. []"] by (simp add: prod_eq_iff)
  moreover have "list_all int64_job sample_jobs"
    by (simp add: sample_jobs_def int64_job_def empty_job_def)
  ultimately show ?thesis
    using redis_hands_over_jobs [OF laws answers, of "\<lambda>_. []" ?q sample_jobs True ?r] by blast
qed

end
