(* ===== verification/Worker.thy ===== *)
theory Worker
  imports Planner Repo Redis_Queue
begin

text \<open>
  \<^verbatim>\<open>cmd/thule-worker/main.go\<close>: the loop that takes jobs from the queue, brings the clone to the
  commit of the job, works out which files it changes and plans it.

  The loop runs until the queue returns an error. An execution is followed for a given list of
  rounds; each round says what the call of \<^verbatim>\<open>Dequeue\<close> sees (\<^typ>\<open>Call\<close>) and what the world outside
  answers (a value of type \<open>'w\<close>). A round in which \<^verbatim>\<open>Dequeue\<close> is blocked changes nothing.
\<close>

section \<open>What the worker is built from\<close>

text \<open>The interface \<^verbatim>\<open>repoSyncer\<close>; \<open>int\<close> is the clock.\<close>

record 'g repoSyncer =
  sEnabled :: bool
  sSync :: "string \<Rightarrow> 'g \<Rightarrow> string option \<times> 'g"
  sMaintain :: "int \<Rightarrow> 'g \<Rightarrow> string option \<times> 'g"

record ('q, 'g, 'p, 'w) workerDeps =
  depJobs :: "Call \<Rightarrow> 'q \<Rightarrow> dequeue_outcome \<times> 'q"
  depSyncer :: "'g repoSyncer option"
  depPlan :: "'w \<Rightarrow> 'g \<Rightarrow> MergeRequestEvent \<Rightarrow> 'p \<Rightarrow> string option \<times> 'p"
  depMRFiles :: "('w \<Rightarrow> int \<Rightarrow> string list result) option"
  depDiff :: "string \<Rightarrow> string \<Rightarrow> string \<Rightarrow> 'g \<Rightarrow> string list result"

record ('q, 'g, 'p) workerState =
  wq :: 'q
  wg :: 'g
  wp :: 'p
  jobsSinceMaintenance :: int

definition defaultBaseRef :: string where
  "defaultBaseRef = ''master''"

definition defaultRepoMaintenanceEvery :: int where
  "defaultRepoMaintenanceEvery = 200"

text \<open>The worker's \<^verbatim>\<open>getEnvInt\<close> falls back where the one of the queue package fails.\<close>

definition workerEnvInt :: "environ \<Rightarrow> string \<Rightarrow> int \<Rightarrow> int" where
  "workerEnvInt env key fallback =
     (let raw = TrimSpace (env key)
      in if raw = [] then fallback else (case Atoi raw of None \<Rightarrow> fallback | Some v \<Rightarrow> v))"

section \<open>One job\<close>

definition run_maintenance ::
  "int \<Rightarrow> int \<Rightarrow> 'g repoSyncer \<Rightarrow> ('q, 'g, 'p) workerState \<Rightarrow> ('q, 'g, 'p) workerState" where
  "run_maintenance every now s st =
     (if 0 < every then
        (if every \<le> jobsSinceMaintenance st + 1
         then st\<lparr>wg := snd (sMaintain s now (wg st)), jobsSinceMaintenance := 0\<rparr>
         else st\<lparr>jobsSinceMaintenance := jobsSinceMaintenance st + 1\<rparr>)
      else st)"

text \<open>The error of a failed sync, if any.\<close>

definition sync_job ::
  "('q, 'g, 'p, 'w) workerDeps \<Rightarrow> int \<Rightarrow> int \<Rightarrow> Job \<Rightarrow> ('q, 'g, 'p) workerState \<Rightarrow>
   string option \<times> ('q, 'g, 'p) workerState" where
  "sync_job deps every now job st =
     (case depSyncer deps of
        None \<Rightarrow> (None, st)
      | Some s \<Rightarrow>
          (if \<not> sEnabled s then (None, st)
           else (case sSync s (jHeadSHA job) (wg st) of
                   (Some e, g) \<Rightarrow> (Some e, st\<lparr>wg := g\<rparr>)
                 | (None, g) \<Rightarrow> (None, run_maintenance every now s (st\<lparr>wg := g\<rparr>)))))"

definition job_files ::
  "('q, 'g, 'p, 'w) workerDeps \<Rightarrow> environ \<Rightarrow> 'w \<Rightarrow> Job \<Rightarrow> 'g \<Rightarrow> string list" where
  "job_files deps env w job g =
     (if jChangedFiles job \<noteq> [] then jChangedFiles job
      else
        (let fromMR = (case depMRFiles deps of
                         Some f \<Rightarrow>
                           (if 0 < jMergeReqID job
                            then (case f w (jMergeReqID job) of Inr files \<Rightarrow> files | Inl _ \<Rightarrow> []) else [])
                       | None \<Rightarrow> [])
         in if fromMR \<noteq> [] then fromMR
            else
              (let baseRef = (if jBaseRef job = [] then getEnv env ''THULE_REPO_BASE_REF'' defaultBaseRef
                              else jBaseRef job)
               in (case depDiff deps (getEnv env ''THULE_REPO_ROOT'' ''.'') baseRef (jHeadSHA job) g of
                     Inr files \<Rightarrow> files
                   | Inl _ \<Rightarrow> []))))"

definition job_event :: "Job \<Rightarrow> string list \<Rightarrow> MergeRequestEvent" where
  "job_event job files =
     \<lparr>DeliveryID = jDeliveryID job, EventType = jEventType job, Repository = jRepository job,
      MergeReqID = jMergeReqID job, HeadSHA = jHeadSHA job, BaseRef = jBaseRef job, ChangedFiles = files\<rparr>"

text \<open>How a round ends.\<close>

datatype round_outcome =
    WorkerExit string
  | Waiting
  | SyncFailed Job string
  | Planned Job MergeRequestEvent "string option"

definition handle_job ::
  "('q, 'g, 'p, 'w) workerDeps \<Rightarrow> environ \<Rightarrow> int \<Rightarrow> int \<Rightarrow> 'w \<Rightarrow> Job \<Rightarrow> ('q, 'g, 'p) workerState \<Rightarrow>
   round_outcome \<times> ('q, 'g, 'p) workerState" where
  "handle_job deps env every now w job st =
     (case sync_job deps every now job st of
        (Some e, st1) \<Rightarrow> (SyncFailed job e, st1)
      | (None, st1) \<Rightarrow>
          (let evt = job_event job (job_files deps env w job (wg st1));
               (err, p) = depPlan deps w (wg st1) evt (wp st1)
           in (Planned job evt err, st1\<lparr>wp := p\<rparr>)))"

section \<open>The loop\<close>

definition worker_round ::
  "('q, 'g, 'p, 'w) workerDeps \<Rightarrow> environ \<Rightarrow> int \<Rightarrow> Call \<times> 'w \<Rightarrow> ('q, 'g, 'p) workerState \<Rightarrow>
   round_outcome \<times> ('q, 'g, 'p) workerState" where
  "worker_round deps env every cw st =
     (case depJobs deps (fst cw) (wq st) of
        (DequeueErr e, q) \<Rightarrow> (WorkerExit e, st\<lparr>wq := q\<rparr>)
      | (DequeueBlocked, q) \<Rightarrow> (Waiting, st\<lparr>wq := q\<rparr>)
      | (Dequeued job, q) \<Rightarrow> handle_job deps env every (clock (fst cw)) (snd cw) job (st\<lparr>wq := q\<rparr>))"

fun worker_rounds ::
  "('q, 'g, 'p, 'w) workerDeps \<Rightarrow> environ \<Rightarrow> int \<Rightarrow> (Call \<times> 'w) list \<Rightarrow> ('q, 'g, 'p) workerState \<Rightarrow>
   round_outcome list \<times> ('q, 'g, 'p) workerState" where
  "worker_rounds deps env every [] st = ([], st)"
| "worker_rounds deps env every (cw # cws) st =
     (case worker_round deps env every cw st of
        (WorkerExit e, st') \<Rightarrow> ([WorkerExit e], st')
      | (r, st') \<Rightarrow> (case worker_rounds deps env every cws st' of (rs, st'') \<Rightarrow> (r # rs, st'')))"

definition runWorker ::
  "('q, 'g, 'p, 'w) workerDeps \<Rightarrow> environ \<Rightarrow> (Call \<times> 'w) list \<Rightarrow> 'q \<Rightarrow> 'g \<Rightarrow> 'p \<Rightarrow>
   round_outcome list \<times> ('q, 'g, 'p) workerState" where
  "runWorker deps env cws q g p =
     worker_rounds deps env (workerEnvInt env ''THULE_REPO_MAINTENANCE_EVERY'' defaultRepoMaintenanceEvery) cws
       \<lparr>wq = q, wg = g, wp = p, jobsSinceMaintenance = 0\<rparr>"

section \<open>What a round does\<close>

definition round_job :: "round_outcome \<Rightarrow> Job option" where
  "round_job r = (case r of SyncFailed j _ \<Rightarrow> Some j | Planned j _ _ \<Rightarrow> Some j | _ \<Rightarrow> None)"

lemma sync_job_queue [simp]: "wq (snd (sync_job deps every now job st)) = wq st"
  "wp (snd (sync_job deps every now job st)) = wp st"
  by (auto simp: sync_job_def run_maintenance_def split: option.splits prod.splits)

lemma handle_job_queue [simp]: "wq (snd (handle_job deps env every now w job st)) = wq st"
  "round_job (fst (handle_job deps env every now w job st)) = Some job"
  "fst (handle_job deps env every now w job st) \<noteq> WorkerExit e"
proof -
  obtain err st1 where s: "sync_job deps every now job st = (err, st1)" by force
  then have "wq st1 = wq st" using sync_job_queue(1) [of deps every now job st] by simp
  then show "wq (snd (handle_job deps env every now w job st)) = wq st"
    "round_job (fst (handle_job deps env every now w job st)) = Some job"
    "fst (handle_job deps env every now w job st) \<noteq> WorkerExit e"
    using s by (cases err; simp add: handle_job_def round_job_def Let_def case_prod_beta)+
qed

lemma round_job_simps [simp]: "round_job (Planned j evt err) = Some j" "round_job (SyncFailed j e) = Some j"
  "round_job Waiting = None" "round_job (WorkerExit e) = None"
  by (simp_all add: round_job_def)

lemma planned_round_job:
  assumes "worker_round deps env every cw st = (Planned j evt err, st')"
  obtains q where "handle_job deps env every (clock (fst cw)) (snd cw) j (st\<lparr>wq := q\<rparr>) = (Planned j evt err, st')"
proof -
  obtain j' q where "handle_job deps env every (clock (fst cw)) (snd cw) j' (st\<lparr>wq := q\<rparr>) = (Planned j evt err, st')"
    using assms by (auto simp: worker_round_def split: prod.splits dequeue_outcome.splits)
  moreover from this have "j' = j"
    using handle_job_queue(2) [of deps env every "clock (fst cw)" "snd cw" j' "st\<lparr>wq := q\<rparr>"] by simp
  ultimately show ?thesis using that by blast
qed

lemma handle_planned:
  assumes "handle_job deps env every now w job st = (Planned j evt err, st')"
  shows "\<exists>st1. sync_job deps every now job st = (None, st1) \<and>
    evt = job_event job (job_files deps env w job (wg st1)) \<and>
    (err, wp st') = depPlan deps w (wg st1) evt (wp st1) \<and> wg st' = wg st1"
proof -
  obtain e st1 where s: "sync_job deps every now job st = (e, st1)" by force
  then have "e = None" using assms by (cases e) (simp_all add: handle_job_def)
  obtain er p where "depPlan deps w (wg st1) (job_event job (job_files deps env w job (wg st1))) (wp st1) = (er, p)"
    by force
  then show ?thesis using assms s \<open>e = None\<close> by (auto simp: handle_job_def Let_def)
qed

lemma worker_rounds_step:
  assumes "\<And>e. fst (worker_round deps env every cw st) \<noteq> WorkerExit e"
  shows "worker_rounds deps env every (cw # cws) st =
    (fst (worker_round deps env every cw st) #
       fst (worker_rounds deps env every cws (snd (worker_round deps env every cw st))),
     snd (worker_rounds deps env every cws (snd (worker_round deps env every cw st))))"
  using assms by (cases "worker_round deps env every cw st"; cases "fst (worker_round deps env every cw st)")
    (auto split: prod.splits)

text \<open>
  What the worker relies on of its queue: while its context is not done, the call gives the first job
  if there is one and blocks otherwise. \<open>good\<close> tells the states in which every entry is a job.
\<close>

locale job_source =
  fixes dequeue :: "Call \<Rightarrow> 'q \<Rightarrow> dequeue_outcome \<times> 'q"
    and jobs_of :: "'q \<Rightarrow> Job list"
    and good :: "'q \<Rightarrow> bool"
  assumes dequeue_job: "good q \<Longrightarrow> ctxErr c = None \<Longrightarrow> jobs_of q = j # js \<Longrightarrow>
      \<exists>q'. dequeue c q = (Dequeued j, q') \<and> jobs_of q' = js \<and> good q'"
    and dequeue_wait: "good q \<Longrightarrow> ctxErr c = None \<Longrightarrow> jobs_of q = [] \<Longrightarrow> dequeue c q = (DequeueBlocked, q)"
begin

lemma round_takes:
  assumes "depJobs deps = dequeue" and "ctxErr (fst cw) = None" and "good (wq st)"
  shows "round_job (fst (worker_round deps env every cw st)) =
      (case jobs_of (wq st) of [] \<Rightarrow> None | j # _ \<Rightarrow> Some j)"
    and "jobs_of (wq (snd (worker_round deps env every cw st))) = tl (jobs_of (wq st))"
    and "good (wq (snd (worker_round deps env every cw st)))"
    and "fst (worker_round deps env every cw st) \<noteq> WorkerExit e"
proof -
  have "round_job (fst (worker_round deps env every cw st)) =
      (case jobs_of (wq st) of [] \<Rightarrow> None | j # _ \<Rightarrow> Some j) \<and>
    jobs_of (wq (snd (worker_round deps env every cw st))) = tl (jobs_of (wq st)) \<and>
    good (wq (snd (worker_round deps env every cw st))) \<and>
    fst (worker_round deps env every cw st) \<noteq> WorkerExit e"
  proof (cases "jobs_of (wq st)")
    case Nil
    then show ?thesis using dequeue_wait [OF assms(3,2)] assms by (simp add: worker_round_def round_job_def)
  next
    case (Cons j js)
    then obtain q' where "dequeue (fst cw) (wq st) = (Dequeued j, q')" "jobs_of q' = js" "good q'"
      using dequeue_job [OF assms(3,2)] by blast
    then show ?thesis using assms(1) Cons by (simp add: worker_round_def)
  qed
  then show "round_job (fst (worker_round deps env every cw st)) =
      (case jobs_of (wq st) of [] \<Rightarrow> None | j # _ \<Rightarrow> Some j)"
    and "jobs_of (wq (snd (worker_round deps env every cw st))) = tl (jobs_of (wq st))"
    and "good (wq (snd (worker_round deps env every cw st)))"
    and "fst (worker_round deps env every cw st) \<noteq> WorkerExit e" by blast+
qed

lemma rounds_take:
  "depJobs deps = dequeue \<Longrightarrow> list_all (\<lambda>cw. ctxErr (fst cw) = None) cws \<Longrightarrow> good (wq st) \<Longrightarrow>
     map round_job (fst (worker_rounds deps env every cws st)) =
       map Some (take (length cws) (jobs_of (wq st))) @ replicate (length cws - length (jobs_of (wq st))) None \<and>
     jobs_of (wq (snd (worker_rounds deps env every cws st))) = drop (length cws) (jobs_of (wq st)) \<and>
     good (wq (snd (worker_rounds deps env every cws st)))"
proof (induction cws arbitrary: st)
  case (Cons cw cws)
  let ?st = "snd (worker_round deps env every cw st)"
  have ctx: "ctxErr (fst cw) = None" using Cons.prems(2) by simp
  note r = round_takes [OF Cons.prems(1) ctx Cons.prems(3), of env every]
  show ?case
    unfolding worker_rounds_step [OF r(4)] using Cons.IH [of ?st] Cons.prems r(1-3)
    by (cases "jobs_of (wq st)") simp_all
qed simp

lemma rounds_snoc:
  "depJobs deps = dequeue \<Longrightarrow> list_all (\<lambda>cw. ctxErr (fst cw) = None) cws \<Longrightarrow> ctxErr (fst cw) = None \<Longrightarrow> good (wq st) \<Longrightarrow>
     fst (worker_rounds deps env every (cws @ [cw]) st) =
       fst (worker_rounds deps env every cws st) @
       [fst (worker_round deps env every cw (snd (worker_rounds deps env every cws st)))] \<and>
     length (fst (worker_rounds deps env every cws st)) = length cws"
proof (induction cws arbitrary: st)
  case Nil
  from worker_rounds_step [OF round_takes(4) [OF Nil.prems(1,3,4)]] show ?case by simp
next
  case (Cons a cws)
  have ctx: "ctxErr (fst a) = None" using Cons.prems(2) by simp
  note r = round_takes [OF Cons.prems(1) ctx Cons.prems(4), of env every]
  show ?case unfolding append_Cons worker_rounds_step [OF r(4)] using Cons r(3) by simp
qed

text \<open>The loop takes the first jobs of its queue, in order, and then waits.\<close>

lemma drains:
  assumes "depJobs deps = dequeue" and "list_all (\<lambda>cw. ctxErr (fst cw) = None) cws" and "good q"
    and "runWorker deps env cws q g p = (rs, st')"
  shows "map round_job rs = map Some (take (length cws) (jobs_of q)) @ replicate (length cws - length (jobs_of q)) None \<and>
    jobs_of (wq st') = drop (length cws) (jobs_of q)"
  using rounds_take [OF assms(1,2), of "\<lparr>wq = q, wg = g, wp = p, jobsSinceMaintenance = 0\<rparr>" env
      "workerEnvInt env ''THULE_REPO_MAINTENANCE_EVERY'' defaultRepoMaintenanceEvery"] assms(3,4)
  unfolding runWorker_def by simp

text \<open>The round after as many as there are jobs before it handles the last job of the queue.\<close>

lemma handles_last:
  assumes "depJobs deps = dequeue" and "list_all (\<lambda>cw. ctxErr (fst cw) = None) cws" and "ctxErr (fst cw) = None"
    and "good q" and "jobs_of q = js @ [job]" and "length cws = length js"
    and "runWorker deps env (cws @ [cw]) q g p = (rs, st')"
  shows "\<exists>rs' every st1. rs = rs' @ [fst (handle_job deps env every (clock (fst cw)) (snd cw) job st1)] \<and>
    length rs' = length js"
proof -
  let ?every = "workerEnvInt env ''THULE_REPO_MAINTENANCE_EVERY'' defaultRepoMaintenanceEvery"
  let ?start = "\<lparr>wq = q, wg = g, wp = p, jobsSinceMaintenance = 0\<rparr>"
  define st where "st = snd (worker_rounds deps env ?every cws ?start)"
  have start: "good (wq ?start)" using assms(4) by simp
  have left: "jobs_of (wq st) = [job]" "good (wq st)"
    using rounds_take [OF assms(1,2) start, of env ?every] assms(5,6) by (simp_all add: st_def)
  then obtain q' where "dequeue (fst cw) (wq st) = (Dequeued job, q')"
    using dequeue_job [OF left(2) assms(3) left(1)] by blast
  then have "fst (worker_round deps env ?every cw st) =
      fst (handle_job deps env ?every (clock (fst cw)) (snd cw) job (st\<lparr>wq := q'\<rparr>))"
    using assms(1) by (simp add: worker_round_def)
  moreover have "rs = fst (worker_rounds deps env ?every cws ?start) @ [fst (worker_round deps env ?every cw st)]"
      "length (fst (worker_rounds deps env ?every cws ?start)) = length cws"
    using rounds_snoc [OF assms(1-3) start, of env ?every] assms(7) by (simp_all add: runWorker_def st_def)
  ultimately show ?thesis using assms(6) by metis
qed

end

interpretation mem_source: job_source Dequeue chan "\<lambda>_. True"
  by unfold_locales (auto simp: Dequeue_def)

text \<open>
  C9. The worker drains its queue: followed for \<open>n\<close> rounds with a context that is not done, it takes
  the first \<open>n\<close> jobs of the in-memory queue, each once and in order, tries to sync and plan every one
  of them whatever happened to the ones before, leaves the rest queued, and only then waits.
\<close>

theorem worker_drains_queue:
  assumes "depJobs deps = Dequeue" and "list_all (\<lambda>cw. ctxErr (fst cw) = None) cws"
    and "runWorker deps env cws q g p = (rs, st')"
  shows "map round_job rs = map Some (take (length cws) (chan q)) @ replicate (length cws - length (chan q)) None \<and>
    chan (wq st') = drop (length cws) (chan q)"
  using mem_source.drains [OF assms(1,2) TrueI assms(3)] .

section \<open>Maintenance\<close>

definition planned_round :: "round_outcome \<Rightarrow> bool" where
  "planned_round r = (case r of Planned _ _ _ \<Rightarrow> True | _ \<Rightarrow> False)"

text \<open>
  \<open>calls\<close> counts the maintenance runs of a clone: the state of the clone remembers them, a sync does
  not change the number and a maintenance run adds one.
\<close>

definition counts_maintenance :: "'g repoSyncer \<Rightarrow> ('g \<Rightarrow> int) \<Rightarrow> bool" where
  "counts_maintenance s calls \<longleftrightarrow>
     (\<forall>sha g. calls (snd (sSync s sha g)) = calls g) \<and> (\<forall>now g. calls (snd (sMaintain s now g)) = calls g + 1)"

text \<open>What some planned jobs add to the counter and to the number of maintenance runs.\<close>

definition maintained :: "('g \<Rightarrow> int) \<Rightarrow> int \<Rightarrow> int \<Rightarrow> ('q, 'g, 'p) workerState \<Rightarrow> ('q, 'g, 'p) workerState \<Rightarrow> bool" where
  "maintained calls every n st st' \<longleftrightarrow>
     jobsSinceMaintenance st' = (jobsSinceMaintenance st + n) mod every \<and>
     calls (wg st') = calls (wg st) + (jobsSinceMaintenance st + n) div every"

lemma maintained_trans:
  assumes "0 < every" and "maintained calls every m st st1" and "maintained calls every n st1 st2"
  shows "maintained calls every (m + n) st st2"
proof -
  let ?k = "jobsSinceMaintenance st + m"
  have "(?k mod every + n) mod every = (?k + n) mod every" by (simp add: mod_add_left_eq)
  moreover have "?k div every + (?k mod every + n) div every = (?k + n) div every"
  proof -
    have "?k + n = every * (?k div every) + (?k mod every + n)" by simp
    then show ?thesis using assms(1) by (metis div_mult_self2 less_irrefl add.commute)
  qed
  ultimately show ?thesis using assms(2,3) by (simp add: maintained_def add.assoc)
qed

lemma maintenance_counter:
  assumes "counts_maintenance s calls" and "0 < every" and "0 \<le> jobsSinceMaintenance st" and "jobsSinceMaintenance st < every"
  shows "maintained calls every 1 st (run_maintenance every now s st)"
  using assms
  by (cases "jobsSinceMaintenance st + 1 = every") (auto simp: run_maintenance_def maintained_def counts_maintenance_def)

lemma handle_counter:
  assumes "depSyncer deps = Some s" and "sEnabled s" and "counts_maintenance s calls" and "0 < every"
    and "0 \<le> jobsSinceMaintenance st" and "jobsSinceMaintenance st < every"
  shows "maintained calls every (if planned_round (fst (handle_job deps env every now w j st)) then 1 else 0)
    st (snd (handle_job deps env every now w j st))"
proof -
  obtain e g where g: "sSync s (jHeadSHA j) (wg st) = (e, g)" by force
  have c: "calls g = calls (wg st)" using assms(3) g unfolding counts_maintenance_def by (metis snd_conv)
  show ?thesis
  proof (cases e)
    case None
    then show ?thesis
      using assms(1,2,5,6) g c maintenance_counter [OF assms(3,4), of "st\<lparr>wg := g\<rparr>" now]
      by (simp add: handle_job_def sync_job_def planned_round_def maintained_def Let_def case_prod_beta)
  next
    case (Some m)
    then show ?thesis
      using assms g c by (simp add: handle_job_def sync_job_def planned_round_def maintained_def)
  qed
qed

lemma round_counter:
  assumes "depSyncer deps = Some s" and "sEnabled s" and "counts_maintenance s calls" and "0 < every"
    and "0 \<le> jobsSinceMaintenance st" and "jobsSinceMaintenance st < every"
  shows "maintained calls every (if planned_round (fst (worker_round deps env every cw st)) then 1 else 0)
    st (snd (worker_round deps env every cw st))"
proof (cases "depJobs deps (fst cw) (wq st)")
  case (Pair d q)
  then show ?thesis
    using handle_counter [OF assms(1-4), of "st\<lparr>wq := q\<rparr>"] assms(5,6)
    by (cases d) (simp_all add: worker_round_def planned_round_def maintained_def)
qed

lemma rounds_counter:
  assumes "depSyncer deps = Some s" and "sEnabled s" and "counts_maintenance s calls" and "0 < every"
  shows "0 \<le> jobsSinceMaintenance st \<Longrightarrow> jobsSinceMaintenance st < every \<Longrightarrow>
    maintained calls every (int (length (filter planned_round (fst (worker_rounds deps env every cws st)))))
      st (snd (worker_rounds deps env every cws st))"
proof (induction cws arbitrary: st)
  case (Cons cw cws)
  let ?r = "worker_round deps env every cw st"
  note counter = round_counter [OF assms Cons.prems, of env cw]
  show ?case
  proof (cases "\<exists>e. fst ?r = WorkerExit e")
    case True
    then obtain e st' where "?r = (WorkerExit e, st')" by (cases ?r) auto
    then show ?thesis using counter by (simp add: planned_round_def)
  next
    case False
    have range: "0 \<le> jobsSinceMaintenance (snd ?r)" "jobsSinceMaintenance (snd ?r) < every"
      using counter assms(4) by (simp_all add: maintained_def)
    have step: "worker_rounds deps env every (cw # cws) st =
        (fst ?r # fst (worker_rounds deps env every cws (snd ?r)), snd (worker_rounds deps env every cws (snd ?r)))"
      using False by (intro worker_rounds_step) blast
    show ?thesis
      unfolding step using maintained_trans [OF assms(4) counter Cons.IH [OF range]] by (simp split: if_splits)
  qed
qed (simp add: maintained_def)

text \<open>
  C33. Maintenance runs exactly every so many jobs: with a positive period and an enabled clone, the
  number of maintenance runs after any rounds of the worker is the number of jobs that were synced
  and planned divided by the period, rounded down, and the counter is the remainder; a job whose sync
  failed does not count.
\<close>

theorem maintenance_period:
  assumes "depSyncer deps = Some s" and "sEnabled s" and "counts_maintenance s calls"
    and "every = workerEnvInt env ''THULE_REPO_MAINTENANCE_EVERY'' defaultRepoMaintenanceEvery" and "0 < every"
    and "runWorker deps env cws q g p = (rs, st')"
  shows "calls (wg st') = calls g + int (length (filter planned_round rs)) div every \<and>
    jobsSinceMaintenance st' = int (length (filter planned_round rs)) mod every"
  using rounds_counter [OF assms(1-3,5), of "\<lparr>wq = q, wg = g, wp = p, jobsSinceMaintenance = 0\<rparr>" env cws]
    assms(5,6) unfolding runWorker_def assms(4) [symmetric] by (simp add: maintained_def)

section \<open>The commit that is planned\<close>

text \<open>The clone of \<open>Repo\<close> as the worker uses it.\<close>

definition repo_syncer :: "('g, 'a) git \<Rightarrow> 'a Syncer \<Rightarrow> 'g repoSyncer" where
  "repo_syncer G s = \<lparr>sEnabled = Enabled s, sSync = Sync G s, sMaintain = Maintain G s\<rparr>"

text \<open>
  What the code relies on of git: a forced checkout of a hash that is not zero leaves the work tree
  at that commit; one with neither a hash nor a branch is one of the branch \<^verbatim>\<open>master\<close>, as the options
  of go-git document; and neither fetching nor compacting moves the work tree. \<open>tip\<close> is the commit a
  reference of the clone names.
\<close>

definition tracks_head ::
  "('g, 'a) git \<Rightarrow> (string \<Rightarrow> 'g \<Rightarrow> string) \<Rightarrow> (string \<Rightarrow> string \<Rightarrow> 'g \<Rightarrow> string) \<Rightarrow> bool" where
  "tracks_head G head tip \<longleftrightarrow>
     (\<forall>dir h g g'. Checkout G dir \<lparr>coHash = h, coBranch = [], coForce = True\<rparr> g = (None, g') \<longrightarrow>
        head dir g' = (if h = ZeroHash G then tip dir ''refs/heads/master'' g else h)) \<and>
     (\<forall>dir dir' a rs g. head dir (snd (Fetch G dir' a rs g)) = head dir g) \<and>
     (\<forall>dir dir' g. head dir (snd (RepackObjects G dir' g)) = head dir g) \<and>
     (\<forall>dir dir' t g. head dir (snd (PruneObjects G dir' t g)) = head dir g)"

lemma Maintain_head:
  assumes "tracks_head G head tip"
  shows "head dir (snd (Maintain G s now g)) = head dir g"
proof -
  have f: "head dir g' = head dir g" if "Fetch G d a rs g = (r, g')" for d a rs r g'
    using assms that unfolding tracks_head_def by (metis snd_conv)
  have rp: "head dir g' = head dir g" if "RepackObjects G d g = (r, g')" for d r g g'
    using assms that unfolding tracks_head_def by (metis snd_conv)
  have pr: "head dir (snd (PruneObjects G d t g)) = head dir g" for d t g
    using assms unfolding tracks_head_def by blast
  show ?thesis
    using f rp by (auto simp: Maintain_def pr split: open_result.splits prod.splits fetch_result.splits repack_result.splits)
qed

lemma Sync_head:
  assumes "tracks_head G head tip" and "Sync G s sha g = (None, g')" and "syncURL s \<noteq> []" and "sha \<noteq> []"
  shows "\<exists>g0. head (syncDir s) g' =
    (if NewHash G sha = ZeroHash G then tip (syncDir s) ''refs/heads/master'' g0 else NewHash G sha)"
proof -
  obtain g2 where "checkout_at G s sha g2 = (None, g')"
    using assms(2,3) by (auto simp: Sync_def split: if_splits prod.splits option.splits fetch_result.splits)
  then have "Checkout G (syncDir s) \<lparr>coHash = NewHash G sha, coBranch = [], coForce = True\<rparr> g2 = (None, g')"
    using assms(4) by (auto simp: checkout_at_def split: prod.splits option.splits)
  then show ?thesis using assms(1) unfolding tracks_head_def by blast
qed

text \<open>
  C12. A job is planned from its own commit: when the worker keeps a clone, every job with a head SHA
  that it plans is planned while the work tree of the clone is at the commit that SHA names, also
  when maintenance runs in between. The exception is a SHA that the git library reads as the zero
  hash, as it does text that is not hexadecimal: such a job is planned from a commit of the branch
  \<^verbatim>\<open>master\<close>, and the event still carries the SHA.
\<close>

theorem plans_the_checked_out_commit:
  assumes "tracks_head G head tip" and "depSyncer deps = Some (repo_syncer G s)" and "Enabled s"
    and "worker_round deps env every cw st = (Planned j evt err, st')" and "jHeadSHA j \<noteq> []"
  shows "(NewHash G (jHeadSHA j) \<noteq> ZeroHash G \<longrightarrow> head (syncDir s) (wg st') = NewHash G (jHeadSHA j)) \<and>
    (NewHash G (jHeadSHA j) = ZeroHash G \<longrightarrow>
       (\<exists>g0. head (syncDir s) (wg st') = tip (syncDir s) ''refs/heads/master'' g0)) \<and>
    HeadSHA evt = jHeadSHA j \<and> (err, wp st') = depPlan deps (snd cw) (wg st') evt (wp st)"
proof -
  obtain q where d: "handle_job deps env every (clock (fst cw)) (snd cw) j (st\<lparr>wq := q\<rparr>) = (Planned j evt err, st')"
    using assms(4) by (rule planned_round_job)
  obtain st1 where s1: "sync_job deps every (clock (fst cw)) j (st\<lparr>wq := q\<rparr>) = (None, st1)"
      and e: "evt = job_event j (job_files deps env (snd cw) j (wg st1))"
        "(err, wp st') = depPlan deps (snd cw) (wg st1) evt (wp st1)" "wg st' = wg st1"
    using handle_planned [OF d] by blast
  obtain g where g: "Sync G s (jHeadSHA j) (wg st) = (None, g)"
      "wg st1 \<in> {g, snd (Maintain G s (clock (fst cw)) g)}" "wp st1 = wp st"
    using s1 assms(2,3)
    by (auto simp: sync_job_def repo_syncer_def run_maintenance_def split: prod.splits option.splits if_splits)
  have "head (syncDir s) (wg st1) = head (syncDir s) g" using g(2) Maintain_head [OF assms(1)] by auto
  moreover obtain g0 where "head (syncDir s) g =
      (if NewHash G (jHeadSHA j) = ZeroHash G then tip (syncDir s) ''refs/heads/master'' g0 else NewHash G (jHeadSHA j))"
    using Sync_head [OF assms(1) g(1) _ assms(5)] assms(3) by (auto simp: Enabled_def)
  ultimately show ?thesis using e g(3) by (auto simp: job_event_def)
qed

section \<open>From the job to the event\<close>

text \<open>The event that is planned for the job of an event: the same, with files looked up when it had none.\<close>

definition planned_event :: "MergeRequestEvent \<Rightarrow> MergeRequestEvent \<Rightarrow> bool" where
  "planned_event ev evt \<longleftrightarrow>
     (\<exists>files. evt = ev\<lparr>ChangedFiles := files\<rparr> \<and> (ChangedFiles ev \<noteq> [] \<longrightarrow> files = ChangedFiles ev))"

lemma job_event_planned:
  "planned_event ev (job_event (job_of_event ev) (job_files deps env w (job_of_event ev) g))"
  unfolding planned_event_def
  by (rule exI [of _ "job_files deps env w (job_of_event ev) g"])
    (simp add: job_event_def job_of_event_def job_files_def)

text \<open>A job is planned unless its commit cannot be checked out.\<close>

lemma handle_job_result:
  obtains (planned) evt err where "fst (handle_job deps env every now w (job_of_event ev) st) = Planned (job_of_event ev) evt err"
      "planned_event ev evt"
  | (failed) s e g where "fst (handle_job deps env every now w (job_of_event ev) st) = SyncFailed (job_of_event ev) e"
      "depSyncer deps = Some s" "sEnabled s" "sSync s (HeadSHA ev) (wg st) = (Some e, g)"
proof (cases "sync_job deps every now (job_of_event ev) st")
  case (Pair e st1)
  show ?thesis
  proof (cases e)
    case None
    then show ?thesis
      using Pair job_event_planned by (intro planned) (simp_all add: handle_job_def Let_def case_prod_beta)
  next
    case (Some m)
    have "jHeadSHA (job_of_event ev) = HeadSHA ev" by (simp add: job_of_event_def)
    then show ?thesis
      using Pair Some failed by (auto simp: handle_job_def sync_job_def split: option.splits prod.splits if_splits)
  qed
qed

section \<open>What the worker does not do\<close>

text \<open>
  A job whose commit cannot be checked out is lost: it is taken off the queue, the worker goes on
  with the next one, and the planner is not called, so no status and no comment tells the merge
  request about it.
\<close>

theorem failed_sync_drops_the_job:
  assumes "depSyncer deps = Some s" and "sEnabled s" and "depJobs deps = Dequeue" and "ctxErr (fst cw) = None"
    and "chan (wq st) = job # js" and "sSync s (jHeadSHA job) (wg st) = (Some e, g)"
  shows "worker_round deps env every cw st = (SyncFailed job e, st\<lparr>wq := (wq st)\<lparr>chan := js\<rparr>, wg := g\<rparr>)"
  using assms by (simp add: worker_round_def Dequeue_def handle_job_def sync_job_def)

text \<open>
  By default no job reaches a worker of its own: without settings the queue is kept in the memory
  of the process, and a worker that starts on such a queue waits in every round, as long as its
  context is not done.
\<close>

theorem default_queue_starves_the_worker:
  assumes "depJobs deps = Dequeue" and "list_all (\<lambda>cw. ctxErr (fst cw) = None) cws"
    and "QueueFromEnv (\<lambda>_. []) = Some (Inr (UseMemory q))"
  shows "fst (runWorker deps env cws q g p) = replicate (length cws) Waiting"
proof -
  have q: "chan q = []"
    using assms(3) by (auto simp: QueueFromEnv_def getEnvInt_def NewMemoryQueue_def split: if_splits)
  have "chan (wq st) = [] \<Longrightarrow> fst (worker_rounds deps env every cws st) = replicate (length cws) Waiting"
    for every st
    using assms(2)
  proof (induction cws arbitrary: st)
    case (Cons cw cws)
    have r: "worker_round deps env every cw st = (Waiting, st)"
      using Cons.prems assms(1) by (simp add: worker_round_def Dequeue_def)
    show ?case using Cons by (simp add: r case_prod_beta)
  qed simp
  then show ?thesis using q by (simp add: runWorker_def)
qed

section \<open>Examples\<close>

text \<open>
  A clone that can check out everything; its state is the commit it is at, a branch being at a commit
  of its own name. The text \<^verbatim>\<open>bad\<close> is no hash.
\<close>

definition sample_git :: "(string, 'a) git" where
  "sample_git =
     \<lparr>ErrRepositoryNotExists = ''repository does not exist'', PlainOpen = (\<lambda>_ _. Opened),
      MkdirAll = (\<lambda>_ g. (None, g)), PlainClone = (\<lambda>_ _ g. (None, g)), Fetch = (\<lambda>_ _ _ g. (Fetched, g)),
      Worktree = (\<lambda>_ _. None),
      Checkout = (\<lambda>_ t g. (None, if coHash t \<noteq> ''0'' then coHash t
        else if coBranch t = [] then ''refs/heads/master'' else coBranch t)),
      RepackObjects = (\<lambda>_ g. (Repacked, g)), PruneObjects = (\<lambda>_ _ g. (Pruned, g)), IsHash = (\<lambda>_. True),
      NewHash = (\<lambda>h. if h = ''bad'' then ''0'' else h), ZeroHash = ''0'', NewBranchReferenceName = (\<lambda>b. b), NewRemoteReferenceName = (\<lambda>r b. b),
      Reference = (\<lambda>_ _ _. None), CommitObject = (\<lambda>_ _ _. None), MergeBase = (\<lambda>_ _ _ _. None),
      CommitPatch = (\<lambda>_ _ _ _. Inr [])\<rparr>"

definition sample_syncer :: "unit Syncer" where
  "sample_syncer = NewSyncer ''https://git'' ''master'' ''/repo'' ()"

text \<open>A planner that counts.\<close>

definition sample_deps :: "(MemoryQueue, string, nat, unit) workerDeps" where
  "sample_deps =
     \<lparr>depJobs = Dequeue, depSyncer = Some (repo_syncer sample_git sample_syncer),
      depPlan = (\<lambda>_ _ _ n. (None, Suc n)), depMRFiles = None, depDiff = (\<lambda>_ _ _ _. Inr [''a.yaml''])\<rparr>"

definition two_jobs :: MemoryQueue where
  "two_jobs = \<lparr>chan = [job_of_event (ex_event ''d1'' 1 []), job_of_event (ex_event ''d2'' 2 [''b''])], buffer = 5\<rparr>"

lemma sample_deps_sel: "depJobs sample_deps = Dequeue"
  "depSyncer sample_deps = Some (repo_syncer sample_git sample_syncer)"
  "sEnabled (repo_syncer sample_git sample_syncer)" "Enabled sample_syncer"
  by (simp_all add: sample_deps_def repo_syncer_def sample_syncer_def NewSyncer_def Enabled_def)

theorem worker_drains_queue_witness:
  "map round_job (fst (runWorker sample_deps (\<lambda>_. []) [(ex_call, ()), (ex_call, ()), (ex_call, ())] two_jobs [] 0))
     = [Some (job_of_event (ex_event ''d1'' 1 [])), Some (job_of_event (ex_event ''d2'' 2 [''b''])), None]"
  using worker_drains_queue [OF sample_deps_sel(1) _ prod.collapse [symmetric],
      of "[(ex_call, ()), (ex_call, ()), (ex_call, ())]" "\<lambda>_. []" two_jobs "[]" 0]
  by (simp add: ex_call_def two_jobs_def)

text \<open>A clone that counts its maintenance, done after every second job: two jobs, one run.\<close>

definition counting_deps :: "(MemoryQueue, int, nat, unit) workerDeps" where
  "counting_deps =
     \<lparr>depJobs = Dequeue, depSyncer = Some \<lparr>sEnabled = True, sSync = (\<lambda>_ g. (None, g)), sMaintain = (\<lambda>_ g. (None, g + 1))\<rparr>,
      depPlan = (\<lambda>_ _ _ n. (None, Suc n)), depMRFiles = None, depDiff = (\<lambda>_ _ _ _. Inr [''a.yaml''])\<rparr>"

definition every_second :: environ where
  "every_second k = (if k = ''THULE_REPO_MAINTENANCE_EVERY'' then ''2'' else [])"

lemma every_second_int: "workerEnvInt every_second ''THULE_REPO_MAINTENANCE_EVERY'' defaultRepoMaintenanceEvery = 2"
proof -
  have "TrimSpace ''2'' = ''2''" "Atoi ''2'' = Some 2" by code_simp+
  then show ?thesis by (simp add: workerEnvInt_def every_second_def)
qed

lemma counting_rounds:
  "map planned_round (fst (runWorker counting_deps every_second [(ex_call, ()), (ex_call, ()), (ex_call, ())] two_jobs 0 0))
     = [True, True, False]"
  by (simp add: runWorker_def worker_round_def counting_deps_def Dequeue_def ex_call_def two_jobs_def handle_job_def
      sync_job_def run_maintenance_def planned_round_def Let_def)

theorem maintenance_period_witness:
  "let st = snd (runWorker counting_deps every_second [(ex_call, ()), (ex_call, ()), (ex_call, ())] two_jobs 0 0)
   in wg st = 1 \<and> jobsSinceMaintenance st = 0"
proof -
  let ?run = "runWorker counting_deps every_second [(ex_call, ()), (ex_call, ()), (ex_call, ())] two_jobs 0 0"
  let ?s = "\<lparr>sEnabled = True, sSync = (\<lambda>_ g. (None, g)), sMaintain = (\<lambda>_ g. (None, g + 1))\<rparr> :: int repoSyncer"
  have "depSyncer counting_deps = Some ?s" "sEnabled ?s" "counts_maintenance ?s (\<lambda>g. g)"
    by (simp_all add: counting_deps_def counts_maintenance_def)
  from maintenance_period [OF this every_second_int [symmetric] _ prod.collapse [symmetric]]
  have "wg (snd ?run) = int (length (filter planned_round (fst ?run))) div 2 \<and>
      jobsSinceMaintenance (snd ?run) = int (length (filter planned_round (fst ?run))) mod 2" by auto
  moreover have "length (filter planned_round (fst ?run)) = 2"
    using arg_cong [OF counting_rounds, of "\<lambda>bs. length (filter (\<lambda>b. b) bs)"] by (simp add: filter_map comp_def)
  ultimately show ?thesis by (simp add: Let_def)
qed

lemma sample_tracks: "tracks_head sample_git (\<lambda>_ g. g) (\<lambda>_ r _. r)"
  by (simp add: tracks_head_def sample_git_def)

lemma sample_round:
  assumes "sha \<noteq> []"
  shows "\<exists>evt err st'. worker_round sample_deps (\<lambda>_. []) 200 (ex_call, ())
     \<lparr>wq = \<lparr>chan = [job_of_event (ex_event ''d1'' 1 [])\<lparr>jHeadSHA := sha\<rparr>], buffer = 5\<rparr>, wg = ''old'', wp = 0, jobsSinceMaintenance = 0\<rparr>
     = (Planned (job_of_event (ex_event ''d1'' 1 [])\<lparr>jHeadSHA := sha\<rparr>) evt err, st')"
  using assms
  by (simp add: worker_round_def sample_deps_def Dequeue_def ex_call_def handle_job_def sync_job_def
      repo_syncer_def Enabled_def sample_syncer_def NewSyncer_def Sync_def open_or_clone_def sample_git_def
      checkout_at_def run_maintenance_def ex_event_def job_of_event_def job_event_def Let_def)

text \<open>A commit is checked out by its hash; for a text that is no hash, \<^verbatim>\<open>master\<close> is.\<close>

theorem plans_the_checked_out_commit_witness:
  "let round = (\<lambda>sha. worker_round sample_deps (\<lambda>_. []) 200 (ex_call, ())
     \<lparr>wq = \<lparr>chan = [job_of_event (ex_event ''d1'' 1 [])\<lparr>jHeadSHA := sha\<rparr>], buffer = 5\<rparr>, wg = ''old'', wp = 0, jobsSinceMaintenance = 0\<rparr>)
   in wg (snd (round ''s'')) = ''s'' \<and> wg (snd (round ''bad'')) = ''refs/heads/master''"
proof -
  let ?round = "\<lambda>sha. worker_round sample_deps (\<lambda>_. []) 200 (ex_call, ())
     \<lparr>wq = \<lparr>chan = [job_of_event (ex_event ''d1'' 1 [])\<lparr>jHeadSHA := sha\<rparr>], buffer = 5\<rparr>, wg = ''old'', wp = 0, jobsSinceMaintenance = 0\<rparr>"
  obtain evt err st' where r: "?round ''s'' = (Planned (job_of_event (ex_event ''d1'' 1 [])\<lparr>jHeadSHA := ''s''\<rparr>) evt err, st')"
    using sample_round [of "''s''"] by blast
  obtain evt' err' st'' where b: "?round ''bad'' = (Planned (job_of_event (ex_event ''d1'' 1 [])\<lparr>jHeadSHA := ''bad''\<rparr>) evt' err', st'')"
    using sample_round [of "''bad''"] by blast
  show ?thesis
    using plans_the_checked_out_commit [OF sample_tracks sample_deps_sel(2,4) r]
      plans_the_checked_out_commit [OF sample_tracks sample_deps_sel(2,4) b] r b
    by (simp add: sample_git_def Let_def)
qed

theorem failed_sync_drops_the_job_witness:
  "fst (worker_round (sample_deps\<lparr>depSyncer := Some \<lparr>sEnabled = True, sSync = (\<lambda>_ g. (Some ''gone'', g)), sMaintain = (\<lambda>_ g. (None, g))\<rparr>\<rparr>)
     (\<lambda>_. []) 200 (ex_call, ()) \<lparr>wq = two_jobs, wg = ''old'', wp = 0, jobsSinceMaintenance = 0\<rparr>)
   = SyncFailed (job_of_event (ex_event ''d1'' 1 [])) ''gone''"
  using failed_sync_drops_the_job [of "sample_deps\<lparr>depSyncer := Some \<lparr>sEnabled = True, sSync = (\<lambda>_ g. (Some ''gone'', g)), sMaintain = (\<lambda>_ g. (None, g))\<rparr>\<rparr>"
      "\<lparr>sEnabled = True, sSync = (\<lambda>_ g. (Some ''gone'', g)), sMaintain = (\<lambda>_ g. (None, g))\<rparr>" "(ex_call, ())"
      "\<lparr>wq = two_jobs, wg = ''old'', wp = 0, jobsSinceMaintenance = 0\<rparr>"]
  by (simp add: sample_deps_sel ex_call_def two_jobs_def)

theorem default_queue_starves_the_worker_witness:
  "fst (runWorker sample_deps (\<lambda>_. []) [(ex_call, ()), (ex_call, ())] \<lparr>chan = [], buffer = 100\<rparr> [] 0) = [Waiting, Waiting]"
proof -
  have "ToLower ''memory'' = ''memory''" by code_simp
  then have "QueueFromEnv (\<lambda>_. []) = Some (Inr (UseMemory \<lparr>chan = [], buffer = 100\<rparr>))"
    by (simp add: QueueFromEnv_def getEnv_def getEnvInt_def NewMemoryQueue_def)
  from default_queue_starves_the_worker [OF sample_deps_sel(1) _ this, of "[(ex_call, ()), (ex_call, ())]"]
  show ?thesis by (simp add: ex_call_def numeral_2_eq_2)
qed

end
