(* ===== verification/GitLab.thy ===== *)
theory GitLab
  imports Vcs Repo
begin

text \<open>
  \<^verbatim>\<open>internal/vcs/gitlab.go\<close>: comments, commit statuses and changed files through the GitLab API.

  The HTTP client is the parameter \<open>http\<close>, which acts on the state \<open>'h\<close> of the server: it returns an
  error or a response. \<open>url_parse\<close> is \<^verbatim>\<open>url.Parse\<close>, giving the host name and the path of a URL, or an
  error. Log output is left out.
\<close>

definition thulePlanMarker :: string where
  "thulePlanMarker = ''<!-- thule:plan -->''"

definition thuleSupersededMarker :: string where
  "thuleSupersededMarker = ''<!-- thule:superseded -->''"

record GitLabOptions =
  BaseURL :: string
  Token :: string
  ProjectPath :: string

record HttpRequest =
  hMethod :: string
  hURL :: string
  hToken :: string
  hBody :: "string option"

record HttpResponse =
  hStatus :: int
  hContent :: string

type_synonym 'h http_client = "HttpRequest \<Rightarrow> 'h \<Rightarrow> HttpResponse result \<times> 'h"

type_synonym url_parser = "string \<Rightarrow> (string \<times> string) result"

section \<open>Helpers\<close>

definition prependMarker :: "string \<Rightarrow> string" where
  "prependMarker body = thulePlanMarker @ [nl, nl] @ body"

definition stripPlanMarker :: "string \<Rightarrow> string" where
  "stripPlanMarker body = TrimSpace (TrimPrefix body thulePlanMarker)"

definition isThulePlanNote :: "string \<Rightarrow> bool" where
  "isThulePlanNote body \<longleftrightarrow> Contains body thulePlanMarker"

definition isSupersededNote :: "string \<Rightarrow> bool" where
  "isSupersededNote body \<longleftrightarrow> Contains body thuleSupersededMarker"

definition buildSupersededBody :: "int \<Rightarrow> string" where
  "buildSupersededBody newNoteID =
     thulePlanMarker @ [nl] @ thuleSupersededMarker @ [nl] @
     ''<details><summary>Superseded Thule plan</summary>'' @ [nl, nl] @
     ''Replaced by newer Thule run (note id: '' @ itoa newNoteID @ '').'' @ [nl] @ ''</details>''"

definition mapState :: "CheckState \<Rightarrow> string" where
  "mapState state =
     (case state of CheckSuccess \<Rightarrow> ''success'' | CheckFailed \<Rightarrow> ''failed'' | CheckPending \<Rightarrow> ''pending'')"

text \<open>By bytes: a multi-byte rune at the limit is cut in two.\<close>

definition truncate_text :: "string \<Rightarrow> int \<Rightarrow> string" where
  "truncate_text s m = (if m \<le> 0 \<or> int (length s) \<le> m then s else take (nat m) s)"

text \<open>\<^verbatim>\<open>url.PathEscape\<close>: every byte that is not allowed in a path segment becomes \<^verbatim>\<open>%XX\<close>.\<close>

definition char_between :: "char \<Rightarrow> char \<Rightarrow> char \<Rightarrow> bool" where
  "char_between lo hi c \<longleftrightarrow> lo \<le> c \<and> c \<le> hi"

definition segment_char :: "char \<Rightarrow> bool" where
  "segment_char c \<longleftrightarrow>
     c \<in> set ''-_.~$&+=:@'' \<or> is_digit c \<or> char_between (CHR ''A'') (CHR ''Z'') c \<or>
     char_between (CHR ''a'') (CHR ''z'') c"

definition upper_hex :: "nat \<Rightarrow> char" where
  "upper_hex n = (if n < 10 then char_of (48 + n) else char_of (55 + n))"

definition PathEscape :: "string \<Rightarrow> string" where
  "PathEscape s =
     concat (map (\<lambda>c. if segment_char c then [c]
       else [CHR ''%'', upper_hex (of_char c div 16), upper_hex (of_char c mod 16)]) s)"

section \<open>Settings\<close>

text \<open>The scp-like form \<^verbatim>\<open>git@host:path\<close> is taken apart by hand.\<close>

definition parseHost :: "url_parser \<Rightarrow> string \<Rightarrow> string" where
  "parseHost url_parse repoURL =
     (if repoURL = [] then []
      else if HasPrefix repoURL ''git@'' \<and> CHR '':'' \<in> set repoURL
      then takeWhile (\<lambda>c. c \<noteq> CHR '':'') (drop 4 repoURL)
      else (case url_parse repoURL of Inr (host, _) \<Rightarrow> host | Inl _ \<Rightarrow> []))"

definition parseProjectPath :: "url_parser \<Rightarrow> string \<Rightarrow> string" where
  "parseProjectPath url_parse repoURL =
     (if repoURL = [] then []
      else if HasPrefix repoURL ''git@'' \<and> length (dropWhile (\<lambda>c. c \<noteq> CHR '':'') repoURL) > 1
      then TrimSuffix (tl (dropWhile (\<lambda>c. c \<noteq> CHR '':'') repoURL)) ''.git''
      else (case url_parse repoURL of
              Inr (_, path) \<Rightarrow> TrimSuffix (TrimPrefix path ''/'') ''.git''
            | Inl _ \<Rightarrow> []))"

text \<open>No token: the integration is off.\<close>

definition GitLabOptionsFromEnv :: "url_parser \<Rightarrow> environ \<Rightarrow> string \<Rightarrow> GitLabOptions option result" where
  "GitLabOptionsFromEnv url_parse env repoURL =
     (let token = TrimSpace (env ''THULE_GITLAB_TOKEN'');
          configured = TrimSpace (env ''THULE_GITLAB_PROJECT_PATH'');
          projectPath = (if configured = [] then parseProjectPath url_parse repoURL else configured);
          base = TrimSpace (env ''THULE_GITLAB_BASE_URL'');
          host = parseHost url_parse repoURL;
          baseURL = (if base = [] then ''https://'' @ (if host = [] then ''gl.blockstream.io'' else host) @ ''/api/v4''
                     else base)
      in if token = [] then Inr None
         else if projectPath = [] then
           Inl ''THULE_GITLAB_PROJECT_PATH is required when project path cannot be derived''
         else Inr (Some \<lparr>BaseURL = TrimRight baseURL ''/'', Token = token, ProjectPath = projectPath\<rparr>))"

section \<open>The client\<close>

record gitLabClient =
  glBase :: string
  glToken :: string
  glProject :: string

definition newGitLabClient :: "GitLabOptions \<Rightarrow> gitLabClient result" where
  "newGitLabClient opts =
     (if TrimSpace (BaseURL opts) = [] then Inl ''gitlab base url is required''
      else if TrimSpace (Token opts) = [] then Inl ''gitlab token is required''
      else if TrimSpace (ProjectPath opts) = [] then Inl ''gitlab project path is required''
      else Inr \<lparr>glBase = TrimRight (BaseURL opts) ''/'', glToken = Token opts,
                glProject = TrimSpace (ProjectPath opts)\<rparr>)"

text \<open>The three parts of the integration hold a client each.\<close>

definition NewGitLabCommentStore :: "GitLabOptions \<Rightarrow> gitLabClient result" where
  "NewGitLabCommentStore opts = newGitLabClient opts"

definition NewGitLabStatusPublisher :: "GitLabOptions \<Rightarrow> gitLabClient result" where
  "NewGitLabStatusPublisher opts = newGitLabClient opts"

definition NewGitLabMergeRequestReader :: "GitLabOptions \<Rightarrow> gitLabClient result" where
  "NewGitLabMergeRequestReader opts = newGitLabClient opts"

record gitLabNote =
  NoteID :: int
  NoteBody :: string
  NoteSystem :: bool

definition note_fields :: "gitLabNote fields" where
  "note_fields =
     [(''id'', int_field (\<lambda>v n. n\<lparr>NoteID := v\<rparr>)), (''body'', string_field (\<lambda>v n. n\<lparr>NoteBody := v\<rparr>)),
      (''system'', bool_field (\<lambda>v n. n\<lparr>NoteSystem := v\<rparr>))]"

definition empty_note :: gitLabNote where
  "empty_note = \<lparr>NoteID = 0, NoteBody = [], NoteSystem = False\<rparr>"

text \<open>
  One call of the API: \<open>dec\<close> decodes the body into a value that starts as \<open>zero\<close>, None standing for an
  error. A call without an output passes \<open>dec = None\<close>.
\<close>

definition gl_request ::
  "'h http_client \<Rightarrow> url_parser \<Rightarrow> gitLabClient \<Rightarrow> string \<Rightarrow> string \<Rightarrow> any option \<Rightarrow> (string \<Rightarrow> 'o option) option \<Rightarrow> 'o \<Rightarrow>
   'h \<Rightarrow> 'o result \<times> 'h" where
  "gl_request http url_parse c method target payload dec zero h =
     (if payload \<noteq> None \<and> Marshal (the payload) = None then (Inl ''marshal gitlab request'', h)
      else
        (case url_parse target of
           Inl e \<Rightarrow> (Inl (''build gitlab request: '' @ e), h)
         | Inr _ \<Rightarrow>
             (case http \<lparr>hMethod = method, hURL = target, hToken = glToken c,
                         hBody = Option.bind payload Marshal\<rparr> h of
                (Inl e, h') \<Rightarrow> (Inl (''gitlab request failed: '' @ e), h')
              | (Inr resp, h') \<Rightarrow>
                  (if 300 \<le> hStatus resp then
                     (Inl (''gitlab api '' @ method @ '' '' @ target @ '': status='' @ itoa (hStatus resp) @
                           '' body='' @ truncate_text (hContent resp) 300), h')
                   else
                     (case dec of
                        None \<Rightarrow> (Inr zero, h')
                      | Some d \<Rightarrow>
                          (if hContent resp = [] then (Inr zero, h')
                           else (case d (hContent resp) of
                                   None \<Rightarrow> (Inl ''decode gitlab response'', h')
                                 | Some out \<Rightarrow> (Inr out, h'))))))))"

definition notesURL :: "gitLabClient \<Rightarrow> int \<Rightarrow> string" where
  "notesURL c mergeReqID =
     glBase c @ ''/projects/'' @ PathEscape (glProject c) @ ''/merge_requests/'' @ itoa mergeReqID @ ''/notes''"

definition listURL :: "gitLabClient \<Rightarrow> int \<Rightarrow> string" where
  "listURL c mergeReqID = notesURL c mergeReqID @ ''?per_page=100&order_by=created_at&sort=asc''"

definition body_payload :: "string \<Rightarrow> any" where
  "body_payload body = AMap [(''body'', AStr body)]"

definition listNotes ::
  "'h http_client \<Rightarrow> url_parser \<Rightarrow> gitLabClient \<Rightarrow> int \<Rightarrow> 'h \<Rightarrow> gitLabNote list result \<times> 'h" where
  "listNotes http url_parse c mergeReqID h =
     gl_request http url_parse c ''GET'' (listURL c mergeReqID) None
       (Some (Unmarshal_structs note_fields empty_note)) [] h"

definition createNote ::
  "'h http_client \<Rightarrow> url_parser \<Rightarrow> gitLabClient \<Rightarrow> int \<Rightarrow> string \<Rightarrow> 'h \<Rightarrow> gitLabNote result \<times> 'h" where
  "createNote http url_parse c mergeReqID body h =
     gl_request http url_parse c ''POST'' (notesURL c mergeReqID) (Some (body_payload body))
       (Some (Unmarshal_struct note_fields empty_note)) empty_note h"

definition updateNote ::
  "'h http_client \<Rightarrow> url_parser \<Rightarrow> gitLabClient \<Rightarrow> int \<Rightarrow> int \<Rightarrow> string \<Rightarrow> 'h \<Rightarrow> unit result \<times> 'h" where
  "updateNote http url_parse c mergeReqID noteID body h =
     gl_request http url_parse c ''PUT'' (notesURL c mergeReqID @ ''/'' @ itoa noteID)
       (Some (body_payload body)) None () h"

definition status_payload :: "StatusCheck \<Rightarrow> any" where
  "status_payload status =
     AMap [(''description'', AStr (truncate_text (StatusDescription status) 255)),
           (''name'', AStr (StatusContext status)), (''state'', AStr (mapState (StatusState status)))]"

definition statusURL :: "gitLabClient \<Rightarrow> string \<Rightarrow> string" where
  "statusURL c sha = glBase c @ ''/projects/'' @ PathEscape (glProject c) @ ''/statuses/'' @ PathEscape sha"

definition setCommitStatus ::
  "'h http_client \<Rightarrow> url_parser \<Rightarrow> gitLabClient \<Rightarrow> StatusCheck \<Rightarrow> 'h \<Rightarrow> unit result \<times> 'h" where
  "setCommitStatus http url_parse c status h =
     gl_request http url_parse c ''POST'' (statusURL c (StatusSHA status)) (Some (status_payload status)) None () h"

section \<open>Comments, statuses and changed files\<close>

definition no_comment :: Comment where
  "no_comment = \<lparr>CommentID = 0, CommentMR = 0, CommentBody = [], Superseded = False, SupersededBy = 0\<rparr>"

text \<open>A note that a new plan replaces.\<close>

definition replaceable :: "int \<Rightarrow> gitLabNote \<Rightarrow> bool" where
  "replaceable newID note \<longleftrightarrow>
     \<not> (NoteID note = newID \<or> NoteSystem note) \<and>
     \<not> (\<not> isThulePlanNote (NoteBody note) \<or> isSupersededNote (NoteBody note))"

definition supersede_notes ::
  "'h http_client \<Rightarrow> url_parser \<Rightarrow> gitLabClient \<Rightarrow> int \<Rightarrow> int \<Rightarrow> gitLabNote list \<Rightarrow> 'h \<Rightarrow> 'h" where
  "supersede_notes http url_parse c mergeReqID newID notes h =
     foldl (\<lambda>h note. if replaceable newID note
              then snd (updateNote http url_parse c mergeReqID (NoteID note) (buildSupersededBody newID) h)
              else h) h notes"

definition GitLabPostOrSupersede ::
  "'h http_client \<Rightarrow> url_parser \<Rightarrow> gitLabClient \<Rightarrow> int \<Rightarrow> string \<Rightarrow> 'h \<Rightarrow> Comment \<times> 'h" where
  "GitLabPostOrSupersede http url_parse c mergeReqID body h =
     (if mergeReqID \<le> 0 then (no_comment, h)
      else
        (let (existing, h1) = listNotes http url_parse c mergeReqID h;
             notes = (case existing of Inl _ \<Rightarrow> [] | Inr ns \<Rightarrow> ns)
         in (case createNote http url_parse c mergeReqID (prependMarker body) h1 of
               (Inl _, h2) \<Rightarrow> (no_comment, h2)
             | (Inr created, h2) \<Rightarrow>
                 (\<lparr>CommentID = NoteID created, CommentMR = mergeReqID, CommentBody = body, Superseded = False,
                   SupersededBy = 0\<rparr>,
                  supersede_notes http url_parse c mergeReqID (NoteID created) notes h2))))"

definition note_comment :: "int \<Rightarrow> gitLabNote \<Rightarrow> Comment" where
  "note_comment mergeReqID n =
     \<lparr>CommentID = NoteID n, CommentMR = mergeReqID, CommentBody = stripPlanMarker (NoteBody n),
      Superseded = isSupersededNote (NoteBody n), SupersededBy = 0\<rparr>"

definition GitLabList ::
  "'h http_client \<Rightarrow> url_parser \<Rightarrow> gitLabClient \<Rightarrow> int \<Rightarrow> 'h \<Rightarrow> Comment list \<times> 'h" where
  "GitLabList http url_parse c mergeReqID h =
     (case listNotes http url_parse c mergeReqID h of
        (Inl _, h') \<Rightarrow> ([], h')
      | (Inr notes, h') \<Rightarrow>
          (map (note_comment mergeReqID) (filter (\<lambda>n. isThulePlanNote (NoteBody n)) notes), h'))"

definition GitLabSetStatus :: "'h http_client \<Rightarrow> url_parser \<Rightarrow> gitLabClient \<Rightarrow> StatusCheck \<Rightarrow> 'h \<Rightarrow> 'h" where
  "GitLabSetStatus http url_parse c status h =
     (if TrimSpace (StatusSHA status) = [] then h else snd (setCommitStatus http url_parse c status h))"

definition GitLabListStatuses :: "int \<Rightarrow> string \<Rightarrow> StatusCheck list" where
  "GitLabListStatuses mergeReqID sha = []"

text \<open>A change of a merge request: the new and the old path of the file.\<close>

definition change_fields :: "(string \<times> string) fields" where
  "change_fields =
     [(''new_path'', string_field (\<lambda>v ch. (v, snd ch))), (''old_path'', string_field (\<lambda>v ch. (fst ch, v)))]"

definition changes_fields :: "(string \<times> string) list fields" where
  "changes_fields = [(''changes'', structs_field change_fields ([], []) (\<lambda>v _. v))]"

definition change_path :: "string \<times> string \<Rightarrow> string" where
  "change_path ch = (let p = TrimSpace (fst ch) in if p = [] then TrimSpace (snd ch) else p)"

definition MRChangedFiles ::
  "'h http_client \<Rightarrow> url_parser \<Rightarrow> gitLabClient \<Rightarrow> int \<Rightarrow> 'h \<Rightarrow> string list result \<times> 'h" where
  "MRChangedFiles http url_parse c mergeReqID h =
     (if mergeReqID \<le> 0 then (Inl ''merge request id is required'', h)
      else
        (case gl_request http url_parse c ''GET''
                (glBase c @ ''/projects/'' @ PathEscape (glProject c) @ ''/merge_requests/'' @ itoa mergeReqID @ ''/changes'')
                None (Some (Unmarshal_struct changes_fields [])) [] h of
           (Inl e, h') \<Rightarrow> (Inl e, h')
         | (Inr changes, h') \<Rightarrow>
             (Inr (keep_first [] (filter (\<lambda>p. p \<noteq> []) (map change_path changes))), h')))"

section \<open>Markers and settings\<close>

lemma Contains_mid: "Contains (u @ p @ v) p"
  by (auto simp: Contains_iff)

lemma plan_note [simp]: "isThulePlanNote (prependMarker body)" "isThulePlanNote (buildSupersededBody i)"
  using Contains_mid [of "[]" thulePlanMarker]
  by (simp_all add: isThulePlanNote_def prependMarker_def buildSupersededBody_def)

lemma superseded_note [simp]: "isSupersededNote (buildSupersededBody i)"
  using Contains_mid [of "thulePlanMarker @ [nl]" thuleSupersededMarker]
  by (simp add: isSupersededNote_def buildSupersededBody_def)

lemma truncate_text_bound: "0 < m \<Longrightarrow> int (length (truncate_text s m)) \<le> m"
  by (auto simp: truncate_text_def)

lemma takeWhile_colon: "CHR '':'' \<notin> set host \<Longrightarrow> takeWhile (\<lambda>c. c \<noteq> CHR '':'') (host @ CHR '':'' # r) = host"
  "CHR '':'' \<notin> set host \<Longrightarrow> dropWhile (\<lambda>c. c \<noteq> CHR '':'') (host @ CHR '':'' # r) = CHR '':'' # r"
  by (induction host) auto

text \<open>The host and the path of an SSH address are read back.\<close>

lemma parse_ssh_address:
  assumes "CHR '':'' \<notin> set host" and "path \<noteq> []"
  shows "parseHost url_parse (''git@'' @ host @ '':'' @ path @ ''.git'') = host"
    and "parseProjectPath url_parse (''git@'' @ host @ '':'' @ path @ ''.git'') = path"
proof -
  have "CHR '':'' \<notin> set (''git@'' @ host)" using assms(1) by simp
  from takeWhile_colon [OF this] takeWhile_colon [OF assms(1)]
  show "parseHost url_parse (''git@'' @ host @ '':'' @ path @ ''.git'') = host"
    and "parseProjectPath url_parse (''git@'' @ host @ '':'' @ path @ ''.git'') = path"
    by (simp_all add: parseHost_def parseProjectPath_def HasPrefix_def TrimSuffix_append)
qed

section \<open>Superseding old plans on the server\<close>

text \<open>
  What the code relies on of the notes API, for answers of success only: listing gives the first
  hundred notes in the order they were created, posting appends a note with a new number and returns
  it, updating replaces the body of the note with that number. Listing never changes the notes, and
  an update that is refused or not answered either did nothing or what was asked for.
\<close>

definition lists_notes :: "'h http_client \<Rightarrow> gitLabClient \<Rightarrow> ('h \<Rightarrow> int \<Rightarrow> gitLabNote list) \<Rightarrow> int \<Rightarrow> bool" where
  "lists_notes http c notes mr \<longleftrightarrow>
     (\<forall>h r h'. http \<lparr>hMethod = ''GET'', hURL = listURL c mr, hToken = glToken c, hBody = None\<rparr> h = (r, h') \<longrightarrow>
        notes h' = notes h \<and>
        (\<forall>resp. r = Inr resp \<longrightarrow> hStatus resp < 300 \<longrightarrow> hContent resp \<noteq> [] \<and>
           Unmarshal_structs note_fields empty_note (hContent resp) = Some (take 100 (notes h mr))))"

definition posts_notes :: "'h http_client \<Rightarrow> gitLabClient \<Rightarrow> ('h \<Rightarrow> int \<Rightarrow> gitLabNote list) \<Rightarrow> int \<Rightarrow> bool" where
  "posts_notes http c notes mr \<longleftrightarrow>
     (\<forall>msg h resp h'.
        http \<lparr>hMethod = ''POST'', hURL = notesURL c mr, hToken = glToken c,
              hBody = Some (json_text (body_payload msg))\<rparr> h = (Inr resp, h') \<longrightarrow> hStatus resp < 300 \<longrightarrow>
        (\<exists>n. hContent resp \<noteq> [] \<and> Unmarshal_struct note_fields empty_note (hContent resp) = Some n \<and>
           NoteBody n = msg \<and> \<not> NoteSystem n \<and> NoteID n \<notin> NoteID ` set (notes h mr) \<and>
           notes h' = (notes h)(mr := notes h mr @ [n])))"

definition with_body :: "int set \<Rightarrow> string \<Rightarrow> gitLabNote \<Rightarrow> gitLabNote" where
  "with_body ks msg n = (if NoteID n \<in> ks then n\<lparr>NoteBody := msg\<rparr> else n)"

definition puts_notes :: "'h http_client \<Rightarrow> gitLabClient \<Rightarrow> ('h \<Rightarrow> int \<Rightarrow> gitLabNote list) \<Rightarrow> int \<Rightarrow> bool" where
  "puts_notes http c notes mr \<longleftrightarrow>
     (\<forall>k msg h r h'.
        http \<lparr>hMethod = ''PUT'', hURL = notesURL c mr @ ''/'' @ itoa k, hToken = glToken c,
              hBody = Some (json_text (body_payload msg))\<rparr> h = (r, h') \<longrightarrow>
        notes h' = (notes h)(mr := map (with_body {k} msg) (notes h mr)) \<or>
        notes h' = notes h \<and> (\<forall>resp. r = Inr resp \<longrightarrow> 300 \<le> hStatus resp))"

definition notes_api :: "'h http_client \<Rightarrow> gitLabClient \<Rightarrow> ('h \<Rightarrow> int \<Rightarrow> gitLabNote list) \<Rightarrow> int \<Rightarrow> bool" where
  "notes_api http c notes mr \<longleftrightarrow>
     lists_notes http c notes mr \<and> posts_notes http c notes mr \<and> puts_notes http c notes mr"

lemma with_body_simps [simp]: "NoteID (with_body ks msg n) = NoteID n" "NoteSystem (with_body ks msg n) = NoteSystem n"
  "with_body {} msg = (\<lambda>n. n)" "with_body ks msg (with_body ks' msg n) = with_body (ks \<union> ks') msg n"
  by (auto simp: with_body_def)

lemma Marshal_body: "Marshal (body_payload msg) = Some (json_text (body_payload msg))"
  by (simp add: Marshal_def body_payload_def)

lemma listNotes_api:
  assumes "notes_api http c notes mr" and "listNotes http url_parse c mr h = (Inr ns, h')"
  shows "ns = take 100 (notes h mr) \<and> notes h' = notes h"
proof -
  obtain resp where r: "http \<lparr>hMethod = ''GET'', hURL = listURL c mr, hToken = glToken c, hBody = None\<rparr> h = (Inr resp, h')"
      "hStatus resp < 300" "hContent resp = [] \<and> ns = [] \<or> Unmarshal_structs note_fields empty_note (hContent resp) = Some ns"
    using assms(2) by (auto simp: listNotes_def gl_request_def split: sum.splits prod.splits if_splits option.splits)
  have "lists_notes http c notes mr" using assms(1) by (simp add: notes_api_def)
  from this [unfolded lists_notes_def, rule_format, OF r(1)] r(2,3) show ?thesis by auto
qed

lemma createNote_api:
  assumes "notes_api http c notes mr" and "createNote http url_parse c mr msg h = (Inr n, h')"
  shows "NoteBody n = msg \<and> \<not> NoteSystem n \<and> NoteID n \<notin> NoteID ` set (notes h mr) \<and>
    notes h' = (notes h)(mr := notes h mr @ [n])"
proof -
  obtain resp where r: "http \<lparr>hMethod = ''POST'', hURL = notesURL c mr, hToken = glToken c,
        hBody = Some (json_text (body_payload msg))\<rparr> h = (Inr resp, h')" "hStatus resp < 300"
      "hContent resp = [] \<or> Unmarshal_struct note_fields empty_note (hContent resp) = Some n"
    using assms(2)
    by (auto simp: createNote_def gl_request_def Marshal_body split: sum.splits prod.splits if_splits option.splits)
  have "posts_notes http c notes mr" using assms(1) by (simp add: notes_api_def)
  from this [unfolded posts_notes_def, rule_format, OF r(1,2)] r(3) show ?thesis by auto
qed

lemma updateNote_api:
  assumes "notes_api http c notes mr" and "updateNote http url_parse c mr k msg h = (r, h')"
  shows "notes h' = (notes h)(mr := map (with_body {k} msg) (notes h mr)) \<or> notes h' = notes h \<and> (\<exists>e. r = Inl e)"
proof (cases "url_parse (notesURL c mr @ ''/'' @ itoa k)")
  case (Inl e)
  then show ?thesis using assms(2) by (auto simp: updateNote_def gl_request_def Marshal_body)
next
  case (Inr u)
  obtain x h1 where x: "http \<lparr>hMethod = ''PUT'', hURL = notesURL c mr @ ''/'' @ itoa k, hToken = glToken c,
        hBody = Some (json_text (body_payload msg))\<rparr> h = (x, h1)" by force
  have r: "h1 = h'" "\<And>resp. x = Inr resp \<Longrightarrow> 300 \<le> hStatus resp \<Longrightarrow> \<exists>e. r = Inl e" "\<And>e. x = Inl e \<Longrightarrow> \<exists>e. r = Inl e"
    using assms(2) Inr x
    by (auto simp: updateNote_def gl_request_def Marshal_body split: sum.splits if_splits)
  have "puts_notes http c notes mr" using assms(1) by (simp add: notes_api_def)
  from this [unfolded puts_notes_def, rule_format, OF x] show ?thesis using r by (cases x) auto
qed

text \<open>The notes whose update failed while the loop ran.\<close>

fun update_failures ::
  "'h http_client \<Rightarrow> url_parser \<Rightarrow> gitLabClient \<Rightarrow> int \<Rightarrow> int \<Rightarrow> gitLabNote list \<Rightarrow> 'h \<Rightarrow> int list" where
  "update_failures http url_parse c mr new [] h = []"
| "update_failures http url_parse c mr new (n # ns) h =
     (if replaceable new n then
        (case updateNote http url_parse c mr (NoteID n) (buildSupersededBody new) h of
           (Inl _, h') \<Rightarrow> NoteID n # update_failures http url_parse c mr new ns h'
         | (Inr _, h') \<Rightarrow> update_failures http url_parse c mr new ns h')
      else update_failures http url_parse c mr new ns h)"

text \<open>The loop rewrites listed notes that can be replaced, and misses only those whose update failed.\<close>

lemma supersede_notes_api:
  assumes "notes_api http c notes mr"
  shows "\<exists>ks. notes (supersede_notes http url_parse c mr new ns h) =
      (notes h)(mr := map (with_body ks (buildSupersededBody new)) (notes h mr)) \<and>
    ks \<subseteq> NoteID ` set (filter (replaceable new) ns) \<and>
    NoteID ` set (filter (replaceable new) ns) \<subseteq> ks \<union> set (update_failures http url_parse c mr new ns h)"
proof (induction ns arbitrary: h)
  case Nil
  show ?case by (rule exI [of _ "{}"]) (simp add: supersede_notes_def)
next
  case (Cons a ns)
  show ?case
  proof (cases "replaceable new a")
    case True
    obtain r h' where u: "updateNote http url_parse c mr (NoteID a) (buildSupersededBody new) h = (r, h')" by force
    obtain ks where ks: "notes (supersede_notes http url_parse c mr new ns h') =
        (notes h')(mr := map (with_body ks (buildSupersededBody new)) (notes h' mr))"
        "ks \<subseteq> NoteID ` set (filter (replaceable new) ns)"
        "NoteID ` set (filter (replaceable new) ns) \<subseteq> ks \<union> set (update_failures http url_parse c mr new ns h')"
      using Cons.IH by blast
    have step: "supersede_notes http url_parse c mr new (a # ns) h = supersede_notes http url_parse c mr new ns h'"
      using True u by (simp add: supersede_notes_def)
    from updateNote_api [OF assms u] show ?thesis
    proof
      assume "notes h' = (notes h)(mr := map (with_body {NoteID a} (buildSupersededBody new)) (notes h mr))"
      then show ?thesis
        unfolding step ks(1) using True ks(2,3) u
        by (intro exI [of _ "ks \<union> {NoteID a}"]) (auto simp: comp_def split: sum.splits)
    next
      assume "notes h' = notes h \<and> (\<exists>e. r = Inl e)"
      then show ?thesis
        unfolding step ks(1) using True ks(2,3) u by (intro exI [of _ ks]) (auto split: sum.splits)
    qed
  next
    case False
    then show ?thesis using Cons.IH [of h] by (simp add: supersede_notes_def)
  qed
qed

definition active_plan :: "gitLabNote \<Rightarrow> bool" where
  "active_plan n \<longleftrightarrow> \<not> NoteSystem n \<and> isThulePlanNote (NoteBody n) \<and> \<not> isSupersededNote (NoteBody n)"

lemma replaceable_iff: "replaceable new n \<longleftrightarrow> active_plan n \<and> NoteID n \<noteq> new"
  by (auto simp: replaceable_def active_plan_def)

text \<open>
  What posting leaves on the server: the old notes, of the listed active plans all superseded but
  those whose update failed, and the new note.
\<close>

lemma post_notes:
  assumes "notes_api http c notes mr" and "0 < mr" and "distinct (map NoteID (notes h mr))"
    and "listNotes http url_parse c mr h = (Inr ns, h1)"
    and "createNote http url_parse c mr (prependMarker body) h1 = (Inr created, h2)"
    and "GitLabPostOrSupersede http url_parse c mr body h = (cm, h')"
  obtains ks where "CommentID cm = NoteID created" "NoteBody created = prependMarker body" "\<not> NoteSystem created"
    "NoteID created \<notin> NoteID ` set (notes h mr)"
    "notes h' mr = map (with_body ks (buildSupersededBody (NoteID created))) (notes h mr) @ [created]"
    "ks \<subseteq> NoteID ` set (filter active_plan (take 100 (notes h mr)))"
    "NoteID ` set (filter active_plan (take 100 (notes h mr))) \<subseteq>
       ks \<union> set (update_failures http url_parse c mr (NoteID created) ns h2)"
proof -
  let ?old = "notes h mr" and ?new = "NoteID created"
  have ns: "ns = take 100 ?old" "notes h1 = notes h" using listNotes_api [OF assms(1,4)] by simp_all
  have n: "NoteBody created = prependMarker body" "\<not> NoteSystem created" "?new \<notin> NoteID ` set ?old"
      "notes h2 = (notes h)(mr := ?old @ [created])"
    using createNote_api [OF assms(1,5)] ns(2) by simp_all
  have cm: "CommentID cm = ?new" and h': "h' = supersede_notes http url_parse c mr ?new ns h2"
    using assms(2,4-6) by (auto simp: GitLabPostOrSupersede_def)
  have "x \<in> set (take 100 ?old) \<Longrightarrow> NoteID x \<noteq> ?new" for x
    using n(3) by (metis imageI in_set_takeD)
  then have f: "filter (replaceable ?new) ns = filter active_plan (take 100 ?old)"
    unfolding ns(1) by (intro filter_cong) (auto simp: replaceable_iff)
  from supersede_notes_api [OF assms(1), of url_parse ?new ns h2] obtain ks where
    ks: "notes h' = (notes h2)(mr := map (with_body ks (buildSupersededBody ?new)) (notes h2 mr))"
      "ks \<subseteq> NoteID ` set (filter active_plan (take 100 ?old))"
      "NoteID ` set (filter active_plan (take 100 ?old)) \<subseteq> ks \<union> set (update_failures http url_parse c mr ?new ns h2)"
    unfolding h' f by blast
  have "NoteID ` set (filter active_plan (take 100 ?old)) \<subseteq> NoteID ` set ?old"
    using set_take_subset [of 100 ?old] by auto
  then have "?new \<notin> ks" using ks(2) n(3) by blast
  then have "notes h' mr = map (with_body ks (buildSupersededBody ?new)) ?old @ [created]"
    using ks(1) n(4) by (simp add: with_body_def)
  from that [OF cm n(1-3) this ks(2,3)] show ?thesis .
qed

text \<open>
  C17. On GitLab one plan is in force as well: when listing the notes of a merge request, at most a
  hundred, and creating the new note succeed, the new note is an active plan unless its own text
  holds the marker of a superseded one, every other plan still active is one whose update GitLab
  refused, every note keeps its number and place, and notes that are not plans keep their text. If
  no update is refused, the new note is the only active plan.
\<close>

theorem gitlab_one_active_plan:
  assumes "notes_api http c notes mr" and "0 < mr" and "distinct (map NoteID (notes h mr))"
    and "length (notes h mr) \<le> 100" and "\<not> isSupersededNote (prependMarker body)"
    and "listNotes http url_parse c mr h = (Inr ns, h1)"
    and "createNote http url_parse c mr (prependMarker body) h1 = (Inr created, h2)"
    and "GitLabPostOrSupersede http url_parse c mr body h = (cm, h')"
  shows "map NoteID (notes h' mr) = map NoteID (notes h mr) @ [CommentID cm] \<and>
    active_plan (last (notes h' mr)) \<and> NoteBody (last (notes h' mr)) = prependMarker body \<and>
    (\<forall>n \<in> set (butlast (notes h' mr)).
       active_plan n \<longrightarrow> NoteID n \<in> set (update_failures http url_parse c mr (CommentID cm) ns h2)) \<and>
    filter (\<lambda>n. \<not> isThulePlanNote (NoteBody n)) (notes h' mr) = filter (\<lambda>n. \<not> isThulePlanNote (NoteBody n)) (notes h mr)"
proof -
  obtain ks where k: "CommentID cm = NoteID created" "NoteBody created = prependMarker body" "\<not> NoteSystem created"
      "notes h' mr = map (with_body ks (buildSupersededBody (NoteID created))) (notes h mr) @ [created]"
      "ks \<subseteq> NoteID ` set (filter active_plan (take 100 (notes h mr)))"
      "NoteID ` set (filter active_plan (take 100 (notes h mr))) \<subseteq>
         ks \<union> set (update_failures http url_parse c mr (NoteID created) ns h2)"
    by (rule post_notes [OF assms(1-3,6-8)])
  let ?f = "with_body ks (buildSupersededBody (NoteID created))"
  have all: "take 100 (notes h mr) = notes h mr" using assms(4) by simp
  have inj: "inj_on NoteID (set (notes h mr))" using assms(3) by (simp add: distinct_map)
  have plan: "isThulePlanNote (NoteBody n)" if "n \<in> set (notes h mr)" "NoteID n \<in> ks" for n
    using that k(5) inj unfolding all by (auto simp: active_plan_def dest: inj_onD)
  have "active_plan created" using k(2,3) assms(5) by (simp add: active_plan_def)
  moreover have "NoteID n \<in> set (update_failures http url_parse c mr (NoteID created) ns h2)"
    if "n \<in> ?f ` set (notes h mr)" "active_plan n" for n
  proof -
    obtain x where x: "x \<in> set (notes h mr)" "n = ?f x" using \<open>n \<in> ?f ` set (notes h mr)\<close> by blast
    then have "NoteID x \<notin> ks" using that(2) by (auto simp: with_body_def active_plan_def)
    then have "NoteID n = NoteID x" "active_plan x" using that(2) x by (simp_all add: with_body_def)
    then show ?thesis using k(6) x(1) \<open>NoteID x \<notin> ks\<close> unfolding all by auto
  qed
  moreover have "filter (\<lambda>n. \<not> isThulePlanNote (NoteBody n)) (map ?f xs) = filter (\<lambda>n. \<not> isThulePlanNote (NoteBody n)) xs"
    if "set xs \<subseteq> set (notes h mr)" for xs
    using that plan by (induction xs) (auto simp: with_body_def)
  ultimately show ?thesis using k(1,2,4) by (simp add: comp_def)
qed

text \<open>
  Only the first page of notes is looked at: on a merge request with more than a hundred notes an
  active plan beyond them stays active next to the new one.
\<close>

theorem plan_beyond_first_page_stays_active:
  assumes "notes_api http c notes mr" and "0 < mr" and "distinct (map NoteID (notes h mr))"
    and "old \<in> set (drop 100 (notes h mr))" and "active_plan old"
    and "listNotes http url_parse c mr h = (Inr ns, h1)"
    and "createNote http url_parse c mr (prependMarker body) h1 = (Inr created, h2)"
    and "GitLabPostOrSupersede http url_parse c mr body h = (cm, h')"
  shows "old \<in> set (filter active_plan (notes h' mr)) \<and> CommentID cm \<noteq> NoteID old"
proof -
  obtain ks where k: "CommentID cm = NoteID created" "NoteID created \<notin> NoteID ` set (notes h mr)"
      "notes h' mr = map (with_body ks (buildSupersededBody (NoteID created))) (notes h mr) @ [created]"
      "ks \<subseteq> NoteID ` set (filter active_plan (take 100 (notes h mr)))"
    by (rule post_notes [OF assms(1-3,6-8)])
  have old: "old \<in> set (notes h mr)" using assms(4) by (rule in_set_dropD)
  have "NoteID old \<notin> NoteID ` set (take 100 (notes h mr))"
    using assms(3,4) append_take_drop_id [of 100 "notes h mr"]
    by (metis (no_types, lifting) Int_iff distinct_append empty_iff image_eqI list.set_map map_append)
  then have "NoteID old \<notin> ks" using k(4) by auto
  then have "with_body ks (buildSupersededBody (NoteID created)) old = old" by (simp add: with_body_def)
  then have "old \<in> set (notes h' mr)" using old unfolding k(3) by force
  moreover have "NoteID created \<noteq> NoteID old" using k(2) old by (metis imageI)
  ultimately show ?thesis using assms(5) k(1) by simp
qed

section \<open>Example\<close>

text \<open>
  A server that keeps its notes in a list per merge request and knows the client and request 7 only.
  It refuses to list notes whose numbers are out of range, to create its one note twice, and to
  update a note that does not exist.
\<close>

definition sample_client :: gitLabClient where
  "sample_client = \<lparr>glBase = ''https://git/api/v4'', glToken = ''t'', glProject = ''g/r''\<rparr>"

definition sample_url :: url_parser where
  "sample_url t = (if t = [] then Inl ''empty url'' else Inr (''git'', []))"

definition note_any :: "gitLabNote \<Rightarrow> any" where
  "note_any n = AMap [(''id'', ANum (itoa (NoteID n))), (''body'', AStr (NoteBody n)), (''system'', ABool (NoteSystem n))]"

definition notes_text :: "gitLabNote list \<Rightarrow> string" where
  "notes_text ns = json_text (AList (map note_any ns))"

definition sent_body :: "string option \<Rightarrow> string" where
  "sent_body b =
     (case Option.bind b (Unmarshal_map Some) of Some [(_, AStr msg)] \<Rightarrow> msg | _ \<Rightarrow> [])"

definition plain_note :: "gitLabNote \<Rightarrow> bool" where
  "plain_note n \<longleftrightarrow> 0 \<le> NoteID n \<and> NoteID n < 2 ^ 63"

definition sample_note :: "string \<Rightarrow> gitLabNote" where
  "sample_note msg = \<lparr>NoteID = 6, NoteBody = msg, NoteSystem = False\<rparr>"

definition sample_http :: "(int \<Rightarrow> gitLabNote list) http_client" where
  "sample_http r h =
     (if hMethod r = ''GET'' then
        (if list_all plain_note (h 7)
         then (Inr \<lparr>hStatus = 200, hContent = notes_text (take 100 (h 7))\<rparr>, h)
         else (Inr \<lparr>hStatus = 500, hContent = []\<rparr>, h))
      else if hMethod r = ''POST'' then
        (if 6 \<in> NoteID ` set (h 7) then (Inr \<lparr>hStatus = 409, hContent = []\<rparr>, h)
         else (Inr \<lparr>hStatus = 201, hContent = json_text (note_any (sample_note (sent_body (hBody r))))\<rparr>,
               h(7 := h 7 @ [sample_note (sent_body (hBody r))])))
      else
        (let named = (\<lambda>n. hURL r = notesURL sample_client 7 @ ''/'' @ itoa (NoteID n))
         in if list_ex named (h 7)
            then (Inr \<lparr>hStatus = 200, hContent = []\<rparr>,
                  h(7 := map (\<lambda>n. if named n then n\<lparr>NoteBody := sent_body (hBody r)\<rparr> else n) (h 7)))
            else (Inr \<lparr>hStatus = 404, hContent = []\<rparr>, h)))"

definition sample_plan :: gitLabNote where
  "sample_plan = \<lparr>NoteID = 5, NoteBody = prependMarker ''old'', NoteSystem = False\<rparr>"

definition sample_notes :: "int \<Rightarrow> gitLabNote list" where
  "sample_notes = (\<lambda>_. [])(7 := [sample_plan])"

lemma sample_plan_sel [simp]: "NoteID sample_plan = 5" "sample_notes 7 = [sample_plan]"
  by (simp_all add: sample_plan_def sample_notes_def)

lemma find_note_field:
  "find_field note_fields ''id'' = Some (int_field (\<lambda>v n. n\<lparr>NoteID := v\<rparr>))"
  "find_field note_fields ''body'' = Some (string_field (\<lambda>v n. n\<lparr>NoteBody := v\<rparr>))"
  "find_field note_fields ''system'' = Some (bool_field (\<lambda>v n. n\<lparr>NoteSystem := v\<rparr>))"
  by (simp_all add: find_field_def note_fields_def)

lemma decode_note:
  assumes "plain_note n"
  shows "decode_struct note_fields (json_of (note_any n)) empty_note = Some n"
  using assms Atoi_itoa [of "NoteID n"]
  by (simp add: note_any_def decode_struct_def find_note_field int_field_def empty_note_def plain_note_def)

lemma note_any_good: "wf_nums (note_any n)" "jsonable (note_any n)"
  by (simp_all add: note_any_def num_text_itoa)

lemma note_any_fits: "fits max_depth (note_any n)" "fits max_depth (AList (map note_any ns))"
  by (rule fits_max, simp add: note_any_def eval_nat_numeral list_all_iff)+

lemma note_any_text [simp]: "json_text (note_any n) \<noteq> []" "notes_text ns \<noteq> []"
  by (simp_all add: note_any_def notes_text_def)

lemma sent_body_payload [simp]: "sent_body (Some (json_text (body_payload msg))) = msg"
proof -
  have "Unmarshal_map Some (json_text (body_payload msg)) = Some [(''body'', AStr msg)]"
    unfolding body_payload_def
    by (rule Unmarshal_Marshal) (simp_all add: wf_map_def fits_max eval_nat_numeral)
  then show ?thesis by (simp add: sent_body_def)
qed

lemma decode_note_text:
  assumes "plain_note n"
  shows "Unmarshal_struct note_fields empty_note (json_text (note_any n)) = Some n"
proof -
  have "parse_json (json_text (note_any n)) = Some (json_of (note_any n))"
    by (rule parse_json_text) (simp_all add: note_any_good note_any_fits)
  then show ?thesis using decode_note [OF assms] by (simp add: Unmarshal_struct_def)
qed

lemma decode_notes_text:
  assumes "list_all plain_note ns"
  shows "Unmarshal_structs note_fields empty_note (notes_text ns) = Some ns"
proof -
  have "parse_json (json_text (AList (map note_any ns))) = Some (json_of (AList (map note_any ns)))"
    by (rule parse_json_text) (simp_all add: note_any_good note_any_fits list_all_iff)
  moreover have "those (map (\<lambda>n. decode_struct note_fields (json_of (note_any n)) empty_note) ns) = Some (map (\<lambda>n. n) ns)"
    using assms by (intro those_Some decode_note) (simp add: list_all_iff)
  ultimately show ?thesis by (simp add: Unmarshal_structs_def structs_of_json_def notes_text_def comp_def)
qed

lemma sample_note_plain [simp]: "plain_note (sample_note msg)" "NoteID (sample_note msg) = 6"
  "NoteBody (sample_note msg) = msg" "\<not> NoteSystem (sample_note msg)"
  by (simp_all add: plain_note_def sample_note_def)

lemma take_plain: "list_all plain_note ns \<Longrightarrow> list_all plain_note (take k ns)"
  by (metis append_take_drop_id list_all_append)

lemma sample_put:
  "sample_http \<lparr>hMethod = ''PUT'', hURL = notesURL sample_client 7 @ slash # itoa k, hToken = t,
      hBody = Some (json_text (body_payload msg))\<rparr> h =
    (if k \<in> NoteID ` set (h 7)
     then (Inr \<lparr>hStatus = 200, hContent = []\<rparr>, h(7 := map (with_body {k} msg) (h 7)))
     else (Inr \<lparr>hStatus = 404, hContent = []\<rparr>, h))"
  by (auto simp: sample_http_def list_ex_iff itoa_inj with_body_def Let_def intro!: arg_cong [of _ _ "\<lambda>x. h(7 := x)"])

lemma sample_api: "notes_api sample_http sample_client (\<lambda>h. h) 7"
proof -
  have "lists_notes sample_http sample_client (\<lambda>h. h) 7"
    unfolding lists_notes_def by (auto simp: sample_http_def decode_notes_text take_plain split: if_splits)
  moreover have "posts_notes sample_http sample_client (\<lambda>h. h) 7"
    unfolding posts_notes_def by (auto simp: sample_http_def decode_note_text split: if_splits)
  moreover have "puts_notes sample_http sample_client (\<lambda>h. h) 7"
    unfolding puts_notes_def by (auto simp: sample_put split: if_splits)
  ultimately show ?thesis by (simp add: notes_api_def)
qed

lemma sample_calls:
  "list_all plain_note (h 7) \<Longrightarrow> listNotes sample_http sample_url sample_client 7 h = (Inr (take 100 (h 7)), h)"
  "6 \<notin> NoteID ` set (h 7) \<Longrightarrow>
     createNote sample_http sample_url sample_client 7 msg h = (Inr (sample_note msg), h(7 := h 7 @ [sample_note msg]))"
  "k \<in> NoteID ` set (h 7) \<Longrightarrow>
     updateNote sample_http sample_url sample_client 7 k msg h = (Inr (), h(7 := map (with_body {k} msg) (h 7)))"
proof -
  have url: "sample_url (listURL sample_client 7) = Inr (''git'', [])" "sample_url (notesURL sample_client 7) = Inr (''git'', [])"
    "sample_url (notesURL sample_client 7 @ x) = Inr (''git'', [])" for x
    by (simp_all add: sample_url_def listURL_def notesURL_def)
  show "list_all plain_note (h 7) \<Longrightarrow> listNotes sample_http sample_url sample_client 7 h = (Inr (take 100 (h 7)), h)"
    by (simp add: listNotes_def gl_request_def url sample_http_def decode_notes_text take_plain)
  show "6 \<notin> NoteID ` set (h 7) \<Longrightarrow>
     createNote sample_http sample_url sample_client 7 msg h = (Inr (sample_note msg), h(7 := h 7 @ [sample_note msg]))"
    by (simp add: createNote_def gl_request_def url sample_http_def decode_note_text Marshal_body)
  show "k \<in> NoteID ` set (h 7) \<Longrightarrow>
     updateNote sample_http sample_url sample_client 7 k msg h = (Inr (), h(7 := map (with_body {k} msg) (h 7)))"
    by (simp add: updateNote_def gl_request_def url sample_put Marshal_body)
qed

text \<open>The old plan is the only other note, its update succeeds, so it is superseded.\<close>

theorem gitlab_one_active_plan_witness:
  "filter active_plan (snd (GitLabPostOrSupersede sample_http sample_url sample_client 7 ''new'' sample_notes) 7)
   = [sample_note (prependMarker ''new'')]"
proof -
  let ?post = "GitLabPostOrSupersede sample_http sample_url sample_client 7 ''new'' sample_notes"
  let ?n = "sample_note (prependMarker ''new'')"
  have new: "\<not> isSupersededNote (prependMarker ''new'')" by code_simp
  have calls: "listNotes sample_http sample_url sample_client 7 sample_notes = (Inr [sample_plan], sample_notes)"
      "createNote sample_http sample_url sample_client 7 (prependMarker ''new'') sample_notes
        = (Inr ?n, sample_notes(7 := [sample_plan, ?n]))"
    using sample_calls(1) [of sample_notes] sample_calls(2) [of sample_notes "prependMarker ''new''"]
    by (simp_all add: plain_note_def)
  then have cm: "CommentID (fst ?post) = 6" by (simp add: GitLabPostOrSupersede_def)
  have ok: "update_failures sample_http sample_url sample_client 7 6 [sample_plan] (sample_notes(7 := [sample_plan, ?n])) = []"
    using sample_calls(3) [of 5 "sample_notes(7 := [sample_plan, ?n])"] by simp
  have "snd ?post 7 \<noteq> [] \<and> active_plan (last (snd ?post 7)) \<and> NoteBody (last (snd ?post 7)) = prependMarker ''new'' \<and>
      NoteID (last (snd ?post 7)) = 6 \<and> (\<forall>n \<in> set (butlast (snd ?post 7)). \<not> active_plan n)"
    using gitlab_one_active_plan [OF sample_api _ _ _ new calls prod.collapse [symmetric]] ok cm
    by (auto simp: last_map [symmetric])
  then obtain pre where "snd ?post 7 = pre @ [?n]" "\<forall>n \<in> set pre. \<not> active_plan n" "active_plan ?n"
    by (cases "snd ?post 7" rule: rev_cases) (auto simp: active_plan_def intro!: gitLabNote.equality)
  then show ?thesis by simp
qed

text \<open>A hundred remarks before the plan.\<close>

definition busy_notes :: "int \<Rightarrow> gitLabNote list" where
  "busy_notes = (\<lambda>_. map (\<lambda>i. \<lparr>NoteID = int i, NoteBody = ''hi'', NoteSystem = False\<rparr>) [10..<110] @
     sample_notes 7)"

theorem plan_beyond_first_page_stays_active_witness:
  "sample_plan \<in> set (filter active_plan
     (snd (GitLabPostOrSupersede sample_http sample_url sample_client 7 ''new'' busy_notes) 7))"
proof -
  have "active_plan (sample_plan)" by code_simp
  moreover have plain: "list_all plain_note (busy_notes 7)"
    by (auto simp: busy_notes_def plain_note_def list_all_iff)
  moreover have "6 \<notin> NoteID ` set (busy_notes 7)" by (auto simp: busy_notes_def)
  moreover have "distinct (map NoteID (busy_notes 7))"
    by (auto simp: busy_notes_def comp_def distinct_map inj_on_def)
  moreover have "sample_plan \<in> set (drop 100 (busy_notes 7))"
    by (simp add: busy_notes_def)
  ultimately show ?thesis
    using plan_beyond_first_page_stays_active [OF sample_api _ _ _ _ sample_calls(1) sample_calls(2) prod.collapse [symmetric],
        of busy_notes "sample_plan" "''new''"]
    by simp
qed

end
