(* ===== verification/Diff_Spec.thy ===== *)
theory Diff_Spec
  imports Diff
begin

text \<open>
  What the diff engine promises: normalised bodies are well formed and free of the ignored fields,
  the projection of a live body reproduces the desired one exactly when the live body covers it,
  and the list of changes names every identifier once, in order, with the action its two bodies
  call for.
\<close>

section \<open>The copy through JSON\<close>

text \<open>A value with every number as a \<^verbatim>\<open>float64\<close>.\<close>

fun floats :: "diff_env \<Rightarrow> any \<Rightarrow> any" where
  "floats e (ANum t) = float64 e t"
| "floats e (AList xs) = AList (map (floats e) xs)"
| "floats e (AMap m) = AMap (map (\<lambda>(k, v). (k, floats e v)) m)"
| "floats e v = v"

lemma decoded_json_of:
  "wf_any v \<Longrightarrow> jsonable v \<Longrightarrow> decoded e (json_of v) = floats e v"
proof (induction v rule: any_induct)
  case (List xs)
  then show ?case by (simp add: list_all_iff comp_def)
next
  case (Map m)
  have same: "map (\<lambda>x. (fst x, decoded e (json_of (snd x)))) m = map (\<lambda>(k, v). (k, floats e v)) m"
    using Map by (intro map_cong) (auto simp: list_all_iff, fastforce)
  have "decoded e (json_of (AMap m)) = AMap (put_all (map (\<lambda>x. (fst x, decoded e (json_of (snd x)))) m))"
    by (simp add: comp_def case_prod_beta)
  also have "\<dots> = AMap (map (\<lambda>(k, v). (k, floats e v)) m)"
    unfolding same using Map.prems by (subst put_all_id) simp_all
  finally show ?case by simp
qed simp_all

lemma deep_copy_eq:
  assumes "wf_map m" and "fits max_depth (AMap m)"
  shows "AMap (deepCopyMap e m) = (if jsonable (AMap m) then floats e (AMap m) else AMap [])"
proof (cases "jsonable (AMap m)")
  case True
  have "parse_json (json_text (AMap m)) = Some (json_of (AMap m))"
    using assms True by (intro parse_json_text wf_any_nums) (simp_all add: wf_map_def)
  then have "AMap (deepCopyMap e m) = decoded e (json_of (AMap m))"
    using True by (simp add: deepCopyMap_def marshal_bytes_def Marshal_def del: json_text.simps)
  then show ?thesis using True decoded_json_of [of "AMap m" e] assms(1) by (simp add: wf_map_def)
next
  case False
  then show ?thesis
    by (simp add: deepCopyMap_def marshal_bytes_def Marshal_def parse_json_Nil)
qed

text \<open>How the copy is evaluated.\<close>

definition copy_by_text :: "diff_env \<Rightarrow> (string \<times> any) list \<Rightarrow> (string \<times> any) list" where
  [code del]: "copy_by_text e m = deepCopyMap e m"

lemma deepCopyMap_code [code]:
  "deepCopyMap e m =
     (if wf_any (AMap m) \<and> fits 4 (AMap m)
      then (if jsonable (AMap m) then map (\<lambda>(k, v). (k, floats e v)) m else [])
      else copy_by_text e m)"
  using deep_copy_eq [OF _ fits_max, of m e] by (auto simp: copy_by_text_def wf_map_def split: if_splits)

text \<open>
  C19. Copying a body the way the code does, by encoding it to JSON and decoding the text, is the same
  as replacing every number in it, at any depth, by the \<^verbatim>\<open>float64\<close> nearest to it and keeping all keys,
  strings, truth values, nils and the order of lists: for every well-formed body within the decoder's
  nesting limit. A body that JSON refuses is copied to the empty map.
\<close>

theorem deep_copy_floats:
  assumes "wf_map m" and "fits max_depth (AMap m)"
  shows "AMap (deepCopyMap e m) = (if jsonable (AMap m) then floats e (AMap m) else AMap [])"
  using assms by (rule deep_copy_eq)

section \<open>Normalisation keeps bodies well formed\<close>

text \<open>Bodies the comparison works on: well-formed maps that JSON accepts.\<close>

definition good_any :: "any \<Rightarrow> bool" where
  "good_any v \<longleftrightarrow> wf_any v \<and> jsonable v"

definition good_body :: "(string \<times> any) list \<Rightarrow> bool" where
  "good_body m \<longleftrightarrow> good_any (AMap m)"

lemma good_body_iff: "good_body m \<longleftrightarrow> wf_keys m \<and> (\<forall>(k, v) \<in> set m. good_any v)"
  by (auto simp: good_body_def good_any_def list_all_iff)

lemma good_list_iff: "good_any (AList xs) \<longleftrightarrow> (\<forall>x \<in> set xs. good_any x)"
  by (auto simp: good_any_def list_all_iff)

lemma good_map_iff: "good_any (AMap m) \<longleftrightarrow> good_body m"
  by (simp add: good_body_def)

lemma good_nil [simp]: "good_any ANil" "good_body []"
  by (simp_all add: good_any_def good_body_def)

lemma good_at: "good_body m \<Longrightarrow> good_any (at_key m k)"
  by (auto simp: at_key_def good_body_iff split: option.splits dest!: map_of_SomeD)

lemma good_at_map: "good_body m \<Longrightarrow> at_key m k = AMap n \<Longrightarrow> good_body n"
  using good_at good_map_iff by metis

lemma good_map_of: "good_body m \<Longrightarrow> map_of m k = Some v \<Longrightarrow> good_any v"
  by (auto simp: good_body_iff dest!: map_of_SomeD)

lemma good_del [wf_intros]: "good_body m \<Longrightarrow> good_body (del_key k m)"
  unfolding good_body_iff using wf_keys_del_key set_del_key_subset by fast

lemma good_set [wf_intros]: "good_body m \<Longrightarrow> good_any v \<Longrightarrow> good_body (set_key k v m)"
  unfolding good_body_iff using wf_keys_set_key set_set_key_subset [of k v m] by fast

lemma equalAny_iff: "good_any v \<Longrightarrow> good_any w \<Longrightarrow> equalAny v w \<longleftrightarrow> v = w"
  by (simp add: equalAny_def good_any_def marshal_bytes_inj)

lemma equal_body_iff: "good_body m \<Longrightarrow> good_body n \<Longrightarrow> equal_body m n \<longleftrightarrow> m = n"
  using equalAny_iff [of "AMap m" "AMap n"] by (simp add: equal_body_def equalAny_def good_map_iff)

lemma good_prune: "good_any v \<Longrightarrow> good_any (pruneNilValues v)"
proof (induction v rule: any_induct)
  case (List xs)
  then show ?case by (auto simp: good_list_iff)
next
  case (Map m)
  have "wf_keys (filter (\<lambda>kv. snd kv \<noteq> ANil) (map (\<lambda>(k, vv). (k, pruneNilValues vv)) m))"
    using Map.prems by (intro wf_keys_filter) (simp add: good_map_iff good_body_iff)
  then show ?case using Map by (auto simp: good_map_iff good_body_iff)
qed simp_all

lemma cleaned_eq: "AMap (cleaned m) = pruneNilValues (AMap m)"
  by (simp add: cleaned_def)

lemma good_cleaned [wf_intros]: "good_body m \<Longrightarrow> good_body (cleaned m)"
  unfolding good_map_iff [symmetric] cleaned_eq by (rule good_prune)

lemma good_float64 [simp]: "good_any (float64 e t)"
  by (auto simp: float64_def good_any_def split: option.split)

lemma set_put_all: "kv \<in> set (put_all ms) \<Longrightarrow> kv \<in> set ms"
  using map_of_put_all [of ms] wf_keys_distinct [OF wf_keys_put_all, of ms]
  by (cases kv) (metis map_of_SomeD map_of_eq_Some_iff set_rev)

lemma good_put_all: "(\<And>k v. (k, v) \<in> set ms \<Longrightarrow> good_any v) \<Longrightarrow> good_body (put_all ms)"
  using set_put_all [of _ ms] by (auto simp: good_body_iff wf_keys_put_all)

lemma good_decoded: "good_any (decoded e j)"
proof (induction e j rule: decoded.induct)
  case (6 e ms)
  then show ?case by (auto simp: good_map_iff intro!: good_put_all)
qed (auto simp: good_list_iff simp del: good_nil, simp_all add: good_any_def)

lemma good_deepCopyMap [wf_intros]: "good_body (deepCopyMap e m)"
  using good_decoded by (auto simp: deepCopyMap_def intro!: good_put_all split: option.split json.split)

lemma good_set_map: "good_body m \<Longrightarrow> good_body n \<Longrightarrow> good_body (set_key k (AMap n) m)"
  by (simp add: good_set good_map_iff)

lemmas good_ops = good_del good_set_map good_cleaned

lemma good_annotations [wf_intros]: "good_body m \<Longrightarrow> good_body (clean_annotations m)"
  using good_at_map [of m "''annotations''"]
  by (simp add: clean_annotations_def Let_def good_ops split: any.split)

lemma good_labels [wf_intros]: "good_body m \<Longrightarrow> good_body (clean_labels m)"
  using good_at_map [of m "''labels''"]
  by (simp add: clean_labels_def good_ops split: any.split)

lemma good_metadata [wf_intros]: "good_body m \<Longrightarrow> good_body (clean_metadata m)"
  using good_at_map [of m "''metadata''"]
  by (simp add: clean_metadata_def Let_def good_ops good_annotations good_labels split: any.split)

lemma good_crd [wf_intros]: "good_body m \<Longrightarrow> good_body (clean_crd kind m)"
  using good_at_map [of m "''spec''"]
  by (simp add: clean_crd_def Let_def good_ops split: any.split)

lemma good_delete_parts [wf_intros]: "good_body m \<Longrightarrow> good_body (delete_parts ps m)"
proof (induction ps m rule: delete_parts.induct)
  case (3 p q ps obj)
  then show ?case
    using good_at_map [of obj p] by (simp add: good_ops split: any.split)
qed (simp_all add: good_ops)

lemma good_deletes: "good_body m \<Longrightarrow> good_body (foldl (\<lambda>cp p. deletePath p cp) m ps)"
  by (induction ps arbitrary: m) (simp_all add: deletePath_def good_delete_parts)

lemma good_normalize: "good_body (Body (normalize e r ignore))"
  unfolding normalize_def Let_def by (simp add: good_deletes wf_intros)

section \<open>Projection\<close>

text \<open>
  A live value covers a desired one when it has everything the desired one asks for: all its keys,
  with values that cover the desired ones, and all its list elements in their places.
\<close>

fun covers :: "any \<Rightarrow> any \<Rightarrow> bool" where
  "covers (AMap dm) a =
     (case a of
        AMap am \<Rightarrow> list_all (\<lambda>(k, d). map_of am k \<noteq> None \<and> covers d (at_key am k)) dm
      | _ \<Rightarrow> False)"
| "covers (AList ds) a =
     (case a of
        AList as \<Rightarrow>
          list_all (\<lambda>(i, d). if i \<ge> length as then d = ANil else covers d (as ! i)) (List.enumerate 0 ds)
      | _ \<Rightarrow> False)"
| "covers d a = (a = d)"

lemma map_filter_fix: "map f (filter P xs) = xs \<longleftrightarrow> (\<forall>x \<in> set xs. P x \<and> f x = x)"
proof
  assume eq: "map f (filter P xs) = xs"
  then have "length (filter P xs) = length xs" by (metis length_map)
  then have "filter P xs = xs" by (metis length_filter_less filter_True less_irrefl)
  then show "\<forall>x \<in> set xs. P x \<and> f x = x"
    using eq by (metis filter_eq_Cons_iff filter_id_conv map_eq_conv map_ident)
next
  assume "\<forall>x \<in> set xs. P x \<and> f x = x"
  then show "map f (filter P xs) = xs" by (induction xs) auto
qed

lemma enumerate_snd_fix: "map f (List.enumerate n xs) = xs \<longleftrightarrow> (\<forall>p \<in> set (List.enumerate n xs). f p = snd p)"
  by (induction xs arbitrary: n) auto

lemma enumerate_mem: "p \<in> set (List.enumerate n xs) \<Longrightarrow> snd p \<in> set xs"
  by (induction xs arbitrary: n) auto

lemma project_eq_iff: "projectActualToDesired d a = d \<longleftrightarrow> covers d a"
proof (induction d arbitrary: a rule: any_induct)
  case (List ds)
  show ?case
  proof (cases a)
    case (AList as)
    have "(if fst p \<ge> length as then ANil else projectActualToDesired (snd p) (as ! fst p)) = snd p \<longleftrightarrow>
        (if fst p \<ge> length as then snd p = ANil else covers (snd p) (as ! fst p))"
      if "p \<in> set (List.enumerate 0 ds)" for p
    proof -
      have "snd p \<in> set ds" using that by (rule enumerate_mem)
      then show ?thesis using List.IH [of "snd p" "as ! fst p"] by (simp add: eq_commute)
    qed
    then show ?thesis
      using AList by (simp add: enumerate_snd_fix list_all_iff case_prod_beta)
  qed simp_all
next
  case (Map dm)
  show ?case
  proof (cases a)
    case (AMap am)
    show ?thesis
      using AMap Map.IH by (auto simp: map_filter_fix list_all_iff)
  qed simp_all
qed auto

lemma good_project: "good_any d \<Longrightarrow> good_any a \<Longrightarrow> good_any (projectActualToDesired d a)"
proof (induction d arbitrary: a rule: any_induct)
  case (List ds)
  show ?case
  proof (cases a)
    case (AList as)
    have "good_any (if i \<ge> length as then ANil else projectActualToDesired d (as ! i))"
      if "(i, d) \<in> set (List.enumerate 0 ds)" for i d
      using that List AList by (auto simp: good_list_iff in_set_enumerate_eq)
    then show ?thesis using AList by (auto simp: good_list_iff)
  qed (use List.prems in simp_all)
next
  case (Map dm)
  show ?case
  proof (cases a)
    case (AMap am)
    have "wf_keys (map (\<lambda>(k, d). (k, projectActualToDesired d (at_key am k)))
        (filter (\<lambda>kv. map_of am (fst kv) \<noteq> None) dm))"
      using Map.prems(1) by (simp add: good_map_iff good_body_iff wf_keys_filter)
    moreover have "good_any (at_key am k)" for k
      using Map.prems(2) AMap by (simp add: good_map_iff good_at)
    ultimately show ?thesis
      using Map AMap by (auto simp: good_map_iff good_body_iff)
  qed (use Map.prems in simp_all)
qed simp_all

definition agrees :: "Options \<Rightarrow> Resource \<Rightarrow> Resource \<Rightarrow> bool" where
  "agrees opts d a \<longleftrightarrow>
     (if IgnoreActualExtraFields opts then covers (AMap (Body d)) (AMap (Body a)) else Body d = Body a)"

lemma compared_body_project:
  "AMap (compared_body opts d a) =
     (if IgnoreActualExtraFields opts then projectActualToDesired (AMap (Body d)) (AMap (Body a))
      else AMap (Body a))"
  by (simp add: compared_body_def)

lemma good_compared_body:
  assumes "good_body (Body d)" and "good_body (Body a)"
  shows "good_body (compared_body opts d a)"
  unfolding good_map_iff [symmetric] compared_body_project
  using assms by (simp add: good_project good_map_iff del: projectActualToDesired.simps)

lemma equal_compared_iff:
  assumes "good_body (Body d)" and "good_body (Body a)"
  shows "equal_body (Body d) (compared_body opts d a) \<longleftrightarrow> agrees opts d a"
proof -
  have "equal_body (Body d) (compared_body opts d a) \<longleftrightarrow> AMap (compared_body opts d a) = AMap (Body d)"
    unfolding equal_body_iff [OF assms(1) good_compared_body [OF assms]] any.inject
    by (rule eq_commute)
  then show ?thesis
    unfolding compared_body_project agrees_def project_eq_iff [symmetric]
    by (metis any.inject(5))
qed

section \<open>The changes\<close>

text \<open>The resource that stands for an identifier: the last one with it, normalised.\<close>

definition chosen :: "diff_env \<Rightarrow> Options \<Rightarrow> Resource list \<Rightarrow> string \<Rightarrow> Resource option" where
  "chosen e opts rs k =
     map_option (\<lambda>r. normalize e r (OptIgnoreFields opts)) (List.find (\<lambda>r. ID r = k) (rev rs))"

lemma find_append: "List.find P (xs @ ys) = (case List.find P xs of None \<Rightarrow> List.find P ys | Some x \<Rightarrow> Some x)"
  by (induction xs) auto

lemma by_id_chosen: "by_id e opts rs = chosen e opts rs"
proof (induction rs rule: rev_induct)
  case Nil
  show ?case by (simp add: by_id_def chosen_def fun_eq_iff)
next
  case (snoc r rs)
  have "by_id e opts (rs @ [r]) = (by_id e opts rs)(ID r \<mapsto> normalize e r (OptIgnoreFields opts))"
    by (simp add: by_id_def)
  then show ?case using snoc by (auto simp: chosen_def fun_eq_iff)
qed

lemma chosen_mem:
  assumes "chosen e opts rs k = Some r"
  shows "\<exists>r0 \<in> set rs. ID r0 = k \<and> r = normalize e r0 (OptIgnoreFields opts)"
proof -
  obtain r0 where "List.find (\<lambda>r. ID r = k) (rev rs) = Some r0" and "r = normalize e r0 (OptIgnoreFields opts)"
    using assms by (auto simp: chosen_def)
  then show ?thesis by (auto simp: find_Some_iff) (metis nth_mem length_rev set_rev)
qed

lemma chosen_None: "chosen e opts rs k = None \<longleftrightarrow> k \<notin> ID ` set rs"
  by (auto simp: chosen_def find_None_iff)

lemma good_chosen: "chosen e opts rs k = Some r \<Longrightarrow> good_body (Body r)"
  using chosen_mem good_normalize by blast

text \<open>The change reported for an identifier, if any.\<close>

definition change_for ::
  "diff_env \<Rightarrow> Options \<Rightarrow> res_map \<Rightarrow> res_map \<Rightarrow> string \<Rightarrow> Change option"
where
  "change_for e opts dm am k =
     (case (dm k, am k) of
        (Some d, None) \<Rightarrow> Some ((new_change k Create)\<lparr>DesiredYAML := mustYAML e (AMap (Body d))\<rparr>)
      | (None, Some a) \<Rightarrow>
          (if PruneDeletes opts
           then Some ((new_change k Delete)\<lparr>CurrentYAML := mustYAML e (AMap (Body a))\<rparr>) else None)
      | (Some d, Some a) \<Rightarrow>
          Some (if equal_body (Body d) (compared_body opts d a) then new_change k NoOp
                else patch_change e k d a (compared_body opts d a))
      | (None, None) \<Rightarrow> None)"

lemma loop_changes:
  "fst (compute_loop e opts dm am ks acc) = fst acc @ List.map_filter (change_for e opts dm am) ks"
  by (induction e opts dm am ks acc rule: compute_loop.induct)
    (auto simp: List.map_filter_simps change_for_def Let_def split: option.splits)

lemma Compute_changes:
  "fst (Compute e desired actual opts) =
     List.map_filter (change_for e opts (chosen e opts desired) (chosen e opts actual))
       (sorted_keys (map ID desired @ map ID actual))"
  by (simp add: Compute_def loop_changes by_id_chosen)

lemma change_for_id: "change_for e opts dm am k = Some c \<Longrightarrow> ChangeID c = k"
  by (auto simp: change_for_def new_change_def patch_change_def Let_def split: option.splits if_splits)

lemma map_filter_ids:
  assumes "\<And>k c. f k = Some c \<Longrightarrow> g c = k"
  shows "map g (List.map_filter f ks) = filter (\<lambda>k. f k \<noteq> None) ks"
  using assms by (induction ks) (auto simp: List.map_filter_simps split: option.splits)

lemma map_filter_mem: "x \<in> set (List.map_filter f ks) \<longleftrightarrow> (\<exists>k \<in> set ks. f k = Some x)"
  by (induction ks) (auto simp: List.map_filter_simps split: option.splits)

lemma change_for_key:
  "change_for e opts (chosen e opts desired) (chosen e opts actual) k = Some c \<Longrightarrow>
     k \<in> set (sorted_keys (map ID desired @ map ID actual))"
  using chosen_None [of e opts desired k] chosen_None [of e opts actual k]
  by (auto simp: change_for_def split: option.splits)

lemma Compute_mem:
  "c \<in> set (fst (Compute e desired actual opts)) \<longleftrightarrow>
     change_for e opts (chosen e opts desired) (chosen e opts actual) (ChangeID c) = Some c"
  unfolding Compute_changes map_filter_mem using change_for_id change_for_key by metis

lemma Compute_ordered: "sorted_wrt (<) (map ChangeID (fst (Compute e desired actual opts)))"
  unfolding Compute_changes
  using change_for_id sorted_keys_strict by (subst map_filter_ids) (auto intro: sorted_wrt_filter)

text \<open>The action the two sides of an identifier call for.\<close>

definition action_for :: "Options \<Rightarrow> Resource option \<Rightarrow> Resource option \<Rightarrow> Action option" where
  "action_for opts d a =
     (case (d, a) of
        (Some d, None) \<Rightarrow> Some Create
      | (None, Some a) \<Rightarrow> (if PruneDeletes opts then Some Delete else None)
      | (Some d, Some a) \<Rightarrow> Some (if agrees opts d a then NoOp else Patch)
      | (None, None) \<Rightarrow> None)"

lemma change_for_action:
  assumes "\<And>d. dm k = Some d \<Longrightarrow> good_body (Body d)" and "\<And>a. am k = Some a \<Longrightarrow> good_body (Body a)"
  shows "map_option ChangeAction (change_for e opts dm am k) = action_for opts (dm k) (am k)"
  using assms equal_compared_iff
  by (auto simp: change_for_def action_for_def new_change_def patch_change_def Let_def split: option.split)

lemma Compute_change_action:
  "(\<exists>c \<in> set (fst (Compute e desired actual opts)). ChangeID c = k \<and> ChangeAction c = act) \<longleftrightarrow>
     map_option ChangeAction (change_for e opts (chosen e opts desired) (chosen e opts actual) k) = Some act"
  (is "?l \<longleftrightarrow> ?r")
proof
  assume ?l
  then show ?r using Compute_mem [of _ e desired actual opts] by auto
next
  assume ?r
  then obtain c where "change_for e opts (chosen e opts desired) (chosen e opts actual) k = Some c"
    and "ChangeAction c = act"
    by auto
  moreover from this(1) have "ChangeID c = k" by (rule change_for_id)
  ultimately show ?l using Compute_mem [of c e desired actual opts] by auto
qed

lemma Compute_action:
  "(\<exists>c \<in> set (fst (Compute e desired actual opts)). ChangeID c = k \<and> ChangeAction c = act) \<longleftrightarrow>
    action_for opts (chosen e opts desired k) (chosen e opts actual k) = Some act"
proof -
  have "map_option ChangeAction (change_for e opts (chosen e opts desired) (chosen e opts actual) k)
      = action_for opts (chosen e opts desired k) (chosen e opts actual k)"
    using good_chosen by (intro change_for_action) blast+
  then show ?thesis unfolding Compute_change_action by simp
qed

text \<open>
  C3. The plan is exact. The changes are listed by identifier, in strictly increasing order, and an
  identifier is listed with the action its two sides call for and no other: CREATE when only desired,
  DELETE when only live and pruning is on (not listed when it is off), NO-OP when the live body
  covers the desired one (or equals it, when extra live fields count), PATCH otherwise. When an
  identifier occurs twice, the last resource with it counts.
\<close>

theorem compute_actions:
  "sorted_wrt (<) (map ChangeID (fst (Compute e desired actual opts))) \<and>
    (\<forall>k act. (\<exists>c \<in> set (fst (Compute e desired actual opts)). ChangeID c = k \<and> ChangeAction c = act) \<longleftrightarrow>
       action_for opts (chosen e opts desired k) (chosen e opts actual k) = Some act)"
  using Compute_ordered Compute_action by blast

section \<open>The summary\<close>

definition count_action :: "Action \<Rightarrow> Change list \<Rightarrow> nat" where
  "count_action act cs = length (filter (\<lambda>c. ChangeAction c = act) cs)"

definition summary_of :: "Change list \<Rightarrow> Summary" where
  "summary_of cs =
     \<lparr>Creates = count_action Create cs, Patches = count_action Patch cs,
      Deletes = count_action Delete cs, NoOps = count_action NoOp cs\<rparr>"

lemma loop_summary:
  "snd acc = summary_of (fst acc) \<Longrightarrow>
     snd (compute_loop e opts dm am ks acc) = summary_of (fst (compute_loop e opts dm am ks acc))"
proof (induction ks arbitrary: acc)
  case (Cons k ks)
  obtain changes summary where acc: "acc = (changes, summary)" by (cases acc)
  show ?case
    unfolding acc compute_loop.simps
    by (rule Cons.IH, cases "dm k"; cases "am k")
      (use Cons.prems acc in \<open>simp_all add: summary_of_def count_action_def new_change_def patch_change_def Let_def\<close>)
qed simp

lemma Compute_summary: "snd (Compute e desired actual opts) = summary_of (fst (Compute e desired actual opts))"
  unfolding Compute_def by (rule loop_summary) (simp add: empty_summary_def summary_of_def count_action_def)

text \<open>
  The summary counts the changes of each action, and the four counts add up to their number.
\<close>

theorem compute_summary:
  "snd (Compute e desired actual opts) = summary_of (fst (Compute e desired actual opts)) \<and>
   Creates (snd (Compute e desired actual opts)) + Patches (snd (Compute e desired actual opts))
     + Deletes (snd (Compute e desired actual opts)) + NoOps (snd (Compute e desired actual opts))
     = length (fst (Compute e desired actual opts))"
proof -
  have "count_action Create cs + count_action Patch cs + count_action Delete cs + count_action NoOp cs
      = length cs" for cs
  proof (induction cs)
    case (Cons c cs)
    then show ?case by (cases "ChangeAction c") (simp_all add: count_action_def)
  qed (simp add: count_action_def)
  then show ?thesis by (simp add: Compute_summary summary_of_def)
qed

section \<open>Agreement\<close>

lemma covers_refl: "good_any v \<Longrightarrow> covers v v"
proof (induction v rule: any_induct)
  case (List xs)
  have "covers (snd p) (xs ! fst p) \<and> fst p < length xs" if "p \<in> set (List.enumerate 0 xs)" for p
    using that List enumerate_mem [OF that] by (auto simp: good_list_iff in_set_enumerate_eq)
  then show ?case by (fastforce simp: list_all_iff)
next
  case (Map m)
  have "map_of m k = Some v" if "(k, v) \<in> set m" for k v
    using that Map.prems by (simp add: good_map_iff good_body_iff map_of_wf_mem)
  then show ?case
    using Map by (fastforce simp: list_all_iff good_map_iff good_body_iff at_key_def)
qed simp_all

text \<open>
  Comparing a set of resources with itself reports only NO-OPs, whatever the options.
\<close>

theorem self_diff_noop:
  assumes "c \<in> set (fst (Compute e rs rs opts))"
  shows "ChangeAction c = NoOp"
proof -
  let ?r = "chosen e opts rs (ChangeID c)"
  have "action_for opts ?r ?r = Some (ChangeAction c)"
    using Compute_action assms by blast
  moreover have "agrees opts r r" if "?r = Some r" for r
    using good_chosen [OF that] covers_refl
    by (simp add: agrees_def good_map_iff del: covers.simps)
  ultimately show ?thesis by (auto simp: action_for_def split: option.splits)
qed

section \<open>What a patch shows\<close>

declare walk_lines.simps(1) [simp del]

lemma walk_lines_map:
  "walk_lines e path (Some (AMap dm)) (Some (AMap am)) =
     concat (map (\<lambda>k. walk_lines e (child_path path k) (map_of dm k) (map_of am k)) (union_keys dm am))"
  by (subst walk_lines.simps(1)) simp

lemma walk_lines_list:
  "walk_lines e path (Some (AList ds)) (Some (AList as)) =
     (if length ds \<noteq> length as then [minus_line e path (AList as), plus_line e path (AList ds)]
      else concat (map (\<lambda>p. walk_lines e (index_path path (fst p)) (Some (fst (snd p))) (Some (snd (snd p))))
                     (List.enumerate 0 (zip ds as))))"
  by (subst walk_lines.simps(1)) (simp add: case_prod_unfold)

lemma walk_lines_atom:
  assumes "good_any d" and "good_any a" and "\<nexists>dm am. d = AMap dm \<and> a = AMap am"
    and "\<nexists>ds as. d = AList ds \<and> a = AList as"
  shows "walk_lines e path (Some d) (Some a) = [] \<longleftrightarrow> d = a"
  using assms equalAny_iff [OF assms(1,2)]
  by (subst walk_lines.simps(1)) (auto split: any.split)

lemma walk_lines_one_sided:
  "walk_lines e path d None = [] \<longleftrightarrow> d = None" "walk_lines e path None a = [] \<longleftrightarrow> a = None"
  by (cases d; simp) (cases a; simp)

lemma map_of_outside_union: "k \<notin> set (union_keys dm am) \<Longrightarrow> map_of dm k = map_of am k"
  by (auto simp: union_keys_def) (metis map_of_eq_None_iff)

lemma zip_enumerate_eq:
  "length ds = length as \<Longrightarrow> (\<forall>p \<in> set (List.enumerate n (zip ds as)). fst (snd p) = snd (snd p)) \<longleftrightarrow> ds = as"
  by (induction ds as arbitrary: n rule: list_induct2) auto

lemma walk_lines_empty: "good_any d \<Longrightarrow> good_any a \<Longrightarrow> walk_lines e path (Some d) (Some a) = [] \<longleftrightarrow> d = a"
proof (induction d arbitrary: a path rule: any_induct)
  case (List ds)
  show ?case
  proof (cases a)
    case (AList as)
    have "walk_lines e q (Some (fst (snd p))) (Some (snd (snd p))) = [] \<longleftrightarrow> fst (snd p) = snd (snd p)"
      if "p \<in> set (List.enumerate 0 (zip ds as))" for p q
    proof (rule List.IH)
      have "snd p \<in> set (zip ds as)" using that by (rule enumerate_mem)
      then have "fst (snd p) \<in> set ds" "snd (snd p) \<in> set as"
        by (metis prod.collapse set_zip_leftD, metis prod.collapse set_zip_rightD)
      then show "fst (snd p) \<in> set ds" "good_any (fst (snd p))" "good_any (snd (snd p))"
        using List.prems AList by (auto simp: good_list_iff)
    qed
    then show ?thesis
      unfolding AList walk_lines_list using zip_enumerate_eq [of ds as 0] by auto
  qed (use List.prems walk_lines_atom in auto)
next
  case (Map dm)
  show ?case
  proof (cases a)
    case (AMap am)
    have "walk_lines e (child_path path k) (map_of dm k) (map_of am k) = [] \<longleftrightarrow> map_of dm k = map_of am k" for k
    proof (cases "map_of dm k")
      case (Some d)
      have "good_any v" if "map_of am k = Some v" for v
        using that Map.prems AMap by (auto simp: good_map_iff intro: good_map_of)
      moreover have "good_any d" using Some Map.prems by (auto simp: good_map_iff intro: good_map_of)
      ultimately show ?thesis
        using Some Map.IH [of k d] map_of_SomeD [OF Some] by (cases "map_of am k") auto
    qed (auto simp: walk_lines_one_sided)
    then have "walk_lines e path (Some (AMap dm)) (Some (AMap am)) = [] \<longleftrightarrow>
        (\<forall>k \<in> set (union_keys dm am). map_of dm k = map_of am k)"
      unfolding walk_lines_map by simp
    also have "\<dots> \<longleftrightarrow> map_of dm = map_of am"
      using map_of_outside_union by (metis ext)
    also have "\<dots> \<longleftrightarrow> dm = am"
      using Map.prems AMap wf_keys_ext by (auto simp: good_map_iff good_body_iff)
    finally show ?thesis using AMap by simp
  qed (use Map.prems walk_lines_atom in auto)
qed (use walk_lines_atom in auto)

lemma change_for_lines:
  assumes "\<And>d. dm k = Some d \<Longrightarrow> good_body (Body d)" and "\<And>a. am k = Some a \<Longrightarrow> good_body (Body a)"
    and "change_for e opts dm am k = Some c"
  shows "ChangeAction c = Patch \<longleftrightarrow> AttributeDiff c \<noteq> []"
proof (cases "\<exists>d a. dm k = Some d \<and> am k = Some a \<and> \<not> equal_body (Body d) (compared_body opts d a)")
  case True
  then obtain d a where da: "dm k = Some d" "am k = Some a" "\<not> equal_body (Body d) (compared_body opts d a)"
    by blast
  have good: "good_body (Body d)" "good_body (compared_body opts d a)"
    using assms(1,2) da good_compared_body by blast+
  have "c = patch_change e k d a (compared_body opts d a)"
    using assms(3) da by (simp add: change_for_def)
  moreover have "AMap (Body d) \<noteq> AMap (compared_body opts d a)"
    using da(3) equal_body_iff [OF good] by simp
  then have "buildAttributeDiffLines e (AMap (Body d)) (AMap (compared_body opts d a)) \<noteq> []"
    using good walk_lines_empty by (simp add: buildAttributeDiffLines_def good_map_iff)
  ultimately show ?thesis by (simp add: patch_change_def new_change_def Let_def)
next
  case False
  then show ?thesis
    using assms(3) by (auto simp: change_for_def new_change_def split: option.splits if_splits)
qed

text \<open>
  C20. A change is a PATCH exactly when it shows at least one attribute line: a reported patch always
  says what differs, and nothing else does.
\<close>

theorem patch_shows_lines:
  assumes "c \<in> set (fst (Compute e desired actual opts))"
  shows "ChangeAction c = Patch \<longleftrightarrow> AttributeDiff c \<noteq> []"
proof (rule change_for_lines)
  show "change_for e opts (chosen e opts desired) (chosen e opts actual) (ChangeID c) = Some c"
    using assms by (simp add: Compute_mem)
qed (use good_chosen in blast)+

section \<open>Ignored and server-managed fields\<close>

fun lookup_path :: "string list \<Rightarrow> (string \<times> any) list \<Rightarrow> any option" where
  "lookup_path [] obj = Some (AMap obj)"
| "lookup_path [p] obj = map_of obj p"
| "lookup_path (p # q # ps) obj =
     (case map_of obj p of Some (AMap nxt) \<Rightarrow> lookup_path (q # ps) nxt | _ \<Rightarrow> None)"

lemma map_of_at: "at_key m k = AMap n \<Longrightarrow> map_of m k = Some (AMap n)"
  by (simp add: at_key_def split: option.splits)

lemma delete_parts_gone: "ps \<noteq> [] \<Longrightarrow> lookup_path ps (delete_parts ps obj) = None"
proof (induction ps obj rule: delete_parts.induct)
  case (3 p q ps obj)
  show ?case
  proof (cases "at_key obj p")
    case (AMap nxt)
    then show ?thesis using 3 by simp
  qed (auto simp: at_key_def split: option.splits any.splits)
qed auto

lemma lookup_delete_parts:
  "lookup_path qs obj = None \<Longrightarrow> lookup_path qs (delete_parts ps obj) = None"
proof (induction ps obj arbitrary: qs rule: delete_parts.induct)
  case (2 p obj)
  then show ?case by (cases "(qs, obj)" rule: lookup_path.cases) (auto split: option.splits any.splits)
next
  case (3 p q ps obj)
  show ?case
  proof (cases "at_key obj p")
    case (AMap nxt)
    show ?thesis
    proof (cases qs rule: list.exhaust [case_names Nil Cons])
      case (Cons a as)
      then show ?thesis
        using 3 AMap map_of_at [OF AMap] by (cases as) (auto split: if_splits option.splits any.splits)
    qed (use 3 in simp)
  qed (use 3 in auto)
qed simp_all

lemma lookup_deletes:
  "lookup_path qs m = None \<Longrightarrow> lookup_path qs (foldl (\<lambda>cp p. deletePath p cp) m ps) = None"
  by (induction ps arbitrary: m) (simp_all add: deletePath_def lookup_delete_parts)

lemma ignored_gone:
  "p \<in> set ps \<Longrightarrow> lookup_path (split_on (CHR ''.'') p) (foldl (\<lambda>cp p. deletePath p cp) m ps) = None"
proof (induction ps arbitrary: m)
  case (Cons x ps)
  then show ?case
    using lookup_deletes delete_parts_gone by (auto simp: deletePath_def)
qed simp

text \<open>The fields normalisation drops from every resource.\<close>

definition managed_fields :: "string list" where
  "managed_fields = [''managedFields'', ''resourceVersion'', ''uid'', ''creationTimestamp'', ''generation'']"

definition flux_labels :: "string list" where
  "flux_labels = [''kustomize.toolkit.fluxcd.io/name'', ''kustomize.toolkit.fluxcd.io/namespace'']"

definition managed_metadata :: "string list list" where
  "managed_metadata =
     map (\<lambda>k. [k]) managed_fields @ [[''annotations'', last_applied]] @ map (\<lambda>k. [''labels'', k]) flux_labels"

definition managed_paths :: "string list list" where
  "managed_paths = [''status''] # map (\<lambda>ps. ''metadata'' # ps) managed_metadata"

lemma lookup_other: "a \<noteq> k \<Longrightarrow> lookup_path (a # as) (set_key k v m) = lookup_path (a # as) m"
  by (cases as) simp_all

lemma lookup_set: "lookup_path (k # q # qs) (set_key k (AMap n) m) = lookup_path (q # qs) n"
  by simp

lemma lookup_clean_crd: "a \<noteq> ''spec'' \<Longrightarrow> lookup_path (a # as) (clean_crd kind m) = lookup_path (a # as) m"
  by (simp add: clean_crd_def lookup_other Let_def split: any.split)

lemma at_key_map_of: "(\<forall>n. at_key m k \<noteq> AMap n) \<Longrightarrow> map_of m k \<noteq> Some (AMap n)"
  by (auto simp: at_key_def)

lemma annotations_gone: "lookup_path [''annotations'', last_applied] (clean_annotations m) = None"
proof (cases "at_key m ''annotations''")
  case (AMap n)
  then show ?thesis by (simp add: clean_annotations_def Let_def)
qed (auto simp: clean_annotations_def at_key_def split: option.splits any.splits)

lemma labels_gone: "k \<in> set flux_labels \<Longrightarrow> lookup_path [''labels'', k] (clean_labels m) = None"
proof (cases "at_key m ''labels''")
  case (AMap n)
  moreover assume "k \<in> set flux_labels"
  ultimately show ?thesis unfolding flux_labels_def by (auto simp: clean_labels_def)
qed (auto simp: clean_labels_def at_key_def split: option.splits any.splits)

lemma lookup_clean_labels: "a \<noteq> ''labels'' \<Longrightarrow> lookup_path (a # as) (clean_labels m) = lookup_path (a # as) m"
  by (simp add: clean_labels_def lookup_other split: any.split)

lemma cleaned_metadata_gone:
  assumes "k \<noteq> ''annotations''" and "k \<noteq> ''labels''" and "map_of m k = None"
  shows "lookup_path [k] (clean_labels (clean_annotations m)) = None"
proof -
  have "lookup_path [k] (clean_annotations m) = None"
    using assms by (simp add: clean_annotations_def Let_def split: any.split)
  then show ?thesis using lookup_clean_labels [OF assms(2)] by metis
qed

lemma managed_metadata_cases:
  assumes "ps \<in> set managed_metadata"
  shows "(\<exists>k \<in> set managed_fields. ps = [k]) \<or> ps = [''annotations'', last_applied] \<or>
    (\<exists>k \<in> set flux_labels. ps = [''labels'', k])"
  using assms unfolding managed_metadata_def set_append set_map list.set by blast

lemma managed_field_deleted:
  assumes "k \<in> set managed_fields"
  shows "k \<noteq> ''annotations''" and "k \<noteq> ''labels''"
    and "map_of (del_key ''generation'' (del_key ''creationTimestamp'' (del_key ''uid''
        (del_key ''resourceVersion'' (del_key ''managedFields'' m))))) k = None"
  using assms by (auto simp: managed_fields_def)

lemma managed_metadata_gone:
  assumes "ps \<in> set managed_metadata"
  shows "lookup_path (''metadata'' # ps) (clean_metadata cp) = None"
proof -
  obtain q qs where ps: "ps = q # qs" using managed_metadata_cases [OF assms] by blast
  have meta: "lookup_path ps (clean_labels (clean_annotations
      (del_key ''generation'' (del_key ''creationTimestamp'' (del_key ''uid''
        (del_key ''resourceVersion'' (del_key ''managedFields'' m))))))) = None" for m
  proof -
    consider (top) k where "k \<in> set managed_fields" "ps = [k]"
      | (annotation) "ps = [''annotations'', last_applied]"
      | (label) k where "k \<in> set flux_labels" "ps = [''labels'', k]"
      using managed_metadata_cases [OF assms] by blast
    then show ?thesis
    proof cases
      case top
      show ?thesis unfolding top(2) by (intro cleaned_metadata_gone managed_field_deleted top(1))
    next
      case annotation
      have neq: "''annotations'' \<noteq> ''labels''" by simp
      show ?thesis unfolding annotation lookup_clean_labels [OF neq] by (rule annotations_gone)
    next
      case label
      show ?thesis unfolding label(2) by (rule labels_gone [OF label(1)])
    qed
  qed
  show ?thesis
  proof (cases "\<exists>m. at_key cp ''metadata'' = AMap m")
    case True
    then obtain m where "at_key cp ''metadata'' = AMap m" by blast
    then show ?thesis
      unfolding ps clean_metadata_def Let_def using meta [of m, unfolded ps] by (simp only: any.case lookup_set)
  next
    case False
    then have "clean_metadata cp = cp" by (auto simp: clean_metadata_def split: any.split)
    moreover have "map_of cp ''metadata'' \<noteq> Some (AMap m)" for m
      using False at_key_map_of by metis
    ultimately show ?thesis unfolding ps by (simp split: option.split any.split)
  qed
qed

text \<open>
  C21. A normalised body has none of the fields to ignore: neither the configured paths nor the
  fields the API server and the Flux controllers manage.
\<close>

theorem normalize_drops_ignored:
  assumes "ps \<in> set managed_paths \<union> split_on (CHR ''.'') ` set ignore"
  shows "lookup_path ps (Body (normalize e r ignore)) = None"
proof (cases "ps \<in> set managed_paths")
  case True
  let ?cp = "del_key ''status'' (cleaned (deepCopyMap e (Body r)))"
  have "lookup_path ps (clean_crd (Kind r) (clean_metadata ?cp)) = None"
  proof (cases "ps = [''status'']")
    case True
    have "lookup_path [''status''] (clean_metadata ?cp) = lookup_path [''status''] ?cp"
      by (simp add: clean_metadata_def Let_def split: any.split)
    then show ?thesis using True lookup_clean_crd [of "''status''" "[]"] by simp
  next
    case False
    then obtain qs where "ps = ''metadata'' # qs" "qs \<in> set managed_metadata"
      using True by (auto simp: managed_paths_def)
    then show ?thesis
      using managed_metadata_gone [of qs ?cp] lookup_clean_crd [of "''metadata''" qs]
      by (simp del: lookup_path.simps)
  qed
  then show ?thesis by (simp add: normalize_def Let_def lookup_deletes)
next
  case False
  then show ?thesis using assms ignored_gone by (auto simp: normalize_def Let_def)
qed

section \<open>Examples\<close>

definition sample_diff_env :: diff_env where
  "sample_diff_env = \<lparr>yaml_marshal = (\<lambda>v. Inr (json_text v)), sprint_v = (\<lambda>v. []), float64_text = Some\<rparr>"

definition pod :: "any list \<Rightarrow> (string \<times> any) list \<Rightarrow> Resource" where
  "pod items meta =
     \<lparr>APIVersion = ''v1'', Kind = ''Pod'', Namespace = ''p'', Name = ''w'',
      Body = [(''metadata'', AMap meta), (''spec'', AMap [(''containers'', AList items)])],
      SourcePath = ''w.yaml''\<rparr>"

definition plan_options :: "string list \<Rightarrow> Options" where
  "plan_options ignore = \<lparr>PruneDeletes = True, OptIgnoreFields = ignore, IgnoreActualExtraFields = True\<rparr>"

abbreviation pod_id :: string where "pod_id \<equiv> ''v1|Pod|p|w''"

lemma copy_small:
  assumes "wf_map m" and "jsonable (AMap m)" and "fits (Suc (Suc (Suc (Suc 0)))) (AMap m)"
  shows "deepCopyMap e m = map (\<lambda>(k, v). (k, floats e v)) m"
proof -
  have "fits max_depth (AMap m)" using assms(3) by (intro fits_max) (simp add: eval_nat_numeral)
  from deep_copy_eq [OF assms(1) this] show ?thesis using assms(2) by simp
qed

lemmas eval_plan =
  action_for_def agrees_def chosen_def plan_options_def pod_def ID_def normalize_def
  copy_small wf_map_def less_char_def cleaned_def del_key_def clean_metadata_def clean_annotations_def clean_labels_def
  clean_crd_def at_key_def deletePath_def last_applied_def Let_def

theorem compute_actions_witness:
  "\<exists>c \<in> set (fst (Compute sample_diff_env [pod [AStr ''a''] []] [pod [AStr ''b''] []] (plan_options []))).
     ChangeID c = pod_id \<and> ChangeAction c = Patch"
proof -
  have "action_for (plan_options []) (chosen sample_diff_env (plan_options []) [pod [AStr ''a''] []] pod_id)
      (chosen sample_diff_env (plan_options []) [pod [AStr ''b''] []] pod_id) = Some Patch"
    by (simp add: eval_plan)
  then show ?thesis using compute_actions by blast
qed

theorem self_diff_noop_witness:
  "list_all (\<lambda>c. ChangeAction c = NoOp)
     (fst (Compute sample_diff_env [pod [AStr ''a''] []] [pod [AStr ''a''] []] (plan_options [])))"
  unfolding list_all_iff using self_diff_noop by blast

theorem patch_shows_lines_witness:
  "list_all (\<lambda>c. ChangeAction c = Patch \<longleftrightarrow> AttributeDiff c \<noteq> [])
     (fst (Compute sample_diff_env [pod [AStr ''a''] []] [pod [AStr ''b''] []] (plan_options [])))"
  unfolding list_all_iff using patch_shows_lines by blast

theorem normalize_drops_ignored_witness:
  "lookup_path [''spec'', ''containers'']
     (Body (normalize sample_diff_env (pod [AStr ''a''] []) [''spec.containers''])) = None"
  by (rule normalize_drops_ignored) (simp add: managed_paths_def)

text \<open>
  A replica count of 2^53 + 1 is copied as 2^53, the nearest \<^verbatim>\<open>float64\<close>, next to a string of the same
  digits, which is kept.
\<close>

definition rounding_env :: diff_env where
  "rounding_env = sample_diff_env\<lparr>float64_text :=
     (\<lambda>t. Some (if t = ''9007199254740993'' then ''9007199254740992'' else t))\<rparr>"

lemma rounding_nums: "num_text ''9007199254740993''" "num_text ''9007199254740992''"
  by code_simp+

theorem deep_copy_floats_witness:
  "deepCopyMap rounding_env
     [(''name'', AStr ''9007199254740993''), (''spec'', AMap [(''n'', ANum ''9007199254740993'')])]
   = [(''name'', AStr ''9007199254740993''), (''spec'', AMap [(''n'', ANum ''9007199254740992'')])]"
proof -
  let ?m = "[(''name'', AStr ''9007199254740993''), (''spec'', AMap [(''n'', ANum ''9007199254740993'')])]"
  have "wf_map ?m" using rounding_nums by (simp add: wf_map_def less_char_def)
  moreover have "fits max_depth (AMap ?m)" by (rule fits_max) (simp add: eval_nat_numeral)
  ultimately show ?thesis
    using deep_copy_floats [of ?m rounding_env] rounding_nums
    by (simp add: float64_def rounding_env_def)
qed

text \<open>
  Numbers are compared after they were rounded: a desired and a live resource of one kind whose bodies
  differ only in numbers with the same nearest \<^verbatim>\<open>float64\<close> are reported as NO-OP.
\<close>

theorem rounded_numbers_are_noop:
  assumes "list_all (\<lambda>r. wf_map (Body r) \<and> jsonable (AMap (Body r)) \<and> fits max_depth (AMap (Body r))) [d, a]"
    and "floats e (AMap (Body d)) = floats e (AMap (Body a))" and "ID d = ID a" and "Kind d = Kind a"
  shows "\<exists>c \<in> set (fst (Compute e [d] [a] opts)). ChangeID c = ID d \<and> ChangeAction c = NoOp"
proof -
  have "AMap (deepCopyMap e (Body d)) = AMap (deepCopyMap e (Body a))"
    using assms(1,2) deep_copy_eq [of "Body d" e] deep_copy_eq [of "Body a" e] by simp
  then have same: "Body (normalize e d ig) = Body (normalize e a ig)" for ig
    using assms(4) by (simp add: normalize_def Let_def)
  have "good_any (AMap (Body (normalize e a ig)))" for ig
    using good_normalize by (simp add: good_map_iff)
  then have "agrees opts (normalize e d ig) (normalize e a ig)" for ig
    using covers_refl by (simp add: agrees_def same del: covers.simps)
  then show ?thesis
    unfolding Compute_action using assms(3) by (simp add: action_for_def chosen_def)
qed

theorem rounded_numbers_are_noop_witness:
  "\<exists>c \<in> set (fst (Compute rounding_env [pod [ANum ''9007199254740993''] []] [pod [ANum ''9007199254740992''] []] (plan_options []))).
     ChangeID c = pod_id \<and> ChangeAction c = NoOp"
proof -
  have ids: "ID (pod xs ms) = pod_id" "Kind (pod xs ms) = ''Pod''" for xs ms by (simp_all add: pod_def ID_def)
  have "fits max_depth (AMap (Body (pod [ANum t] [])))" for t by (rule fits_max) (simp add: pod_def eval_nat_numeral)
  then have "list_all (\<lambda>r. wf_map (Body r) \<and> jsonable (AMap (Body r)) \<and> fits max_depth (AMap (Body r)))
      [pod [ANum ''9007199254740993''] [], pod [ANum ''9007199254740992''] []]"
    using rounding_nums by (simp add: pod_def wf_map_def less_char_def)
  moreover have "floats rounding_env (AMap (Body (pod [ANum ''9007199254740993''] []))) =
      floats rounding_env (AMap (Body (pod [ANum ''9007199254740992''] [])))"
    by (simp add: pod_def float64_def rounding_env_def)
  ultimately show ?thesis
    using rounded_numbers_are_noop [of "pod [ANum ''9007199254740993''] []" "pod [ANum ''9007199254740992''] []" rounding_env]
      ids by simp
qed

text \<open>
  Elements at the end of a live list that the desired list does not have are dropped before the
  comparison: a desired list that is a proper prefix of the live one counts as equal to it, so
  removing the last container of a pod is reported as NO-OP.
\<close>

theorem removed_tail_is_noop:
  assumes "good_any (AList ds)"
  shows "projectActualToDesired (AList ds) (AList (ds @ xs)) = AList ds \<and>
    (\<exists>c \<in> set (fst (Compute e [pod [AStr ''a''] []] [pod [AStr ''a'', AStr ''b''] []] (plan_options []))).
       ChangeID c = pod_id \<and> ChangeAction c = NoOp)"
proof (rule conjI)
  have "covers (snd p) ((ds @ xs) ! fst p) \<and> fst p < length (ds @ xs)" if "p \<in> set (List.enumerate 0 ds)" for p
  proof -
    have "fst p < length ds" and "ds ! fst p = snd p" using that by (auto simp: in_set_enumerate_eq)
    moreover have "covers (snd p) (snd p)"
      using enumerate_mem [OF that] assms by (intro covers_refl) (simp add: good_list_iff)
    ultimately show ?thesis by (simp add: nth_append)
  qed
  then have "covers (AList ds) (AList (ds @ xs))" by (fastforce simp: list_all_iff)
  then show "projectActualToDesired (AList ds) (AList (ds @ xs)) = AList ds" by (simp only: project_eq_iff)
  show "\<exists>c \<in> set (fst (Compute e [pod [AStr ''a''] []] [pod [AStr ''a'', AStr ''b''] []] (plan_options []))).
       ChangeID c = pod_id \<and> ChangeAction c = NoOp"
    unfolding Compute_action by (simp add: eval_plan)
qed

theorem removed_tail_is_noop_witness:
  "projectActualToDesired (AList [ABool True]) (AList ([ABool True] @ [ANil])) = AList [ABool True]"
  using removed_tail_is_noop [of "[ABool True]" "[ANil]"] by (simp add: good_any_def)

text \<open>
  Ignoring the only entry of a map leaves an empty map behind: a desired resource whose only
  annotation is ignored is reported as PATCH against a live resource without annotations.
\<close>

theorem ignored_entry_still_patched:
  "\<exists>c \<in> set (fst (Compute e [pod [] [(''annotations'', AMap [(''x'', ABool True)])]] [pod [] []]
       (plan_options [''metadata.annotations.x'']))).
     ChangeID c = pod_id \<and> ChangeAction c = Patch"
  unfolding Compute_action by (simp add: eval_plan)

end
