(* ===== verification/Cluster_Live.thy ===== *)
theory Cluster_Live
  imports Planner Diff_Spec Go_Env
begin

text \<open>
  \<^verbatim>\<open>internal/orchestrator/cluster_live.go\<close> (build tag \<^verbatim>\<open>live\<close>): reading the live counterparts of the
  desired resources from a Kubernetes cluster, and finding a client for the cluster.

  The Kubernetes client library and the cloud API are the fields of the records \<open>kube\<close> and
  \<open>cloud\<close>; a client is a value of type \<open>'k\<close> the code only passes on. A reply of the API server is
  one of the four outcomes the code tells apart. The mutex makes every access to the client table
  atomic.
\<close>

record live_object =
  objAPIVersion :: string
  objKind :: string
  objNamespace :: string
  objName :: string
  objObject :: "(string \<times> any) list"

datatype get_result = GetFound live_object | GetNotFound | GetForbidden | GetFailed string

text \<open>\<open>RESTMapping\<close> gives the resource of a kind and whether it is namespaced.\<close>

record ('k, 'res) kube =
  ParseGroupVersion :: "string \<Rightarrow> (string \<times> string) option"
  RESTMapping :: "'k \<Rightarrow> string \<Rightarrow> string \<Rightarrow> string \<Rightarrow> ('res \<times> bool) option"
  GetObject :: "'k \<Rightarrow> 'res \<Rightarrow> string option \<Rightarrow> string \<Rightarrow> get_result"

section \<open>Reading the live resources\<close>

text \<open>The namespace a desired resource is looked up in.\<close>

definition lookup_namespace :: "string \<Rightarrow> Resource \<Rightarrow> string" where
  "lookup_namespace namespace d =
     (if Namespace d = [] \<and> namespace \<noteq> [] \<and> namespace \<noteq> ''all'' then namespace else Namespace d)"

definition live_entry :: "('k, 'res) kube \<Rightarrow> 'k \<Rightarrow> string \<Rightarrow> Resource \<Rightarrow> Resource option result" where
  "live_entry K client namespace d =
     (case ParseGroupVersion K (APIVersion d) of
        None \<Rightarrow> Inr None
      | Some (grp, version) \<Rightarrow>
          (case RESTMapping K client grp (Kind d) version of
             None \<Rightarrow> Inr None
           | Some (res, namespaced) \<Rightarrow>
               (let ns = lookup_namespace namespace d
                in if namespaced \<and> (ns = [] \<or> ns = ''all'') then Inr None
                   else (case GetObject K client res (if namespaced then Some ns else None) (Name d) of
                           GetNotFound \<Rightarrow> Inr None
                         | GetForbidden \<Rightarrow>
                             Inr (Some \<lparr>APIVersion = APIVersion d, Kind = Kind d, Namespace = Namespace d,
                                        Name = Name d, Body = Body d, SourcePath = []\<rparr>)
                         | GetFailed e \<Rightarrow> Inl (''get live resource '' @ ID d @ '': '' @ e)
                         | GetFound obj \<Rightarrow>
                             Inr (Some \<lparr>APIVersion = objAPIVersion obj, Kind = objKind obj,
                                        Namespace = objNamespace obj, Name = objName obj,
                                        Body = objObject obj, SourcePath = []\<rparr>)))))"

fun live_entries :: "('k, 'res) kube \<Rightarrow> 'k \<Rightarrow> string \<Rightarrow> Resource list \<Rightarrow> Resource list result" where
  "live_entries K client namespace [] = Inr []"
| "live_entries K client namespace (d # ds) =
     (case live_entry K client namespace d of
        Inl e \<Rightarrow> Inl e
      | Inr None \<Rightarrow> live_entries K client namespace ds
      | Inr (Some r) \<Rightarrow>
          (case live_entries K client namespace ds of Inl e \<Rightarrow> Inl e | Inr rs \<Rightarrow> Inr (r # rs)))"

section \<open>Finding a client\<close>

definition parseCSVSet :: "string \<Rightarrow> string list" where
  "parseCSVSet raw = filter (\<lambda>v. v \<noteq> []) (map TrimSpace (split_on (CHR '','') raw))"

text \<open>This package's \<^verbatim>\<open>getEnv\<close> trims the value.\<close>

definition getEnvTrimmed :: "environ \<Rightarrow> string \<Rightarrow> string \<Rightarrow> string" where
  "getEnvTrimmed env key fallback = (if TrimSpace (env key) \<noteq> [] then TrimSpace (env key) else fallback)"

record 'k LiveClusterReader =
  liveClients :: "string \<rightharpoonup> 'k"
  localClusterRefs :: "string list"
  kubeconfigDir :: string

datatype stat_result = StatOk | StatNotExist | StatFailed string

text \<open>A cluster of the cloud API: its name, its endpoint and its certificate in base64.\<close>

record gke_cluster =
  clusterName :: string
  clusterEndpoint :: string
  clusterCA :: string

record ('k, 'conf) cloud =
  FindDefaultCredentials :: "string option"
  NewService :: "string option"
  StatFile :: "string \<Rightarrow> stat_result"
  BuildConfigFromFlags :: "string \<Rightarrow> 'conf result"
  InClusterConfig :: "'conf result"
  ListClusters :: "string \<Rightarrow> gke_cluster list result"
  GKEConfig :: "string \<Rightarrow> string \<Rightarrow> 'conf"
  NewDynamicClient :: "'conf \<Rightarrow> string option"
  NewDiscoveryClient :: "'conf \<Rightarrow> string option"
  MakeClient :: "'conf \<Rightarrow> 'k"

definition NewLiveClusterReader :: "('k, 'conf) cloud \<Rightarrow> environ \<Rightarrow> 'k LiveClusterReader result" where
  "NewLiveClusterReader C env =
     (case FindDefaultCredentials C of
        Some e \<Rightarrow> Inl (''gcp credentials: '' @ e)
      | None \<Rightarrow>
          (case NewService C of
             Some e \<Rightarrow> Inl (''container api client: '' @ e)
           | None \<Rightarrow>
               Inr \<lparr>liveClients = Map.empty,
                    localClusterRefs = parseCSVSet (getEnvTrimmed env ''THULE_LOCAL_CLUSTER_REFS'' ''b14,cadmus''),
                    kubeconfigDir = TrimSpace (env ''THULE_KUBECONFIG_DIR'')\<rparr>))"

definition newLiveClient :: "('k, 'conf) cloud \<Rightarrow> 'conf \<Rightarrow> string \<Rightarrow> 'k result" where
  "newLiveClient C conf ref =
     (case NewDynamicClient C conf of
        Some e \<Rightarrow> Inl (''dynamic client for '' @ ref @ '': '' @ e)
      | None \<Rightarrow>
          (case NewDiscoveryClient C conf of
             Some e \<Rightarrow> Inl (''discovery client for '' @ ref @ '': '' @ e)
           | None \<Rightarrow> Inr (MakeClient C conf)))"

definition clientFromInCluster :: "('k, 'conf) cloud \<Rightarrow> 'k result" where
  "clientFromInCluster C =
     (case InClusterConfig C of
        Inl e \<Rightarrow> Inl (''in-cluster config: '' @ e)
      | Inr conf \<Rightarrow> newLiveClient C conf ''in-cluster'')"

definition clientFromKubeconfig :: "('k, 'conf) cloud \<Rightarrow> string \<Rightarrow> string \<Rightarrow> 'k option result" where
  "clientFromKubeconfig C dir clusterRef =
     (if dir = [] then Inr None
      else
        (let path = Join [dir, clusterRef @ ''.conf'']
         in (case StatFile C path of
               StatNotExist \<Rightarrow> Inr None
             | StatFailed e \<Rightarrow> Inl (''stat kubeconfig '' @ path @ '': '' @ e)
             | StatOk \<Rightarrow>
                 (case BuildConfigFromFlags C path of
                    Inl e \<Rightarrow> Inl (''load kubeconfig '' @ path @ '': '' @ e)
                  | Inr conf \<Rightarrow> map_sum (\<lambda>e. e) Some (newLiveClient C conf path)))))"

definition resolveCluster :: "('k, 'conf) cloud \<Rightarrow> string \<Rightarrow> string \<Rightarrow> gke_cluster result" where
  "resolveCluster C projectID clusterRef =
     (case ListClusters C (''projects/'' @ projectID @ ''/locations/-'') of
        Inl e \<Rightarrow> Inl (''list clusters in project '' @ projectID @ '': '' @ e)
      | Inr cs \<Rightarrow>
          (case List.find (\<lambda>c. clusterName c = clusterRef) cs of
             Some c \<Rightarrow> Inr c
           | None \<Rightarrow> Inl (''cluster '' @ quoted clusterRef @ '' not found in project '' @ quoted projectID)))"

text \<open>\<^verbatim>\<open>base64.StdEncoding.DecodeString\<close>: line breaks are skipped, padding ends the text.\<close>

definition b64_val :: "char \<Rightarrow> nat option" where
  "b64_val c =
     (if CHR ''A'' \<le> c \<and> c \<le> CHR ''Z'' then Some (of_char c - 65)
      else if CHR ''a'' \<le> c \<and> c \<le> CHR ''z'' then Some (of_char c - 71)
      else if is_digit c then Some (of_char c + 4)
      else if c = CHR ''+'' then Some 62
      else if c = CHR ''/'' then Some 63
      else None)"

fun b64_groups :: "string \<Rightarrow> string option" where
  "b64_groups (a # b # c # d # r) =
     (case (b64_val a, b64_val b, b64_val c, b64_val d) of
        (Some w, Some x, Some y, Some z) \<Rightarrow>
          map_option (\<lambda>s. char_of (4 * w + x div 16) # char_of (16 * (x mod 16) + y div 4) #
                          char_of (64 * (y mod 4) + z) # s) (b64_groups r)
      | (Some w, Some x, Some y, None) \<Rightarrow>
          (if d = CHR ''='' \<and> r = []
           then Some [char_of (4 * w + x div 16), char_of (16 * (x mod 16) + y div 4)] else None)
      | (Some w, Some x, None, None) \<Rightarrow>
          (if c = CHR ''='' \<and> d = CHR ''='' \<and> r = [] then Some [char_of (4 * w + x div 16)] else None)
      | _ \<Rightarrow> None)"
| "b64_groups [] = Some []"
| "b64_groups _ = None"

definition b64_decode :: "string \<Rightarrow> string option" where
  "b64_decode s = b64_groups (filter (\<lambda>c. c \<noteq> nl \<and> c \<noteq> CHR 0x0D) s)"

text \<open>A client that was made is kept; the three ways of making one are tried in order.\<close>

definition make_client :: "('k, 'conf) cloud \<Rightarrow> 'k LiveClusterReader \<Rightarrow> string \<Rightarrow> string \<Rightarrow> 'k result" where
  "make_client C l projectID clusterRef =
     (case clientFromKubeconfig C (kubeconfigDir l) clusterRef of
        Inl e \<Rightarrow> Inl e
      | Inr (Some c) \<Rightarrow> Inr c
      | Inr None \<Rightarrow>
          (if clusterRef \<in> set (localClusterRefs l) then clientFromInCluster C
           else
             (case resolveCluster C projectID clusterRef of
                Inl e \<Rightarrow> Inl e
              | Inr cluster \<Rightarrow>
                  (case b64_decode (clusterCA cluster) of
                     None \<Rightarrow> Inl (''decode cluster CA for '' @ projectID @ ''/'' @ clusterRef)
                   | Some ca \<Rightarrow>
                       newLiveClient C (GKEConfig C (''https://'' @ clusterEndpoint cluster) ca)
                         (projectID @ ''/'' @ clusterRef)))))"

definition getClient ::
  "('k, 'conf) cloud \<Rightarrow> string \<Rightarrow> string \<Rightarrow> 'k LiveClusterReader \<Rightarrow> 'k result \<times> 'k LiveClusterReader" where
  "getClient C projectID clusterRef l =
     (let key = projectID @ ''/'' @ clusterRef
      in (case liveClients l key of
            Some c \<Rightarrow> (Inr c, l)
          | None \<Rightarrow>
              (case make_client C l projectID clusterRef of
                 Inl e \<Rightarrow> (Inl e, l)
               | Inr c \<Rightarrow> (Inr c, l\<lparr>liveClients := (liveClients l)(key \<mapsto> c)\<rparr>))))"

definition LiveListResources :: "string \<Rightarrow> string \<Rightarrow> Resource list result" where
  "LiveListResources clusterRef namespace = Inr []"

definition ListResourcesWithProject ::
  "('k, 'conf) cloud \<Rightarrow> ('k, 'res) kube \<Rightarrow> string \<Rightarrow> string \<Rightarrow> string \<Rightarrow> Resource list \<Rightarrow> 'k LiveClusterReader \<Rightarrow>
   Resource list result \<times> 'k LiveClusterReader" where
  "ListResourcesWithProject C K projectID clusterRef namespace desired l =
     (case getClient C projectID clusterRef l of
        (Inl e, l') \<Rightarrow> (Inl e, l')
      | (Inr client, l') \<Rightarrow> (live_entries K client namespace desired, l'))"

section \<open>Clients are kept\<close>

lemma getClient_cached:
  assumes "getClient C p r l = (Inr c, l')"
  shows "getClient C' p r l' = (Inr c, l')"
  using assms by (auto simp: getClient_def Let_def split: option.splits sum.splits)

lemma b64_decode_example: "b64_decode ''TWFu'' = Some ''Man''" "b64_decode ''TWE='' = Some ''Ma''"
  "b64_decode ''TQ=='' = Some ''M''"
  by code_simp+

section \<open>What the plan is compared with\<close>

lemma live_entries_mem:
  "live_entries K client namespace ds = Inr rs \<Longrightarrow>
     r \<in> set rs \<longleftrightarrow> (\<exists>d \<in> set ds. live_entry K client namespace d = Inr (Some r))"
proof (induction ds arbitrary: rs)
  case (Cons d ds)
  then show ?case by (auto split: sum.splits option.splits)
qed simp

text \<open>
  What the code relies on of the API server: an object that is found has the kind and name that were
  asked for, lies in the namespace it was looked up in, and spells its group and version the usual way.
  A manifest may spell them differently: the library reads \<^verbatim>\<open>/v1\<close> like \<^verbatim>\<open>v1\<close>.
\<close>

definition gv_text :: "string \<Rightarrow> string \<Rightarrow> string" where
  "gv_text grp version = (if grp = [] then version else grp @ ''/'' @ version)"

definition honest :: "('k, 'res) kube \<Rightarrow> 'k \<Rightarrow> bool" where
  "honest K client \<longleftrightarrow>
     (\<forall>apiVersion grp version kind res namespaced ns name obj.
        ParseGroupVersion K apiVersion = Some (grp, version) \<longrightarrow>
        RESTMapping K client grp kind version = Some (res, namespaced) \<longrightarrow>
        GetObject K client res (if namespaced then Some ns else None) name = GetFound obj \<longrightarrow>
        objAPIVersion obj = gv_text grp version \<and> objKind obj = kind \<and> objName obj = name \<and>
        objNamespace obj = (if namespaced then ns else []))"

text \<open>How the API server knows the kind of a resource, if it does.\<close>

definition mapping_of :: "('k, 'res) kube \<Rightarrow> 'k \<Rightarrow> Resource \<Rightarrow> ('res \<times> bool) option" where
  "mapping_of K client d =
     (case ParseGroupVersion K (APIVersion d) of
        None \<Rightarrow> None
      | Some (grp, version) \<Rightarrow> RESTMapping K client grp (Kind d) version)"

text \<open>A resource whose \<^verbatim>\<open>apiVersion\<close> is spelled the usual way.\<close>

definition spelled :: "('k, 'res) kube \<Rightarrow> Resource \<Rightarrow> bool" where
  "spelled K d \<longleftrightarrow>
     (case ParseGroupVersion K (APIVersion d) of
        None \<Rightarrow> True
      | Some (grp, version) \<Rightarrow> APIVersion d = gv_text grp version)"

text \<open>Such a resource that also names a namespace exactly when its kind is namespaced.\<close>

definition placed :: "('k, 'res) kube \<Rightarrow> 'k \<Rightarrow> Resource \<Rightarrow> bool" where
  "placed K client d \<longleftrightarrow> spelled K d \<and>
     (case mapping_of K client d of None \<Rightarrow> True | Some (res, namespaced) \<Rightarrow> (Namespace d \<noteq> []) = namespaced)"

lemma live_entry_found:
  assumes "honest K client" and "spelled K d" and "mapping_of K client d = Some (res, namespaced)"
    and "GetObject K client res (if namespaced then Some ns else None) (Name d) = GetFound obj"
  shows "objAPIVersion obj = APIVersion d \<and> objKind obj = Kind d \<and> objName obj = Name d \<and>
    objNamespace obj = (if namespaced then ns else [])"
  using assms(2-4) assms(1) [unfolded honest_def, rule_format, of "APIVersion d"]
  by (auto simp: mapping_of_def spelled_def split: option.splits)

lemma live_entry_mapped:
  assumes "live_entry K client namespace d = Inr (Some r)"
  obtains res namespaced where "mapping_of K client d = Some (res, namespaced)"
    "namespaced \<Longrightarrow> lookup_namespace namespace d \<notin> {[], ''all''}"
proof -
  obtain gv where gv: "ParseGroupVersion K (APIVersion d) = Some gv"
    using assms by (cases "ParseGroupVersion K (APIVersion d)") (simp_all add: live_entry_def)
  obtain m where m: "RESTMapping K client (fst gv) (Kind d) (snd gv) = Some m"
    using assms gv by (cases "RESTMapping K client (fst gv) (Kind d) (snd gv)") (simp_all add: live_entry_def case_prod_beta)
  have "mapping_of K client d = Some (fst m, snd m)" using gv m by (simp add: mapping_of_def case_prod_beta)
  moreover have "snd m \<Longrightarrow> lookup_namespace namespace d \<notin> {[], ''all''}"
    using assms gv m by (auto simp: live_entry_def case_prod_beta Let_def split: if_splits)
  ultimately show ?thesis using that by blast
qed

lemma live_entry_eq:
  assumes "mapping_of K client d = Some (res, namespaced)" and "namespaced \<Longrightarrow> lookup_namespace namespace d \<notin> {[], ''all''}"
  shows "live_entry K client namespace d =
    (case GetObject K client res (if namespaced then Some (lookup_namespace namespace d) else None) (Name d) of
       GetNotFound \<Rightarrow> Inr None
     | GetForbidden \<Rightarrow> Inr (Some (d\<lparr>SourcePath := []\<rparr>))
     | GetFailed e \<Rightarrow> Inl (''get live resource '' @ ID d @ '': '' @ e)
     | GetFound obj \<Rightarrow> Inr (Some \<lparr>APIVersion = objAPIVersion obj, Kind = objKind obj, Namespace = objNamespace obj,
         Name = objName obj, Body = objObject obj, SourcePath = []\<rparr>))"
proof -
  obtain gv where gv: "ParseGroupVersion K (APIVersion d) = Some gv"
      "RESTMapping K client (fst gv) (Kind d) (snd gv) = Some (res, namespaced)"
    using assms(1) by (auto simp: mapping_of_def split: option.splits)
  show ?thesis
    using gv assms(2)
    by (cases d) (auto simp: live_entry_def case_prod_beta Let_def split: get_result.split)
qed

lemma ID_source: "ID (r\<lparr>SourcePath := p\<rparr>) = ID r"
  by (simp add: ID_def)

text \<open>
  A live entry is either the copy of a manifest the reader may not see the counterpart of, or an object
  found where the manifest was looked up.
\<close>

lemma live_entry_cases:
  assumes "honest K client" and "spelled K d" and "live_entry K client namespace d = Inr (Some r)"
  obtains (forbidden) res namespaced where "mapping_of K client d = Some (res, namespaced)"
      "GetObject K client res (if namespaced then Some (lookup_namespace namespace d) else None) (Name d) = GetForbidden"
      "r = d\<lparr>SourcePath := []\<rparr>"
    | (found) res namespaced body where "mapping_of K client d = Some (res, namespaced)"
      "namespaced \<Longrightarrow> lookup_namespace namespace d \<notin> {[], ''all''}"
      "r = d\<lparr>Namespace := (if namespaced then lookup_namespace namespace d else []), Body := body, SourcePath := []\<rparr>"
proof -
  obtain res namespaced where m: "mapping_of K client d = Some (res, namespaced)"
    and ok: "namespaced \<Longrightarrow> lookup_namespace namespace d \<notin> {[], ''all''}"
    using live_entry_mapped [OF assms(3)] by blast
  show ?thesis
  proof (cases "GetObject K client res (if namespaced then Some (lookup_namespace namespace d) else None) (Name d)")
    case (GetFound obj)
    then show ?thesis
      using found [OF m ok] live_entry_found [OF assms(1,2) m GetFound] assms(3) live_entry_eq [OF m ok]
      by (cases d) auto
  qed (use forbidden [OF m] assms(3) live_entry_eq [OF m ok] in auto)
qed

lemma live_entry_ID:
  assumes "honest K client" and "placed K client d" and "live_entry K client namespace d = Inr (Some r)"
  shows "ID r = ID d"
proof -
  have sp: "spelled K d" using assms(2) by (simp add: placed_def)
  show ?thesis
    using assms(1) sp assms(3)
  proof (cases rule: live_entry_cases)
    case (found res namespaced body)
    have "(Namespace d \<noteq> []) = namespaced" using assms(2) found(1) by (simp add: placed_def)
    then show ?thesis using found(3) by (auto simp: ID_def lookup_namespace_def)
  qed (simp add: ID_def)
qed

lemma action_for_delete: "action_for opts d a = Some Delete \<longleftrightarrow> d = None \<and> a \<noteq> None \<and> PruneDeletes opts"
  by (cases d; cases a) (simp_all add: action_for_def)

text \<open>
  C35. With the live cluster reader, a plan proposes DELETE only for the live counterpart of one of its
  own manifests, and only when that manifest is not placed: its namespace is given for a cluster-wide
  kind or left out for a namespaced one, or its \<^verbatim>\<open>apiVersion\<close> is spelled unusually. When all manifests
  are placed there is no DELETE at all, pruning or not, and an object whose manifest was removed is
  never proposed for deletion.
\<close>

theorem live_plan_deletions:
  assumes "honest K client" and "live_entries K client namespace desired = Inr actual"
    and "ch \<in> set (fst (Compute e desired actual opts))" and "ChangeAction ch = Delete"
  shows "\<exists>d \<in> set desired. \<not> placed K client d \<and>
    (\<exists>r. live_entry K client namespace d = Inr (Some r) \<and> ID r = ChangeID ch)"
proof -
  have "action_for opts (chosen e opts desired (ChangeID ch)) (chosen e opts actual (ChangeID ch)) = Some Delete"
    using Compute_action [of e desired actual opts "ChangeID ch" Delete] assms(3,4) by blast
  then have gone: "ChangeID ch \<notin> ID ` set desired" and seen: "ChangeID ch \<in> ID ` set actual"
    unfolding action_for_delete chosen_None by (simp_all only: not_not simp_thms)
  obtain r where r: "r \<in> set actual" "ID r = ChangeID ch" using seen by force
  obtain d where d: "d \<in> set desired" "live_entry K client namespace d = Inr (Some r)"
    using live_entries_mem [OF assms(2)] r(1) by blast
  have "\<not> placed K client d" using live_entry_ID [OF assms(1) _ d(2)] gone r(2) d(1) by (metis imageI)
  then show ?thesis using d r(2) by blast
qed

lemma chosen_unique:
  assumes "r \<in> set rs" and "\<And>r'. r' \<in> set rs \<Longrightarrow> ID r' = ID r \<Longrightarrow> r' = r"
  shows "chosen e opts rs (ID r) = Some (normalize e r (OptIgnoreFields opts))"
proof -
  have "List.find (\<lambda>x. ID x = ID r) (rev rs) \<noteq> None" using assms(1) by (auto simp: find_None_iff)
  then obtain x where "List.find (\<lambda>x. ID x = ID r) (rev rs) = Some x" by blast
  moreover from this have "x \<in> set rs" "ID x = ID r" by (auto simp: find_Some_iff) (metis length_rev nth_mem set_rev)
  ultimately show ?thesis using assms(2) [of x] by (simp add: chosen_def)
qed

lemma normalize_source: "normalize e (r\<lparr>SourcePath := p\<rparr>) ig = (normalize e r ig)\<lparr>SourcePath := p\<rparr>"
  by (simp add: normalize_def Let_def)

text \<open>
  C34. A resource the reader may not see is neutral: when the API server refuses access to it, the
  plan reports NO-OP for it, whatever the cluster holds.
\<close>

theorem forbidden_is_neutral:
  assumes "honest K client" and "list_all (placed K client) desired" and "distinct (map ID desired)"
    and "live_entries K client namespace desired = Inr actual"
    and "d \<in> set desired" and "mapping_of K client d = Some (res, True)" and "Namespace d \<noteq> ''all''"
    and "GetObject K client res (Some (Namespace d)) (Name d) = GetForbidden"
  shows "\<exists>ch \<in> set (fst (Compute e desired actual opts)). ChangeID ch = ID d \<and> ChangeAction ch = NoOp"
proof -
  let ?live = "d\<lparr>SourcePath := []\<rparr>" and ?n = "normalize e d (OptIgnoreFields opts)"
  have pl: "placed K client x" if "x \<in> set desired" for x using assms(2) that by (simp add: list_all_iff)
  have nsd: "Namespace d \<noteq> []" using pl [OF assms(5)] assms(6) by (simp add: placed_def)
  then have ns: "lookup_namespace namespace d = Namespace d" by (simp add: lookup_namespace_def)
  have entry: "live_entry K client namespace d = Inr (Some ?live)"
    using live_entry_eq [OF assms(6)] ns nsd assms(7,8) by simp
  then have "?live \<in> set actual" using live_entries_mem [OF assms(4)] assms(5) by blast
  moreover have "r = ?live" if r: "r \<in> set actual" "ID r = ID ?live" for r
  proof -
    obtain x where x: "x \<in> set desired" "live_entry K client namespace x = Inr (Some r)"
      using live_entries_mem [OF assms(4)] r(1) by blast
    have "ID x = ID d" using live_entry_ID [OF assms(1) pl [OF x(1)] x(2)] r(2) by (simp add: ID_def)
    then have "x = d" using assms(3,5) x(1) by (auto simp: distinct_map dest: inj_onD)
    then show ?thesis using x(2) entry by simp
  qed
  ultimately have "chosen e opts actual (ID ?live) = Some (normalize e ?live (OptIgnoreFields opts))"
    by (rule chosen_unique)
  moreover have "ID ?live = ID d" by (simp add: ID_def)
  ultimately have a: "chosen e opts actual (ID d) = Some (?n\<lparr>SourcePath := []\<rparr>)" by (simp add: normalize_source)
  have b: "chosen e opts desired (ID d) = Some ?n"
    using assms(3,5) by (intro chosen_unique) (auto simp: distinct_map dest: inj_onD)
  have "good_body (Body ?n)" by (rule good_chosen [OF b])
  then have "agrees opts ?n (?n\<lparr>SourcePath := []\<rparr>)"
    using covers_refl by (simp add: agrees_def good_body_def del: covers.simps)
  then have "action_for opts (chosen e opts desired (ID d)) (chosen e opts actual (ID d)) = Some NoOp"
    by (simp add: a b action_for_def)
  then show ?thesis using Compute_action by blast
qed

text \<open>
  C36. A manifest of a namespaced kind that leaves its namespace to the project is not recognised in
  the cluster. Let the object it describes exist in the project's namespace and be readable. Then, in
  a plan with any other manifests, the object is read but under another identifier: the plan says
  CREATE for the manifest, with or without pruning; with pruning it also says DELETE for the object
  itself, unless another manifest names the same object with its namespace. The manifests have
  different identifiers, free of the separator, and usual spellings of \<^verbatim>\<open>apiVersion\<close>.
\<close>

theorem default_namespace_is_not_matched:
  assumes "honest K client" and "list_all (spelled K) desired" and "list_all id_clean desired"
    and "distinct (map ID desired)" and "live_entries K client namespace desired = Inr actual"
    and "d \<in> set desired" and "mapping_of K client d = Some (res, True)" and "Namespace d = []"
    and "namespace \<notin> {[], ''all'', ''_cluster''}" and "CHR ''|'' \<notin> set namespace"
    and "GetObject K client res (Some namespace) (Name d) = GetFound obj"
  shows "let live = d\<lparr>Namespace := namespace, Body := objObject obj, SourcePath := []\<rparr>;
             plan = set (fst (Compute e desired actual opts))
    in live \<in> set actual \<and>
      (\<exists>ch \<in> plan. ChangeID ch = ID d \<and> ChangeAction ch = Create) \<and>
      (PruneDeletes opts \<and> ID live \<notin> ID ` set desired \<longrightarrow>
         (\<exists>ch \<in> plan. ChangeID ch = ID live \<and> ChangeAction ch = Delete))"
proof -
  let ?live = "d\<lparr>Namespace := namespace, Body := objObject obj, SourcePath := []\<rparr>"
  have each: "spelled K x" "id_clean x" if "x \<in> set desired" for x
    using assms(2,3) that by (simp_all add: list_all_iff)
  have ns: "lookup_namespace namespace d = namespace" using assms(8,9) by (simp add: lookup_namespace_def)
  have entry: "live_entry K client namespace d = Inr (Some ?live)"
    using live_entry_eq [OF assms(7), of namespace] live_entry_found [OF assms(1) each(1) [OF assms(6)] assms(7), of namespace obj]
      assms(9,11) ns by (cases d) simp
  then have live: "?live \<in> set actual" using live_entries_mem [OF assms(5)] assms(6) by blast
  have "ID r \<noteq> ID d" if "r \<in> set actual" for r
  proof
    assume same: "ID r = ID d"
    obtain x where x: "x \<in> set desired" "live_entry K client namespace x = Inr (Some r)"
      using live_entries_mem [OF assms(5)] \<open>r \<in> set actual\<close> by blast
    show False
      using assms(1) each(1) [OF x(1)] x(2)
    proof (cases rule: live_entry_cases)
      case (forbidden res' namespaced)
      then have "ID x = ID d" using same by (simp add: ID_source)
      then have "x = d" using assms(4,6) x(1) by (auto simp: distinct_map dest: inj_onD)
      then show False using forbidden(1,2) assms(7,11) ns by simp
    next
      case (found res' namespaced body)
      have "id_clean r" using each(2) [OF x(1)] assms(9,10) found(3) by (auto simp: id_clean_def lookup_namespace_def)
      then have eq: "APIVersion r = APIVersion d" "Kind r = Kind d" "Namespace r = Namespace d"
        using ID_inj [OF _ each(2) [OF assms(6)], of r] same by auto
      have "APIVersion x = APIVersion d" "Kind x = Kind d" using eq(1,2) found(3) by simp_all
      then have "mapping_of K client x = mapping_of K client d" by (simp only: mapping_of_def)
      then show False using found eq(3) assms(7,8) by simp
    qed
  qed
  then have "chosen e opts desired (ID d) \<noteq> None" "chosen e opts actual (ID d) = None"
    using assms(6) unfolding chosen_None by force+
  then have c: "action_for opts (chosen e opts desired (ID d)) (chosen e opts actual (ID d)) = Some Create"
    by (auto simp: action_for_def)
  have x: "action_for opts (chosen e opts desired (ID ?live)) (chosen e opts actual (ID ?live)) = Some Delete"
    if "PruneDeletes opts" "ID ?live \<notin> ID ` set desired"
    using that live unfolding action_for_delete chosen_None by blast
  show ?thesis unfolding Let_def Compute_action using live c x by blast
qed

section \<open>Examples\<close>

text \<open>A cluster that knows pods and holds the given answer for every one of them.\<close>

definition pod_kube :: "(string \<Rightarrow> get_result) \<Rightarrow> (unit, unit) kube" where
  "pod_kube ans =
     \<lparr>ParseGroupVersion = (\<lambda>v. if v = ''v1'' then Some ([], v) else None),
      RESTMapping = (\<lambda>_ grp kind version. if kind = ''Pod'' then Some ((), True) else None),
      GetObject = (\<lambda>_ _ ns name. if name = ''p'' then (case ns of Some n \<Rightarrow> ans n | None \<Rightarrow> GetNotFound) else GetNotFound)\<rparr>"

definition live_pod :: "string \<Rightarrow> live_object" where
  "live_pod ns = \<lparr>objAPIVersion = ''v1'', objKind = ''Pod'', objNamespace = ns, objName = ''p'', objObject = []\<rparr>"

definition bare_pod :: "string \<Rightarrow> Resource" where
  "bare_pod ns = \<lparr>APIVersion = ''v1'', Kind = ''Pod'', Namespace = ns, Name = ''p'', Body = [], SourcePath = ''a.yaml''\<rparr>"

lemma bare_pod_mapping: "mapping_of (pod_kube ans) () (bare_pod ns) = Some ((), True)"
  by (simp add: mapping_of_def pod_kube_def bare_pod_def)

lemma bare_pod_spelled: "spelled (pod_kube ans) (bare_pod ns)"
  by (simp add: spelled_def gv_text_def pod_kube_def bare_pod_def)

lemma bare_pod_placed: "ns \<noteq> [] \<Longrightarrow> placed (pod_kube ans) () (bare_pod ns)"
  using bare_pod_mapping [of ans ns] by (simp add: placed_def bare_pod_spelled) (simp add: bare_pod_def)

lemma forbidden_honest: "honest (pod_kube (\<lambda>_. GetForbidden)) ()"
  by (auto simp: honest_def pod_kube_def gv_text_def split: if_splits)

lemma forbidden_entry: "live_entries (pod_kube (\<lambda>_. GetForbidden)) () ''n'' [bare_pod ''n''] = Inr [(bare_pod ''n'')\<lparr>SourcePath := []\<rparr>]"
  by (simp add: live_entry_def pod_kube_def bare_pod_def lookup_namespace_def)

theorem forbidden_is_neutral_witness:
  "\<exists>ch \<in> set (fst (Compute sample_diff_env [bare_pod ''n''] [(bare_pod ''n'')\<lparr>SourcePath := []\<rparr>] (plan_options []))).
     ChangeID ch = ID (bare_pod ''n'') \<and> ChangeAction ch = NoOp"
proof (rule forbidden_is_neutral [OF forbidden_honest _ _ forbidden_entry _ bare_pod_mapping])
  show "list_all (placed (pod_kube (\<lambda>_. GetForbidden)) ()) [bare_pod ''n'']" by (simp add: bare_pod_placed)
qed (simp_all add: bare_pod_def pod_kube_def)

lemma found_honest: "honest (pod_kube (\<lambda>n. GetFound (live_pod n))) ()"
  by (auto simp: honest_def pod_kube_def live_pod_def gv_text_def split: if_splits)

lemma found_entries:
  "live_entries (pod_kube (\<lambda>n. GetFound (live_pod n))) () ''pay'' [bare_pod ''ops'', bare_pod []]
   = Inr [(bare_pod ''ops'')\<lparr>SourcePath := []\<rparr>, (bare_pod ''pay'')\<lparr>SourcePath := []\<rparr>]"
  by (simp add: live_entry_def pod_kube_def bare_pod_def live_pod_def lookup_namespace_def)

lemma bare_pod_ID: "ID (bare_pod ns) = ''v1|Pod|'' @ (if ns = [] then ''_cluster'' else ns) @ ''|p''"
  by (simp add: ID_def bare_pod_def)

theorem live_plan_deletions_witness:
  "list_all (\<lambda>ch. ChangeAction ch = Delete \<longrightarrow> ChangeID ch = ''v1|Pod|pay|p'')
     (fst (Compute sample_diff_env [bare_pod ''ops'', bare_pod []]
        [(bare_pod ''ops'')\<lparr>SourcePath := []\<rparr>, (bare_pod ''pay'')\<lparr>SourcePath := []\<rparr>] (plan_options [])))"
  unfolding list_all_iff
proof (intro ballI impI)
  fix ch
  assume "ch \<in> set (fst (Compute sample_diff_env [bare_pod ''ops'', bare_pod []]
        [(bare_pod ''ops'')\<lparr>SourcePath := []\<rparr>, (bare_pod ''pay'')\<lparr>SourcePath := []\<rparr>] (plan_options [])))"
    and "ChangeAction ch = Delete"
  from live_plan_deletions [OF found_honest found_entries this]
  obtain d r where "d \<in> {bare_pod ''ops'', bare_pod []}" "\<not> placed (pod_kube (\<lambda>n. GetFound (live_pod n))) () d"
    "live_entry (pod_kube (\<lambda>n. GetFound (live_pod n))) () ''pay'' d = Inr (Some r)" "ID r = ChangeID ch"
    by auto
  then show "ChangeID ch = ''v1|Pod|pay|p''"
    by (auto simp: bare_pod_placed) (auto simp: live_entry_def pod_kube_def bare_pod_def live_pod_def lookup_namespace_def ID_def)
qed

theorem default_namespace_is_not_matched_witness:
  "let plan = set (fst (Compute sample_diff_env [bare_pod ''ops'', bare_pod []]
        [(bare_pod ''ops'')\<lparr>SourcePath := []\<rparr>, (bare_pod ''pay'')\<lparr>SourcePath := []\<rparr>] (plan_options [])))
   in (\<exists>ch \<in> plan. ChangeID ch = ''v1|Pod|_cluster|p'' \<and> ChangeAction ch = Create) \<and>
      (\<exists>ch \<in> plan. ChangeID ch = ''v1|Pod|pay|p'' \<and> ChangeAction ch = Delete)"
proof -
  let ?K = "pod_kube (\<lambda>n. GetFound (live_pod n))" and ?ds = "[bare_pod ''ops'', bare_pod []]"
  have "GetObject ?K () () (Some ''pay'') (Name (bare_pod [])) = GetFound (live_pod ''pay'')"
    by (simp add: pod_kube_def bare_pod_def)
  moreover have "list_all (spelled ?K) ?ds" by (simp add: bare_pod_spelled)
  moreover have "list_all id_clean ?ds" by (simp add: id_clean_def bare_pod_def)
  moreover have "distinct (map ID ?ds)" by (simp add: bare_pod_ID)
  moreover have "Namespace (bare_pod []) = []" by (simp add: bare_pod_def)
  ultimately have "let live = (bare_pod [])\<lparr>Namespace := ''pay'', Body := objObject (live_pod ''pay''), SourcePath := []\<rparr>;
             plan = set (fst (Compute sample_diff_env ?ds
        [(bare_pod ''ops'')\<lparr>SourcePath := []\<rparr>, (bare_pod ''pay'')\<lparr>SourcePath := []\<rparr>] (plan_options [])))
    in live \<in> set [(bare_pod ''ops'')\<lparr>SourcePath := []\<rparr>, (bare_pod ''pay'')\<lparr>SourcePath := []\<rparr>] \<and>
      (\<exists>ch \<in> plan. ChangeID ch = ID (bare_pod []) \<and> ChangeAction ch = Create) \<and>
      (PruneDeletes (plan_options []) \<and> ID live \<notin> ID ` set ?ds \<longrightarrow>
         (\<exists>ch \<in> plan. ChangeID ch = ID live \<and> ChangeAction ch = Delete))"
    by (intro default_namespace_is_not_matched [OF found_honest _ _ _ found_entries _ bare_pod_mapping]) simp_all
  moreover have "ID ((bare_pod [])\<lparr>Namespace := ''pay'', Body := objObject (live_pod ''pay''), SourcePath := []\<rparr>) = ''v1|Pod|pay|p''"
    by (simp add: ID_def bare_pod_def)
  moreover have "PruneDeletes (plan_options [])" by (simp add: plan_options_def)
  ultimately show ?thesis
    unfolding Let_def list.map set_simps image_insert bare_pod_ID by simp
qed

end
