(* ===== verification/Planner_Spec.thy ===== *)
theory Planner_Spec
  imports Planner Diff_Spec
begin

text \<open>
  What planning an event leaves behind: every run it started is settled, the status check and the
  comment tell the outcome, and the plan does not depend on the order in which maps are visited.
\<close>

section \<open>The planner as a client of the run store\<close>

text \<open>No other user of the run store interferes while an event is planned.\<close>

definition alone :: "(nat \<Rightarrow> 'r world) \<Rightarrow> bool" where
  "alone ws \<longleftrightarrow> (\<forall>i r. others (ws i) r = r)"

lemma set_status_runs [simp]: "runsS (set_status p evt st d s) = runsS s"
  by (simp add: set_status_def split: option.split)

lemma set_status_comments [simp]: "commentsS (set_status p evt st d s) = commentsS s"
  by (simp add: set_status_def split: option.split)

lemma complete_run_other [simp]:
  "commentsS (complete_run p t i st e s) = commentsS s" "statusS (complete_run p t i st e s) = statusS s"
  by (simp_all add: complete_run_def split: option.split)

lemma failRuns_other [simp]:
  "commentsS (failRuns p t ids cur e s) = commentsS s" "statusS (failRuns p t ids cur e s) = statusS s"
  by (induction ids arbitrary: s) (simp_all add: failRuns_def)

context run_store
begin

definition run_ops :: "'s RunOps" where
  "run_ops = \<lparr>opStart = start, opComplete = complete, opAddArtifact = artifact, opSetLatestSHA = set_latest,
    opIsStale = stale\<rparr>"

text \<open>
  The runs of the current call: those listed in the loop are new and known to the store, all others
  are as they were.
\<close>

definition tracks :: "'s \<Rightarrow> int list \<Rightarrow> 's \<Rightarrow> bool" where
  "tracks r0 ids r \<longleftrightarrow>
     (\<forall>i \<in> set ids. 0 < i \<and> lookup_run r0 i = None \<and> lookup_run r i \<noteq> None) \<and>
     (\<forall>i. i \<notin> set ids \<longrightarrow> lookup_run r i = lookup_run r0 i)"

text \<open>Every run of the call is in a given state.\<close>

definition settled :: "'s \<Rightarrow> State \<Rightarrow> 's \<Rightarrow> bool" where
  "settled r0 st r \<longleftrightarrow>
     (\<forall>i. lookup_run r i = lookup_run r0 i \<or>
        lookup_run r0 i = None \<and> (\<exists>x. lookup_run r i = Some x \<and> RunState x = st))"

lemma tracks_complete: "tracks r0 ids r \<Longrightarrow> i \<in> set ids \<Longrightarrow> tracks r0 ids (complete now i st e r)"
  by (auto simp: tracks_def complete_run)

lemma settled_if_tracked:
  assumes "tracks r0 ids r" and "\<forall>i \<in> set ids. run_states r i = Some st"
  shows "settled r0 st r"
  using assms by (fastforce simp: tracks_def settled_def run_states_def)

lemma tracks_start:
  assumes "tracks r0 ids r" and "ok r" and "start now mr sha prj r = (x, r')"
  shows "tracks r0 (ids @ [RunID x]) r'"
proof -
  have x: "lookup_run r (RunID x) = None" "lookup_run r' = (lookup_run r)(RunID x \<mapsto> x)" "0 < RunID x"
    using start_run [OF assms(2,3)] by auto
  have "RunID x \<notin> set ids" using assms(1) x(1) by (auto simp: tracks_def)
  then have "lookup_run r0 (RunID x) = None" using assms(1) x(1) by (auto simp: tracks_def)
  then show ?thesis using assms(1) x by (auto simp: tracks_def)
qed

lemma failRuns_states:
  assumes "plannerRuns p = Some run_ops"
  shows "lookup_run (runsS (failRuns p t ids cur e s)) i =
     (if i \<in> set ids \<and> 0 < i \<and> i \<noteq> cur
      then map_option (\<lambda>r. r\<lparr>RunState := StateFailed, RunError := e, UpdatedAt := t\<rparr>) (lookup_run (runsS s) i)
      else lookup_run (runsS s) i)"
proof (induction ids arbitrary: s)
  case (Cons j ids)
  let ?s = "if j \<le> 0 \<or> j = cur then s else Planner.complete_run p t j StateFailed e s"
  have "failRuns p t (j # ids) cur e s = failRuns p t ids cur e ?s" by (simp add: failRuns_def)
  moreover have "lookup_run (runsS ?s) i =
      (if j = i \<and> 0 < j \<and> j \<noteq> cur
       then map_option (\<lambda>r. r\<lparr>RunState := StateFailed, RunError := e, UpdatedAt := t\<rparr>) (lookup_run (runsS s) i)
       else lookup_run (runsS s) i)"
    using assms by (auto simp: Planner.complete_run_def run_ops_def complete_run)
  ultimately show ?case using Cons [of ?s] by (auto simp: option.map_comp comp_def)
qed (simp add: failRuns_def)

lemma fail_plan_settles:
  assumes "plannerRuns p = Some run_ops" and "tracks r0 (runIDs v) (runsS s)"
    and "runID = 0 \<or> runID \<in> set (runIDs v)"
  shows "settled r0 StateFailed (runsS (snd (fail_plan p t evt v runID err s)))"
proof -
  let ?s = "failRuns p t (runIDs v) runID err s"
  let ?f = "map_option (\<lambda>r. r\<lparr>RunState := StateFailed, RunError := err, UpdatedAt := t\<rparr>)"
  have final: "lookup_run (runsS (snd (fail_plan p t evt v runID err s))) i =
      (if 0 < runID \<and> i = runID then ?f (lookup_run (runsS ?s) i) else lookup_run (runsS ?s) i)" for i
    using assms(1)
    by (simp add: fail_plan_def finishWithError_def Planner.complete_run_def run_ops_def complete_run)
  have "settled r0 StateFailed r"
    if "\<And>i. lookup_run r i = (if i \<in> set (runIDs v) then ?f (lookup_run (runsS s) i) else lookup_run (runsS s) i)" for r
  proof (rule settled_if_tracked)
    show "tracks r0 (runIDs v) r" using assms(2) that by (simp add: tracks_def)
    show "\<forall>i \<in> set (runIDs v). run_states r i = Some StateFailed"
      using assms(2) that by (auto simp: tracks_def run_states_def)
  qed
  moreover have "lookup_run (runsS (snd (fail_plan p t evt v runID err s))) i =
      (if i \<in> set (runIDs v) then ?f (lookup_run (runsS s) i) else lookup_run (runsS s) i)" for i
    unfolding final failRuns_states [OF assms(1)] using assms(2,3) by (auto simp: tracks_def)
  ultimately show ?thesis by blast
qed

text \<open>What holds between two projects, with room for \<open>n\<close> more runs.\<close>

definition inv_loop :: "'s \<Rightarrow> MergeRequestEvent \<Rightarrow> nat \<Rightarrow> loop_vars \<Rightarrow> 's \<Rightarrow> bool" where
  "inv_loop r0 evt n v r \<longleftrightarrow>
     tracks r0 (runIDs v) r \<and> ok r \<and> n \<le> avail r \<and> (runIDs v \<noteq> [] \<longrightarrow> planned v) \<and>
     latest r (MergeReqID evt) = HeadSHA evt"

definition iteration_ok ::
  "'s \<Rightarrow> MergeRequestEvent \<Rightarrow> nat \<Rightarrow> loop_vars iteration \<times> ('s, 'c, 't) PState \<Rightarrow> bool" where
  "iteration_ok r0 evt n res =
     (case fst res of
        Stale \<Rightarrow> False
      | Failed err \<Rightarrow> settled r0 StateFailed (runsS (snd res))
      | Next v \<Rightarrow> inv_loop r0 evt n v (runsS (snd res)))"

lemma inv_loop_less: "inv_loop r0 evt (Suc n) v r \<Longrightarrow> inv_loop r0 evt n v r"
  by (simp add: inv_loop_def)

lemma plan_desired_inv:
  assumes ops: "plannerRuns p = Some run_ops" and inv: "inv_loop r0 evt (Suc n) v (runsS s)" and "planned v"
  shows "iteration_ok r0 evt n (plan_desired p w evt c desired v s)"
proof (cases "desired = []")
  case True
  then show ?thesis using inv by (simp add: plan_desired_def iteration_ok_def inv_loop_less)
next
  case False
  obtain x r' where st: "start (wnow w) (MergeReqID evt) (HeadSHA evt) (ConfProject c) (runsS s) = (x, r')"
    by (metis surj_pair)
  define v' where "v' = v\<lparr>runIDs := runIDs v @ [RunID x]\<rparr>"
  define s' where "s' = s\<lparr>runsS := r'\<rparr>"
  have run: "Planner.start_run p (wnow w) evt (ConfProject c) v s = (RunID x, v', s')"
    using ops st by (simp add: Planner.start_run_def run_ops_def v'_def s'_def)
  have tr: "tracks r0 (runIDs v') (runsS s')"
    using tracks_start [OF _ _ st] inv by (simp add: inv_loop_def v'_def s'_def)
  have "ok r' \<and> avail r' = avail (runsS s) - 1" "latest r' = latest (runsS s)"
    using start_ok [OF _ _ st] start_run [OF _ st] inv by (auto simp: inv_loop_def)
  then have inv': "inv_loop r0 evt n v' (runsS s')"
    using tr inv \<open>planned v\<close> by (auto simp: inv_loop_def v'_def s'_def)
  show ?thesis
  proof (cases "live_resources (wcluster w) c desired")
    case (Inl err)
    have "settled r0 StateFailed (runsS (snd (fail_plan p (wnow w) evt v' (RunID x) err s')))"
      using ops tr by (intro fail_plan_settles) (simp_all add: v'_def)
    then show ?thesis using False Inl run by (simp add: plan_desired_def iteration_ok_def fail_plan_def)
  next
    case (Inr actual)
    then show ?thesis
      using False run inv' by (simp add: plan_desired_def iteration_ok_def inv_loop_def)
  qed
qed

lemma plan_project_inv:
  assumes ops: "plannerRuns p = Some run_ops" and inv: "inv_loop r0 evt (Suc n) v (runsS s)"
    and quiet: "\<And>r. others w r = r"
  shows "iteration_ok r0 evt n (plan_project p w evt prj v s)"
proof -
  have fresh: "\<not> stale (MergeReqID evt) (HeadSHA evt) (runsS s)"
    using inv by (simp add: inv_loop_def stale_iff)
  have step: "iteration_ok r0 evt n (fail_plan p (wnow w) evt v1 0 err s)" if "runIDs v1 = runIDs v" for v1 err
    using fail_plan_settles [OF ops, of r0 v1 s 0] inv that
    by (simp add: iteration_ok_def inv_loop_def fail_plan_def)
  have des: "iteration_ok r0 evt n (plan_desired p w evt c d v1 s)"
    if "runIDs v1 = runIDs v" "planned v1" for v1 c d
    using inv that by (intro plan_desired_inv [OF ops]) (auto simp: inv_loop_def)
  show ?thesis
    using ops fresh quiet inv_loop_less [OF inv] step des
    by (auto simp: plan_project_def run_ops_def Let_def iteration_ok_def [of _ _ _ "(Next _, _)"]
        split: sum.splits)
qed

lemma plan_projects_inv:
  assumes "plannerRuns p = Some run_ops" and "alone ws"
    and "inv_loop r0 evt (length prjs + n) v (runsS s)"
  shows "iteration_ok r0 evt n (plan_projects p ws evt i prjs v s)"
  using assms(3)
proof (induction prjs arbitrary: i v s)
  case (Cons prj prjs)
  have step: "iteration_ok r0 evt (length prjs + n) (plan_project p (ws i) evt prj v s)"
    using Cons.prems assms(1,2) by (intro plan_project_inv) (simp_all add: alone_def)
  obtain res s' where pp: "plan_project p (ws i) evt prj v s = (res, s')" by (metis surj_pair)
  show ?case
  proof (cases res)
    case (Next v')
    then show ?thesis using Cons.IH [of v' s' "Suc i"] step pp by (simp add: iteration_ok_def)
  qed (use step pp in \<open>simp_all add: iteration_ok_def\<close>)
qed (simp add: iteration_ok_def)

lemma finish_run_states:
  "run_states (finish_run run_ops t body cid r i) =
     (if i \<le> 0 then run_states r else (run_states r)(i := map_option (\<lambda>_. StateSuccess) (run_states r i)))"
  by (auto simp: finish_run_def run_ops_def Let_def run_states_def complete_run artifact_run fun_eq_iff
      option.map_comp comp_def)

lemma tracks_states: "tracks r0 ids r \<Longrightarrow> i \<in> set ids \<Longrightarrow> 0 < i \<and> (\<exists>st. run_states r i = Some st)"
  by (auto simp: tracks_def run_states_def)

lemma finish_run_tracks: "tracks r0 ids r \<Longrightarrow> i \<in> set ids \<Longrightarrow> tracks r0 ids (finish_run run_ops t body cid r i)"
  by (auto simp: finish_run_def run_ops_def Let_def tracks_def complete_run artifact_run)

lemma finish_runs_tracks:
  "tracks r0 ids r \<Longrightarrow> set js \<subseteq> set ids \<Longrightarrow> tracks r0 ids (foldl (finish_run run_ops t body cid) r js)"
  by (induction js arbitrary: r) (simp_all add: finish_run_tracks)

lemma finish_runs_states:
  "run_states (foldl (finish_run run_ops t body cid) r ids) i =
     (if i \<in> set ids \<and> 0 < i then map_option (\<lambda>_. StateSuccess) (run_states r i) else run_states r i)"
  by (induction ids arbitrary: r) (auto simp: finish_run_states option.map_comp comp_def)

lemma publish_settles:
  assumes ops: "plannerRuns p = Some run_ops" and inv: "inv_loop r0 evt n v (runsS s)"
  shows "settled r0 StateSuccess (runsS (publish p t evt v s))"
proof -
  obtain cid s' where post: "post_comment p evt (plan_body evt v) s = (cid, s')" by (metis surj_pair)
  have same: "runsS s' = runsS s"
    using post by (auto simp: post_comment_def split: option.splits prod.splits)
  have tr: "tracks r0 (runIDs v) (runsS s)" using inv by (simp add: inv_loop_def)
  show ?thesis
  proof (cases "planned v")
    case True
    have "settled r0 StateSuccess (foldl (finish_run run_ops t (plan_body evt v) cid) (runsS s) (runIDs v))"
      using tr by (intro settled_if_tracked [OF finish_runs_tracks])
        (auto simp: finish_runs_states dest: tracks_states)
    then show ?thesis using True ops post same by (simp add: publish_def)
  next
    case False
    then have "settled r0 StateSuccess (runsS s)"
      using tr inv by (intro settled_if_tracked [OF tr]) (auto simp: inv_loop_def)
    then show ?thesis using False post same by (simp add: publish_def)
  qed
qed

text \<open>The number of projects a plan visits.\<close>

definition visited :: "(string list \<Rightarrow> string list) \<Rightarrow> MergeRequestEvent \<Rightarrow> nat" where
  "visited perm evt = length (DiscoverFromChangedFiles perm (ChangedFiles evt))"

definition after_loop ::
  "(string list \<Rightarrow> string list) \<Rightarrow> ('s, 'c, 't) Planner \<Rightarrow> (nat \<Rightarrow> 's world) \<Rightarrow> MergeRequestEvent \<Rightarrow>
   ('s, 'c, 't) PState \<Rightarrow> loop_vars iteration \<times> ('s, 'c, 't) PState"
where
  "after_loop perm p ws evt s =
     plan_projects p ws evt 0 (sort_key ConfigPath (DiscoverFromChangedFiles perm (ChangedFiles evt)))
       \<lparr>planned = False, projectPlans = [], runIDs = [], maxDetails = 0\<rparr>
       (set_status p evt CheckPending ''Thule plan running''
          (s\<lparr>runsS := set_latest (MergeReqID evt) (HeadSHA evt) (runsS s)\<rparr>))"

lemma after_loop_inv:
  assumes "plannerRuns p = Some run_ops" and "alone ws" and "ok (runsS s)" and "visited perm evt \<le> avail (runsS s)"
  shows "iteration_ok (runsS s) evt 0 (after_loop perm p ws evt s)"
  unfolding after_loop_def
  using assms by (intro plan_projects_inv)
    (simp_all add: inv_loop_def tracks_def set_latest_run latest_set keep_ok keep_avail visited_def)

lemma PlanForEvent_after_loop:
  assumes "plannerRuns p = Some run_ops"
  shows "PlanForEvent perm p ws t evt s =
    (case after_loop perm p ws evt s of
       (Stale, s) \<Rightarrow> (None, s)
     | (Failed err, s) \<Rightarrow> (Some err, s)
     | (Next v, s) \<Rightarrow> (None, set_status p evt CheckSuccess ''Thule plan completed'' (publish p t evt v s)))"
  using assms by (simp add: PlanForEvent_def after_loop_def run_ops_def Let_def)

lemma plan_settles:
  assumes "plannerRuns p = Some run_ops" and "alone ws" and "ok (runsS s)" and "visited perm evt \<le> avail (runsS s)"
    and "PlanForEvent perm p ws t evt s = (err, s')"
  shows "settled (runsS s) (if err = None then StateSuccess else StateFailed) (runsS s')"
proof -
  obtain res s1 where lp: "after_loop perm p ws evt s = (res, s1)" by (metis surj_pair)
  have inv: "iteration_ok (runsS s) evt 0 (res, s1)" using after_loop_inv [OF assms(1-4)] lp by simp
  show ?thesis
  proof (cases res)
    case (Next v)
    then have "settled (runsS s) StateSuccess (runsS (publish p t evt v s1))"
      using publish_settles [OF assms(1)] inv by (simp add: iteration_ok_def)
    then show ?thesis using assms(5) PlanForEvent_after_loop [OF assms(1)] lp Next by auto
  qed (use inv assms(5) PlanForEvent_after_loop [OF assms(1)] lp in \<open>auto simp: iteration_ok_def\<close>)
qed

end

text \<open>The planner of the worker: in-memory run store, and any comment store and status publisher.\<close>

definition mem_run_ops :: "MemoryStore RunOps" where
  "mem_run_ops = \<lparr>opStart = Start, opComplete = Complete, opAddArtifact = AddArtifact,
     opSetLatestSHA = SetLatestSHA, opIsStale = IsStale\<rparr>"

lemma mem_run_ops_eq: "mem_run_ops = mem_runs.run_ops"
  by (simp add: mem_run_ops_def mem_runs.run_ops_def)

text \<open>
  C1. Planning leaves no run open. When nobody else uses the run store meanwhile, every run in the
  store after \<^verbatim>\<open>PlanForEvent\<close> either was there before, unchanged, or was started by this call and is
  settled: successful when no error is returned, failed otherwise.
\<close>

theorem plan_settles_runs:
  assumes "plannerRuns p = Some mem_run_ops" and "alone ws" and "run_inv (runsS s)"
    and "int (length (DiscoverFromChangedFiles perm (ChangedFiles evt))) < 2 ^ 63 - nextRunID (runsS s)"
    and "PlanForEvent perm p ws t evt s = (err, s')"
  shows "runs (runsS s') i = runs (runsS s) i \<or>
    runs (runsS s) i = None \<and>
    (\<exists>r. runs (runsS s') i = Some r \<and> RunState r = (if err = None then StateSuccess else StateFailed))"
proof -
  have "mem_runs.settled (runsS s) (if err = None then StateSuccess else StateFailed) (runsS s')"
    using assms by (intro mem_runs.plan_settles [of p ws s perm evt t err s'])
      (simp_all add: mem_run_ops_eq mem_runs.visited_def free_ids_def)
  then show ?thesis unfolding mem_runs.settled_def by blast
qed

section \<open>What is reported\<close>

lemma fail_plan_comments: "commentsS (snd (fail_plan p t evt v i err s)) = commentsS s"
  by (simp add: fail_plan_def finishWithError_def)

lemma plan_desired_comments: "commentsS (snd (plan_desired p w evt c desired v s)) = commentsS s"
  by (auto simp: plan_desired_def Planner.start_run_def Let_def fail_plan_comments split: option.split sum.split prod.split)

lemma plan_project_comments: "commentsS (snd (plan_project p w evt prj v s)) = commentsS s"
  by (simp add: plan_project_def Let_def plan_desired_comments fail_plan_comments split: option.split sum.split)

lemma plan_projects_comments: "commentsS (snd (plan_projects p ws evt i prjs v s)) = commentsS s"
proof (induction prjs arbitrary: i v s)
  case (Cons prj prjs)
  show ?case
    using Cons plan_project_comments [of p "ws i" evt prj v s]
    by (auto split: prod.split iteration.split)
qed simp

text \<open>An iteration that fails sets the failed status last.\<close>

definition failed_status ::
  "('r, 'c, 's) Planner \<Rightarrow> MergeRequestEvent \<Rightarrow> loop_vars iteration \<times> ('r, 'c, 's) PState \<Rightarrow> bool" where
  "failed_status p evt res =
     (case fst res of Failed err \<Rightarrow> (\<exists>s. snd res = set_status p evt CheckFailed err s) | _ \<Rightarrow> True)"

lemma failed_status_simps [simp]:
  "failed_status p evt (Next v, s)" "failed_status p evt (Stale, s)" "failed_status p evt (fail_plan p t evt v i err s)"
  by (auto simp: failed_status_def fail_plan_def finishWithError_def)

lemma plan_desired_failed: "failed_status p evt (plan_desired p w evt c desired v s)"
  by (auto simp: plan_desired_def Let_def split: sum.split prod.split)

lemma plan_project_failed: "failed_status p evt (plan_project p w evt prj v s)"
  by (simp add: plan_project_def Let_def plan_desired_failed split: option.split sum.split)

lemma plan_projects_failed: "failed_status p evt (plan_projects p ws evt i prjs v s)"
proof (induction prjs arbitrary: i v s)
  case (Cons prj prjs)
  obtain res s' where pp: "plan_project p (ws i) evt prj v s = (res, s')" by (metis surj_pair)
  have "failed_status p evt (res, s')" using plan_project_failed [of p evt "ws i" prj v s] pp by simp
  then show ?case using Cons pp by (cases res) (simp_all add: failed_status_def)
qed simp

lemma publish_comments:
  assumes "plannerComments p = Some op"
  shows "commentsS (publish p t evt v s) = snd (op (MergeReqID evt) (plan_body evt v) (commentsS s))"
  using assms
  by (auto simp: publish_def post_comment_def Let_def split: option.split prod.split)

text \<open>
  The three stores a planner writes to, each known by its contract only. What a plan reports is proved
  once over the contracts.
\<close>

locale planner_parts =
  run_store start complete artifact set_latest stale lookup_run latest ok avail +
  cs: comment_store post list_comments +
  ss: status_publisher publish_status list_statuses
  for start complete artifact set_latest stale lookup_run latest ok avail
    and post :: "int \<Rightarrow> string \<Rightarrow> 'c \<Rightarrow> Comment \<times> 'c" and list_comments
    and publish_status :: "StatusCheck \<Rightarrow> 't \<Rightarrow> 't" and list_statuses
begin

lemma status_after_set:
  assumes "plannerStatus p = Some publish_status"
  shows "ss.current (MergeReqID evt) (HeadSHA evt) (statusS (set_status p evt st d s)) = Some st"
  using assms ss.current_set [of "plan_status evt st d" "statusS s"]
  by (simp add: set_status_def plan_status_def)

lemma plan_reports:
  assumes ops: "plannerRuns p = Some run_ops" and "alone ws" and "ok (runsS s)" and "visited perm evt \<le> avail (runsS s)"
    and com: "plannerComments p = Some post" and sta: "plannerStatus p = Some publish_status"
    and plan: "PlanForEvent perm p ws t evt s = (err, s')"
  shows "ss.current (MergeReqID evt) (HeadSHA evt) (statusS s') = Some (if err = None then CheckSuccess else CheckFailed)"
    and "if err = None
      then \<exists>body. cs.active (MergeReqID evt) (commentsS s') = [fst (post (MergeReqID evt) body (commentsS s))]
      else commentsS s' = commentsS s"
proof -
  obtain res s1 where lp: "after_loop perm p ws evt s = (res, s1)" by (metis surj_pair)
  have inv: "iteration_ok (runsS s) evt 0 (res, s1)" using after_loop_inv [OF assms(1-4)] lp by simp
  have same: "commentsS s1 = commentsS s"
    using arg_cong [OF lp, of "\<lambda>x. commentsS (snd x)"] by (simp add: after_loop_def plan_projects_comments)
  have fin: "(err, s') = (case (res, s1) of (Stale, s) \<Rightarrow> (None, s) | (Failed err, s) \<Rightarrow> (Some err, s)
     | (Next v, s) \<Rightarrow> (None, set_status p evt CheckSuccess ''Thule plan completed'' (publish p t evt v s)))"
    using plan unfolding PlanForEvent_after_loop [OF ops] lp by (rule sym)
  have "ss.current (MergeReqID evt) (HeadSHA evt) (statusS s') = Some (if err = None then CheckSuccess else CheckFailed) \<and>
    (if err = None
     then \<exists>body. cs.active (MergeReqID evt) (commentsS s') = [fst (post (MergeReqID evt) body (commentsS s))]
     else commentsS s' = commentsS s)"
  proof (cases res)
    case Stale
    then show ?thesis using inv by (simp add: iteration_ok_def)
  next
    case (Failed e)
    have "failed_status p evt (res, s1)" unfolding lp [symmetric] after_loop_def by (rule plan_projects_failed)
    then obtain s2 where "s1 = set_status p evt CheckFailed e s2" using Failed by (auto simp: failed_status_def)
    then show ?thesis using fin Failed same status_after_set [OF sta, of evt CheckFailed e s2] by simp
  next
    case (Next v)
    have s': "err = None" "s' = set_status p evt CheckSuccess ''Thule plan completed'' (publish p t evt v s1)"
      using fin Next by auto
    have "commentsS s' = snd (post (MergeReqID evt) (plan_body evt v) (commentsS s))"
      using s' publish_comments [OF com, of t evt v s1] same by simp
    then have "cs.active (MergeReqID evt) (commentsS s') = [fst (post (MergeReqID evt) (plan_body evt v) (commentsS s))]"
      using cs.active_post(1) by (metis prod.collapse)
    then show ?thesis using s' status_after_set [OF sta] by auto
  qed
  then show "ss.current (MergeReqID evt) (HeadSHA evt) (statusS s') = Some (if err = None then CheckSuccess else CheckFailed)"
    and "if err = None
      then \<exists>body. cs.active (MergeReqID evt) (commentsS s') = [fst (post (MergeReqID evt) body (commentsS s))]
      else commentsS s' = commentsS s" by blast+
qed

end

interpretation mem_planner: planner_parts Start Complete AddArtifact SetLatestSHA IsStale runs latestSHA run_inv free_ids
  PostOrSupersede ListComments SetStatus ListStatuses
  by unfold_locales

text \<open>
  C4. The outcome is reported. With in-memory stores and nobody else using the run store, the last
  status of the commit after \<^verbatim>\<open>PlanForEvent\<close> is failed when an error is returned, and then no
  comment was posted; otherwise it is success, and one new comment is the only one in force on the
  merge request.
\<close>

theorem plan_reports_outcome:
  assumes "plannerRuns p = Some mem_run_ops" and "alone ws" and "run_inv (runsS s)"
    and "int (length (DiscoverFromChangedFiles perm (ChangedFiles evt))) < 2 ^ 63 - nextRunID (runsS s)"
    and "plannerComments p = Some PostOrSupersede" and "plannerStatus p = Some SetStatus"
    and "PlanForEvent perm p ws t evt s = (err, s')"
  shows "ListStatuses (MergeReqID evt) (HeadSHA evt) (statusS s') \<noteq> [] \<and>
    StatusState (last (ListStatuses (MergeReqID evt) (HeadSHA evt) (statusS s')))
      = (if err = None then CheckSuccess else CheckFailed) \<and>
    (if err = None then
       \<exists>c. filter (\<lambda>c. \<not> Superseded c) (ListComments (MergeReqID evt) (commentsS s')) = [c] \<and>
         CommentID c = nextID (commentsS s)
     else commentsS s' = commentsS s)"
proof -
  have vis: "mem_runs.visited perm evt \<le> free_ids (runsS s)"
    using assms(4) by (simp add: mem_runs.visited_def free_ids_def)
  note facts = mem_planner.plan_reports [OF assms(1) [unfolded mem_run_ops_eq] assms(2,3) vis assms(5,6,7)]
  have "CommentID (fst (PostOrSupersede mr body (commentsS s))) = nextID (commentsS s)" for mr body
    by (simp add: PostOrSupersede_def Let_def)
  then show ?thesis
    using facts by (auto simp: mem_comments.active_def mem_status.current_def split: if_splits)
qed

section \<open>Order of discovery\<close>

lemma sort_projects_perm:
  assumes "iteration_order perm"
  shows "sort_key ConfigPath (DiscoverFromChangedFiles perm fs) = sort_key ConfigPath (DiscoverFromChangedFiles (\<lambda>x. x) fs)"
proof (rule sort_key_inj_key_eq)
  have ms: "mset (DiscoverFromChangedFiles perm fs) = mset (DiscoverFromChangedFiles (\<lambda>x. x) fs)"
    using assms by (simp add: DiscoverFromChangedFiles_def iteration_order_def)
  then show "mset (DiscoverFromChangedFiles perm fs) = mset (sort_key ConfigPath (DiscoverFromChangedFiles (\<lambda>x. x) fs))"
    by simp
  have "distinct (map ConfigPath (DiscoverFromChangedFiles perm fs))"
    using assms by (simp add: DiscoverFromChangedFiles_def comp_def iteration_order_distinct)
  then show "inj_on ConfigPath (set (DiscoverFromChangedFiles perm fs))"
    by (simp add: distinct_map)
qed simp

text \<open>
  C32. A plan does not depend on the order in which the runtime visits the map of discovered
  projects.
\<close>

theorem plan_order_independent:
  assumes "iteration_order perm"
  shows "PlanForEvent perm p ws t evt s = PlanForEvent (\<lambda>x. x) p ws t evt s"
  unfolding PlanForEvent_def sort_projects_perm [OF assms] ..

section \<open>Pruning\<close>

lemma plan_project_desired:
  assumes "case plannerRuns p of None \<Rightarrow> True | Some ops \<Rightarrow> \<not> opIsStale ops (MergeReqID evt) (HeadSHA evt) (others w (runsS s))"
    and "conf_stat w (Join [repoRoot p, ConfigPath prj])" and "Load (conf_read w) (Join [repoRoot p, ConfigPath prj]) = Inr c"
    and "RenderProject (wfiles w) (Join [repoRoot p, Root prj]) c = Inr rendered"
  shows "\<exists>v1. projectPlans v1 = projectPlans v \<and> plan_project p w evt prj v s =
    plan_desired p w evt c (filterDesiredByChangedFiles rendered (ChangedFiles evt) (repoRoot p)) v1
      (s\<lparr>runsS := others w (runsS s)\<rparr>)"
  using assms unfolding plan_project_def Let_def
  by (intro exI [of _ "if MaxResourceDetails (ConfComment c) > maxDetails v
      then v\<lparr>planned := True, maxDetails := MaxResourceDetails (ConfComment c)\<rparr> else v\<lparr>planned := True\<rparr>"])
    (auto split: option.splits)

lemma plan_desired_plan:
  assumes "desired \<noteq> []" and "live_resources (wcluster w) c desired = Inr actual"
  shows "\<exists>v' s'. plan_desired p w evt c desired v s = (Next v', s') \<and>
    projectPlans v' = projectPlans v @ [project_plan p (wyaml w) c desired actual]"
  using assms by (auto simp: plan_desired_def Planner.start_run_def Let_def split: option.split prod.split)

text \<open>
  C37. The desired resources of a plan are those of the changed files only, but a cluster reader that
  does not know the desired resources lists the whole namespace. Let a project be planned: the commit
  is current, the configuration and the manifests can be read, some desired resource is left after
  the filter, pruning is on and the cluster is read by such a plain reader. Then the plan of the
  project proposes DELETE for every live resource that no changed manifest declares, also when an
  unchanged manifest of the project declares it.
\<close>

theorem untouched_planned_for_deletion:
  assumes "case plannerRuns p of None \<Rightarrow> True | Some ops \<Rightarrow> \<not> opIsStale ops (MergeReqID evt) (HeadSHA evt) (others w (runsS s))"
    and "conf_stat w (Join [repoRoot p, ConfigPath prj])" and "Load (conf_read w) (Join [repoRoot p, ConfigPath prj]) = Inr c"
    and "RenderProject (wfiles w) (Join [repoRoot p, Root prj]) c = Inr rendered"
    and "desired = filterDesiredByChangedFiles rendered (ChangedFiles evt) (repoRoot p)" and "desired \<noteq> []"
    and "wcluster w = PlainReader f" and "f (ClusterRef c) (ConfNamespace c) = Inr actual"
    and "Prune (ConfDiff c)" and "r \<in> set actual" and "ID r \<notin> ID ` set desired"
  shows "\<exists>v' s' pl. plan_project p w evt prj v s = (Next v', s') \<and> projectPlans v' = projectPlans v @ [pl] \<and>
    (\<exists>ch \<in> set (PlanChanges pl). ChangeID ch = ID r \<and> ChangeAction ch = Delete)"
proof -
  let ?e = "wyaml w" and ?o = "diff_options c"
  have "chosen ?e ?o desired (ID r) = None" "chosen ?e ?o actual (ID r) \<noteq> None"
    using assms(10,11) chosen_None by auto
  then have "action_for ?o (chosen ?e ?o desired (ID r)) (chosen ?e ?o actual (ID r)) = Some Delete"
    using assms(9) by (auto simp: action_for_def diff_options_def)
  then have del: "\<exists>ch \<in> set (PlanChanges (project_plan p ?e c desired actual)). ChangeID ch = ID r \<and> ChangeAction ch = Delete"
    using Compute_action [of ?e desired actual ?o "ID r" Delete] by (simp add: project_plan_def case_prod_beta)
  obtain v1 where v1: "projectPlans v1 = projectPlans v"
    "plan_project p w evt prj v s = plan_desired p w evt c desired v1 (s\<lparr>runsS := others w (runsS s)\<rparr>)"
    using plan_project_desired [OF assms(1-4)] assms(5) by blast
  have "live_resources (wcluster w) c desired = Inr actual" using assms(7,8) by (simp add: live_resources_def)
  from plan_desired_plan [OF assms(6) this] v1 del show ?thesis by metis
qed

section \<open>Examples\<close>

text \<open>A repository with a configuration in every directory and one manifest, and an empty cluster.\<close>

definition sample_world :: "(MemoryStore \<Rightarrow> MemoryStore) \<Rightarrow> MemoryStore world" where
  "sample_world f =
     \<lparr>others = f, conf_stat = (\<lambda>_. True), conf_read = (\<lambda>_. Inr (print_config (sample_config\<lparr>ConfRender := (ConfRender sample_config)\<lparr>Path := ''.''\<rparr>\<rparr>))),
      wfiles = sample_env, wcluster = PlainReader (\<lambda>_ _. Inr []), wyaml = sample_diff_env, wnow = 7\<rparr>"

definition sample_planner :: "(MemoryStore, MemoryCommentStore, MemoryStatusPublisher) Planner" where
  "sample_planner =
     \<lparr>repoRoot = ''/r'', plannerComments = Some PostOrSupersede, plannerStatus = Some SetStatus,
      plannerRuns = Some mem_run_ops, policyEval = Some Evaluate\<rparr>"

definition sample_event :: MergeRequestEvent where
  "sample_event =
     \<lparr>DeliveryID = ''d'', EventType = ''merge_request'', Repository = ''g/r'', MergeReqID = 5,
      HeadSHA = ''abc'', BaseRef = ''main'', ChangedFiles = [''m/b.yaml'']\<rparr>"

definition sample_start :: "(MemoryStore, MemoryCommentStore, MemoryStatusPublisher) PState" where
  "sample_start =
     \<lparr>runsS = NewMemoryStore, commentsS = NewMemoryCommentStore, statusS = NewMemoryStatusPublisher\<rparr>"

lemma sample_projects: "DiscoverFromChangedFiles rev (ChangedFiles sample_event) =
   [\<lparr>Root = ''.'', ConfigPath = ''thule.conf''\<rparr>, \<lparr>Root = ''m'', ConfigPath = ''m/thule.conf''\<rparr>]"
  by code_simp

lemma sample_hyps:
  "plannerRuns sample_planner = Some mem_run_ops" "alone (\<lambda>_. sample_world (\<lambda>r. r))" "run_inv (runsS sample_start)"
  "int (length (DiscoverFromChangedFiles rev (ChangedFiles sample_event))) < 2 ^ 63 - nextRunID (runsS sample_start)"
  "plannerComments sample_planner = Some PostOrSupersede" "plannerStatus sample_planner = Some SetStatus"
  unfolding sample_projects
  by (simp_all add: sample_planner_def alone_def sample_world_def sample_start_def run_inv_New)
    (simp add: NewMemoryStore_def)

text \<open>A project of two manifests, one of which is changed; the cluster holds both of its resources.\<close>

definition secret_doc :: "string \<Rightarrow> (string \<times> any) list" where
  "secret_doc n = [(''apiVersion'', AStr ''v1''), (''kind'', AStr ''Secret''),
     (''metadata'', AMap [(''name'', AStr n), (''namespace'', AStr ''pay'')])]"

definition secret_resource :: "string \<Rightarrow> Resource" where
  "secret_resource n = \<lparr>APIVersion = ''v1'', Kind = ''Secret'', Namespace = ''pay'', Name = n, Body = secret_doc n,
     SourcePath = ''/r/manifests/'' @ n @ ''.yaml''\<rparr>"

definition two_manifests :: env where
  "two_manifests =
     \<lparr>stat = (\<lambda>p. Inr True),
      walk = (\<lambda>p. map (\<lambda>n. \<lparr>wpath = p @ ''/'' @ n @ ''.yaml'', wname = n @ ''.yaml'', wisdir = False, werr = None\<rparr>) [''a'', ''b'']),
      read_file = (\<lambda>p. Inr (if HasSuffix p ''a.yaml'' then ''a'' else ''b'')),
      yaml_decode = (\<lambda>n. ([secret_doc n], None))\<rparr>"

definition two_world :: "MemoryStore world" where
  "two_world =
     \<lparr>others = (\<lambda>r. r), conf_stat = (\<lambda>_. True), conf_read = (\<lambda>_. Inr (print_config sample_config)),
      wfiles = two_manifests, wcluster = PlainReader (\<lambda>_ _. Inr [secret_resource ''a'', secret_resource ''b'']),
      wyaml = sample_diff_env, wnow = 7\<rparr>"

theorem untouched_planned_for_deletion_witness:
  "\<exists>v' s' pl. plan_project (sample_planner\<lparr>plannerRuns := None\<rparr>) two_world
      (sample_event\<lparr>ChangedFiles := [''manifests/a.yaml'']\<rparr>) \<lparr>Root = ''.'', ConfigPath = ''thule.conf''\<rparr>
      \<lparr>planned = False, projectPlans = [], runIDs = [], maxDetails = 0\<rparr> sample_start = (Next v', s') \<and>
    projectPlans v' = [pl] \<and>
    (\<exists>ch \<in> set (PlanChanges pl). ChangeID ch = ID (secret_resource ''b'') \<and> ChangeAction ch = Delete)"
proof -
  let ?p = "sample_planner\<lparr>plannerRuns := None\<rparr>" and ?prj = "\<lparr>Root = ''.'', ConfigPath = ''thule.conf''\<rparr>"
    and ?evt = "sample_event\<lparr>ChangedFiles := [''manifests/a.yaml'']\<rparr>"
  have render: "RenderProject (wfiles two_world) (Join [repoRoot ?p, Root ?prj]) sample_config = Inr [secret_resource ''a'', secret_resource ''b'']"
    by code_simp
  have fil: "[secret_resource ''a''] = filterDesiredByChangedFiles [secret_resource ''a'', secret_resource ''b''] (ChangedFiles ?evt) (repoRoot ?p)"
    by code_simp
  have load: "Load (conf_read two_world) (Join [repoRoot ?p, ConfigPath ?prj]) = Inr sample_config"
    by (simp add: two_world_def sample_load)
  have "ID (secret_resource ''b'') \<notin> ID ` set [secret_resource ''a'']" by (simp add: ID_def secret_resource_def)
  then show ?thesis
    using untouched_planned_for_deletion [OF _ _ load render fil, where r = "secret_resource ''b''"
        and v = "\<lparr>planned = False, projectPlans = [], runIDs = [], maxDetails = 0\<rparr>" and s = sample_start]
    by (simp add: two_world_def sample_config_def)
qed

theorem plan_order_independent_witness:
  "PlanForEvent rev sample_planner (\<lambda>_. sample_world (\<lambda>r. r)) 0 sample_event sample_start
   = PlanForEvent (\<lambda>x. x) sample_planner (\<lambda>_. sample_world (\<lambda>r. r)) 0 sample_event sample_start"
  by (rule plan_order_independent) simp

theorem plan_settles_runs_witness:
  "case PlanForEvent rev sample_planner (\<lambda>_. sample_world (\<lambda>r. r)) 0 sample_event sample_start of
     (err, s') \<Rightarrow> runs (runsS s') 1 = None \<or>
       (\<exists>r. runs (runsS s') 1 = Some r \<and> RunState r = (if err = None then StateSuccess else StateFailed))"
proof -
  obtain err s' where "PlanForEvent rev sample_planner (\<lambda>_. sample_world (\<lambda>r. r)) 0 sample_event sample_start = (err, s')"
    by (metis surj_pair)
  moreover have "runs (runsS sample_start) 1 = None" by (simp add: sample_start_def NewMemoryStore_def)
  ultimately show ?thesis
    using plan_settles_runs [OF sample_hyps(1-4), of 0 err s' 1] by auto
qed

theorem plan_reports_outcome_witness:
  "case PlanForEvent rev sample_planner (\<lambda>_. sample_world (\<lambda>r. r)) 0 sample_event sample_start of
     (err, s') \<Rightarrow> StatusState (last (ListStatuses 5 ''abc'' (statusS s')))
       = (if err = None then CheckSuccess else CheckFailed)"
proof -
  obtain err s' where "PlanForEvent rev sample_planner (\<lambda>_. sample_world (\<lambda>r. r)) 0 sample_event sample_start = (err, s')"
    by (metis surj_pair)
  moreover have "MergeReqID sample_event = 5" "HeadSHA sample_event = ''abc''" by (simp_all add: sample_event_def)
  ultimately show ?thesis
    using plan_reports_outcome [OF sample_hyps, of 0 err s'] by auto
qed

text \<open>
  A plan that meets a newer commit on its way returns without an error and leaves the run it
  started running and the status pending: here another user of the run store announces a newer commit
  after the first project.
\<close>

definition newer_commit :: "nat \<Rightarrow> MemoryStore world" where
  "newer_commit i = sample_world (if i = 1 then SetLatestSHA 5 ''def'' else (\<lambda>r. r))"

theorem stale_plan_left_open:
  "case PlanForEvent rev sample_planner newer_commit 0 sample_event sample_start of
     (err, s') \<Rightarrow> err = None \<and> map_option RunState (runs (runsS s') 1) = Some StateRunning \<and>
       map StatusState (ListStatuses 5 ''abc'' (statusS s')) = [CheckPending]"
  by code_simp

end
