(* ===== verification/Cli.thy ===== *)
theory Cli
  imports Planner Diff_Spec
begin

text \<open>
  \<^verbatim>\<open>cmd/thule/main.go\<close>: the command line with its local preview of a plan. A run is described by
  what it prints and the code it exits with.
\<close>

section \<open>Flags\<close>

text \<open>
  The two flags of \<^verbatim>\<open>plan\<close>, read the way the standard package \<^verbatim>\<open>flag\<close> does: one dash or two, the
  value after \<^verbatim>\<open>=\<close> or in the next argument, the first argument that is no flag or \<^verbatim>\<open>--\<close> ends them.
\<close>

record plan_flags =
  flagProject :: string
  flagSHA :: string

datatype flag_result = FlagsRead plan_flags | FlagHelp | FlagError

definition default_flags :: plan_flags where
  "default_flags = \<lparr>flagProject = ''.'', flagSHA = ''local''\<rparr>"

definition set_flag :: "string \<Rightarrow> string \<Rightarrow> plan_flags \<Rightarrow> plan_flags" where
  "set_flag name v fl = (if name = ''project'' then fl\<lparr>flagProject := v\<rparr> else fl\<lparr>flagSHA := v\<rparr>)"

text \<open>A flag without its dashes: the name, and the value after the first equals sign if there is one.\<close>

definition split_flag :: "string \<Rightarrow> string \<times> string option" where
  "split_flag s =
     (let name = takeWhile (\<lambda>c. c \<noteq> CHR ''='') s; rest = dropWhile (\<lambda>c. c \<noteq> CHR ''='') s
      in (name, (case rest of [] \<Rightarrow> None | _ # v \<Rightarrow> Some v)))"

definition is_flag :: "string \<Rightarrow> bool" where
  "is_flag s \<longleftrightarrow> 2 \<le> length s \<and> hd s = CHR ''-''"

definition strip_dashes :: "string \<Rightarrow> string" where
  "strip_dashes s = (if hd (tl s) = CHR ''-'' then tl (tl s) else tl s)"

fun parse_flags :: "string list \<Rightarrow> plan_flags \<Rightarrow> flag_result" where
  "parse_flags [] fl = FlagsRead fl"
| "parse_flags (s # args) fl =
     (if \<not> is_flag s \<or> s = ''--'' then FlagsRead fl
      else
        (let body = strip_dashes s; (name, v) = split_flag body
         in if body = [] \<or> hd body = CHR ''-'' \<or> hd body = CHR ''='' then FlagError
            else if name \<noteq> ''project'' \<and> name \<noteq> ''sha''
            then (if name = ''help'' \<or> name = ''h'' then FlagHelp else FlagError)
            else
              (case v of
                 Some v \<Rightarrow> parse_flags args (set_flag name v fl)
               | None \<Rightarrow>
                   (case args of
                      [] \<Rightarrow> FlagError
                    | a # rest \<Rightarrow> parse_flags rest (set_flag name a fl)))))"

section \<open>The commands\<close>

record cli_result =
  cliOut :: string
  cliErr :: string
  cliExit :: int

definition usage_text :: string where
  "usage_text =
     ''thule <command>'' @ [nl, nl] @ ''Commands:'' @ [nl] @
     ''  plan --project <path> [--sha <sha>]  Run local plan preview'' @ [nl]"

definition usage :: cli_result where
  "usage = \<lparr>cliOut = usage_text, cliErr = [], cliExit = 2\<rparr>"

definition cli_failure :: "string \<Rightarrow> cli_result" where
  "cli_failure msg = \<lparr>cliOut = [], cliErr = msg @ [nl], cliExit = 1\<rparr>"

definition preview_options :: "Config \<Rightarrow> Options" where
  "preview_options c =
     \<lparr>PruneDeletes = Prune (ConfDiff c), OptIgnoreFields = IgnoreFields (ConfDiff c),
      IgnoreActualExtraFields = False\<rparr>"

text \<open>The preview of a project, from its flags; there are no live resources.\<close>

definition preview :: "(string \<Rightarrow> string result) \<Rightarrow> env \<Rightarrow> diff_env \<Rightarrow> plan_flags \<Rightarrow> cli_result" where
  "preview rd files e fl =
     (case Load rd (Join [flagProject fl, ''thule.conf'']) of
        Inl err \<Rightarrow> cli_failure (''load config: '' @ err)
      | Inr c \<Rightarrow>
          (case RenderProject files (flagProject fl) c of
             Inl err \<Rightarrow> cli_failure (''render project: '' @ err)
           | Inr desired \<Rightarrow>
               (let (changes, summary) = Compute e desired [] (preview_options c);
                    findings = Evaluate desired (Profile (ConfPolicy c));
                    body = BuildPlanComment (ConfProject c) (flagSHA fl) changes summary findings
                             (MaxResourceDetails (ConfComment c))
                in \<lparr>cliOut = TrimSpace body @ [nl], cliErr = [], cliExit = 0\<rparr>)))"

text \<open>
  Wrong flags end the process with 2 and a request for help with 0; what the package prints then,
  \<open>flag_usage\<close>, is its own text.
\<close>

definition runPlan ::
  "(string list \<Rightarrow> string) \<Rightarrow> (string \<Rightarrow> string result) \<Rightarrow> env \<Rightarrow> diff_env \<Rightarrow> string list \<Rightarrow> cli_result" where
  "runPlan flag_usage rd files e args =
     (case parse_flags args default_flags of
        FlagsRead fl \<Rightarrow> preview rd files e fl
      | FlagHelp \<Rightarrow> \<lparr>cliOut = [], cliErr = flag_usage args, cliExit = 0\<rparr>
      | FlagError \<Rightarrow> \<lparr>cliOut = [], cliErr = flag_usage args, cliExit = 2\<rparr>)"

definition cli_main ::
  "(string list \<Rightarrow> string) \<Rightarrow> (string \<Rightarrow> string result) \<Rightarrow> env \<Rightarrow> diff_env \<Rightarrow> string list \<Rightarrow> cli_result" where
  "cli_main flag_usage rd files e args =
     (case args of
        _ # cmd # rest \<Rightarrow> (if cmd = ''plan'' then runPlan flag_usage rd files e rest else usage)
      | _ \<Rightarrow> usage)"

section \<open>What the preview shows\<close>

text \<open>Without live resources every identifier is a CREATE.\<close>

lemma Compute_nothing_live:
  "map ChangeID (fst (Compute e desired [] opts)) = sorted_keys (map ID desired)
   \<and> list_all (\<lambda>c. ChangeAction c = Create) (fst (Compute e desired [] opts))"
proof -
  have none: "chosen e opts [] k = None" for k by (simp add: chosen_def)
  have "change_for e opts (chosen e opts desired) (chosen e opts []) k \<noteq> None" if "k \<in> set (sorted_keys (map ID desired))" for k
    using that chosen_None [of e opts desired k] by (auto simp: change_for_def none split: option.splits)
  then have "filter (\<lambda>k. change_for e opts (chosen e opts desired) (chosen e opts []) k \<noteq> None)
      (sorted_keys (map ID desired)) = sorted_keys (map ID desired)"
    by (simp add: filter_id_conv)
  moreover have "ChangeAction c = Create" if "c \<in> set (fst (Compute e desired [] opts))" for c
  proof -
    have "change_for e opts (chosen e opts desired) (chosen e opts []) (ChangeID c) = Some c"
      using that by (simp only: Compute_mem)
    then show ?thesis
      by (cases c) (auto simp: change_for_def none new_change_def Let_def split: option.splits)
  qed
  ultimately show ?thesis
    unfolding list_all_iff unfolding Compute_changes
    using change_for_id by (subst map_filter_ids) auto
qed

lemma parse_flags_given:
  "parse_flags [''--project'', p, ''--sha'', s] default_flags = FlagsRead \<lparr>flagProject = p, flagSHA = s\<rparr>"
  by (simp add: is_flag_def strip_dashes_def split_flag_def set_flag_def default_flags_def)

text \<open>
  The local preview compares with nothing: whatever the cluster holds and whatever the project
  says about pruning, the printed plan lists every rendered identifier once, in order, as CREATE.
\<close>

theorem preview_shows_creates_only:
  assumes "Load rd (Join [p, ''thule.conf'']) = Inr c" and "RenderProject files p c = Inr desired"
  shows "\<exists>changes.
    cli_main flag_usage rd files e [prog, ''plan'', ''--project'', p, ''--sha'', sha] =
      \<lparr>cliOut = TrimSpace (BuildPlanComment (ConfProject c) sha changes (summary_of changes)
          (Evaluate desired (Profile (ConfPolicy c))) (MaxResourceDetails (ConfComment c))) @ [nl],
       cliErr = [], cliExit = 0\<rparr> \<and>
    map ChangeID changes = sorted_keys (map ID desired) \<and>
    list_all (\<lambda>ch. ChangeAction ch = Create) changes"
proof (intro exI conjI)
  let ?changes = "fst (Compute e desired [] (preview_options c))"
  show "map ChangeID ?changes = sorted_keys (map ID desired)"
    and "list_all (\<lambda>ch. ChangeAction ch = Create) ?changes"
    using Compute_nothing_live by blast+
  show "cli_main flag_usage rd files e [prog, ''plan'', ''--project'', p, ''--sha'', sha] =
      \<lparr>cliOut = TrimSpace (BuildPlanComment (ConfProject c) sha ?changes (summary_of ?changes)
          (Evaluate desired (Profile (ConfPolicy c))) (MaxResourceDetails (ConfComment c))) @ [nl],
       cliErr = [], cliExit = 0\<rparr>"
    unfolding cli_main_def runPlan_def list.case parse_flags_given flag_result.case preview_def
    using assms by (simp add: case_prod_beta Let_def Compute_summary del: parse_flags.simps)
qed

text \<open>
  The exit code tells what happened: 0 for a printed preview or for help, 1 when the project
  cannot be loaded or rendered, and then nothing is printed on the standard output, 2 when the
  command or a flag is not understood.
\<close>

theorem cli_exit_codes:
  "case parse_flags args default_flags of
     FlagsRead fl \<Rightarrow>
       (cliExit (runPlan flag_usage rd files e args) = 0 \<longleftrightarrow>
          (\<exists>c desired. Load rd (Join [flagProject fl, ''thule.conf'']) = Inr c \<and>
             RenderProject files (flagProject fl) c = Inr desired)) \<and>
       (cliExit (runPlan flag_usage rd files e args) = 1 \<longleftrightarrow> cliOut (runPlan flag_usage rd files e args) = []) \<and>
       cliExit (runPlan flag_usage rd files e args) \<in> {0, 1}
   | FlagHelp \<Rightarrow> cliExit (runPlan flag_usage rd files e args) = 0
   | FlagError \<Rightarrow> cliExit (runPlan flag_usage rd files e args) = 2"
  by (simp add: runPlan_def preview_def cli_failure_def case_prod_beta Let_def split: flag_result.split sum.split)

text \<open>The sample project, previewed.\<close>

theorem preview_shows_creates_only_witness:
  "\<exists>changes.
    cli_main (\<lambda>_. []) (\<lambda>_. Inr (print_config sample_config)) sample_env sample_diff_env
        [''thule'', ''plan'', ''--project'', ''/r'', ''--sha'', ''abc''] =
      \<lparr>cliOut = TrimSpace (BuildPlanComment ''payments'' ''abc'' changes (summary_of changes)
          (Evaluate [sample_resource] []) 100) @ [nl],
       cliErr = [], cliExit = 0\<rparr> \<and>
    map ChangeID changes = [ID sample_resource]"
proof -
  have "sorted_keys (map ID [sample_resource]) = [ID sample_resource]" by code_simp
  moreover have "ConfProject sample_config = ''payments''" "Profile (ConfPolicy sample_config) = []"
      "MaxResourceDetails (ConfComment sample_config) = 100"
    by (simp_all add: sample_config_def)
  ultimately show ?thesis
    using preview_shows_creates_only [OF sample_load sample_render, of "\<lambda>_. []" sample_diff_env "''thule''" "''abc''"]
    by metis
qed

end
