(* ===== verification/Programs.thy ===== *)
theory Programs
  imports Webhook Worker GitLab Cluster_Live Planner_Spec Cli
begin

text \<open>
  How the two long-running programs are put together: \<^verbatim>\<open>internal/storage/dedupe_config.go\<close>,
  \<^verbatim>\<open>cmd/thule-api/main.go\<close>, \<^verbatim>\<open>buildWorker\<close> of \<^verbatim>\<open>cmd/thule-worker/main.go\<close> and the two files that
  choose its cluster reader. Each program reads its settings, fails on the first one that is not
  usable, and otherwise hands fixed parts to the components of the other theories.
\<close>

section \<open>The dedupe store\<close>

datatype dedupe_choice = NoDedupe | MemoryDedupe MemoryDedupeStore | RedisDedupe RedisOptions RedisDedupeStore

record DedupeConfig =
  DedupeStore :: dedupe_choice
  TTL :: int
  DedupeEnabled :: bool
  StoreLabel :: string

definition dedupe_mode :: "environ \<Rightarrow> string" where
  "dedupe_mode env =
     (let mode = ToLower (getEnv env ''THULE_DEDUPE'' ''auto'');
          queueMode = ToLower (getEnv env ''THULE_QUEUE'' ''memory'')
      in if mode = ''auto'' then (if queueMode = ''redis'' then ''redis'' else ''memory'') else mode)"

text \<open>The message for an unusable time to live ends with the text of \<^verbatim>\<open>time.ParseDuration\<close>, left out here.\<close>

definition DedupeFromEnv :: "environ \<Rightarrow> DedupeConfig result" where
  "DedupeFromEnv env =
     (let mode = dedupe_mode env
      in if mode = ''disabled'' \<or> mode = ''off'' \<or> mode = ''false''
         then Inr \<lparr>DedupeStore = NoDedupe, TTL = 0, DedupeEnabled = False, StoreLabel = []\<rparr>
         else
           (case ParseDuration (getEnv env ''THULE_DEDUPE_TTL'' ''5m'') of
              None \<Rightarrow> Inl ''invalid THULE_DEDUPE_TTL''
            | Some ttl \<Rightarrow>
                (if mode = ''redis'' then
                   (case getEnvInt env ''THULE_REDIS_DB'' 0 of
                      Inl e \<Rightarrow> Inl e
                    | Inr db \<Rightarrow>
                        Inr \<lparr>DedupeStore = RedisDedupe
                               \<lparr>Addr = getEnv env ''THULE_REDIS_ADDR'' ''127.0.0.1:6379'',
                                Password = env ''THULE_REDIS_PASSWORD'', DB = db\<rparr>
                               (NewRedisDedupeStore (getEnv env ''THULE_REDIS_DEDUPE_PREFIX'' ''thule:dedupe:'')),
                             TTL = ttl, DedupeEnabled = True, StoreLabel = ''redis''\<rparr>)
                 else if mode = ''memory'' then
                   Inr \<lparr>DedupeStore = MemoryDedupe NewMemoryDedupeStore, TTL = ttl, DedupeEnabled = True,
                        StoreLabel = ''memory''\<rparr>
                 else Inl (''invalid THULE_DEDUPE: '' @ mode))))"

section \<open>The API\<close>

text \<open>What \<^verbatim>\<open>run\<close> has in hand when it starts to listen. None: making the queue panicked.\<close>

record api_parts =
  apiAddr :: string
  apiSecret :: string
  apiJobs :: queue_choice
  apiDedupe :: dedupe_choice
  apiTTL :: int

definition api_setup :: "environ \<Rightarrow> api_parts result option" where
  "api_setup env =
     (case QueueFromEnv env of
        None \<Rightarrow> None
      | Some (Inl e) \<Rightarrow> Some (Inl (''queue init failed: '' @ e))
      | Some (Inr q) \<Rightarrow>
          Some (case DedupeFromEnv env of
                  Inl e \<Rightarrow> Inl (''dedupe init failed: '' @ e)
                | Inr dcfg \<Rightarrow>
                    Inr \<lparr>apiAddr = getEnv env ''THULE_API_ADDR'' '':8080'',
                         apiSecret = env ''THULE_WEBHOOK_SECRET'', apiJobs = q,
                         apiDedupe = (if DedupeEnabled dcfg then DedupeStore dcfg else NoDedupe),
                         apiTTL = (if DedupeEnabled dcfg then TTL dcfg else 0)\<rparr>))"

text \<open>
  The commands the Redis client sends. The lists of the queue and the keys of the dedupe store are
  kept under different names, so each part has its own view of the server.
\<close>

record 'r redis =
  RPush :: "string \<Rightarrow> string \<Rightarrow> 'r \<Rightarrow> string option \<times> 'r"
  BLPop :: "string \<Rightarrow> 'r \<Rightarrow> string list result option \<times> 'r"
  SetNX :: "string \<Rightarrow> string \<Rightarrow> int \<Rightarrow> 'r \<Rightarrow> bool result \<times> 'r"
  Del :: "string \<Rightarrow> 'r \<Rightarrow> string option \<times> 'r"

text \<open>There is a client for every address, password and database; \<open>'r\<close> is what all servers hold.\<close>

type_synonym 'r redis_net = "RedisOptions \<Rightarrow> 'r redis"

text \<open>The two queues behind one interface; the state holds the channel and the view of Redis.\<close>

definition choice_enqueue ::
  "'r redis_net \<Rightarrow> bool \<Rightarrow> queue_choice \<Rightarrow> Call \<Rightarrow> Job \<Rightarrow> MemoryQueue \<times> 'r \<Rightarrow> enqueue_outcome \<times> MemoryQueue \<times> 'r" where
  "choice_enqueue R nilFiles q c job st =
     (case q of
        UseMemory _ \<Rightarrow> (let (out, m) = Enqueue c job (fst st) in (out, (m, snd st)))
      | UseRedis opts rq \<Rightarrow> (let (out, r) = RedisEnqueue (RPush (R opts)) rq nilFiles job (snd st) in (out, (fst st, r))))"

definition choice_dequeue ::
  "'r redis_net \<Rightarrow> queue_choice \<Rightarrow> Call \<Rightarrow> MemoryQueue \<times> 'r \<Rightarrow> dequeue_outcome \<times> MemoryQueue \<times> 'r" where
  "choice_dequeue R q c st =
     (case q of
        UseMemory _ \<Rightarrow> (let (out, m) = Dequeue c (fst st) in (out, (m, snd st)))
      | UseRedis opts rq \<Rightarrow> (let (out, r) = RedisDequeue (BLPop (R opts)) rq (snd st) in (out, (fst st, r))))"

definition choice_dedupe :: "'r redis_net \<Rightarrow> dedupe_choice \<Rightarrow> (MemoryDedupeStore \<times> 'r) DedupeOps option" where
  "choice_dedupe R d =
     (case d of
        NoDedupe \<Rightarrow> None
      | MemoryDedupe _ \<Rightarrow>
          Some \<lparr>opDedupeReserve = (\<lambda>now key ttl st.
                  let (out, m) = DedupeReserve now key ttl (fst st) in (out, (m, snd st))),
                opDedupeRelease = (\<lambda>key st. let (out, m) = DedupeRelease key (fst st) in (out, (m, snd st)))\<rparr>
      | RedisDedupe opts rs \<Rightarrow>
          Some \<lparr>opDedupeReserve = (\<lambda>now key ttl st.
                  let (out, r) = RedisDedupeReserve (SetNX (R opts)) rs key ttl (snd st) in (out, (fst st, r))),
                opDedupeRelease = (\<lambda>key st.
                  let (out, r) = RedisDedupeRelease (Del (R opts)) rs key (snd st) in (out, (fst st, r)))\<rparr>)"

type_synonym 'r ApiService =
  "(MemoryDeliveryStore, MemoryLocker, MemoryDedupeStore \<times> 'r, MemoryQueue \<times> 'r) Service"

type_synonym 'r ApiState =
  "(MemoryDeliveryStore, MemoryLocker, MemoryDedupeStore \<times> 'r, MemoryQueue \<times> 'r) SvcState"

definition api_service :: "'r redis_net \<Rightarrow> bool \<Rightarrow> api_parts \<Rightarrow> 'r ApiService" where
  "api_service R nilFiles a =
     New (choice_enqueue R nilFiles (apiJobs a))
       \<lparr>opReserve = Reserve, opCommit = Commit, opRelease = Release\<rparr>
       (Some \<lparr>opAcquire = Acquire, opReleaseByMR = ReleaseByMR\<rparr>)
       (choice_dedupe R (apiDedupe a)) (apiTTL a)"

definition api_init :: "api_parts \<Rightarrow> 'r \<Rightarrow> 'r ApiState" where
  "api_init a r =
     \<lparr>storeS = NewMemoryDeliveryStore, lockS = NewMemoryLocker,
      dedupeS = ((case apiDedupe a of MemoryDedupe m \<Rightarrow> m | _ \<Rightarrow> NewMemoryDedupeStore), r),
      queueS = ((case apiJobs a of UseMemory q \<Rightarrow> q | _ \<Rightarrow> \<lparr>chan = [], buffer = 0\<rparr>), r)\<rparr>"

text \<open>
  The two routes. For another path the multiplexer of the standard library answers by itself, and
  no code of the program runs.
\<close>

datatype api_reply = Replied Response | NoReplyYet | NotRouted

definition api_serve ::
  "'r redis_net \<Rightarrow> bool \<Rightarrow> api_parts \<Rightarrow> number_env \<Rightarrow> (string list \<Rightarrow> string list) \<Rightarrow> Call \<Rightarrow> string \<Rightarrow> Request \<Rightarrow>
   'r ApiState \<Rightarrow> api_reply \<times> 'r ApiState" where
  "api_serve R nilFiles a ne perm c path r st =
     (if path = ''/webhook'' then
        (case ServeHTTP (NewHandler (apiSecret a) (api_service R nilFiles a)) ne perm c r st of
           (Some rsp, st') \<Rightarrow> (Replied rsp, st')
         | (None, st') \<Rightarrow> (NoReplyYet, st'))
      else if path = ''/healthz'' then (Replied \<lparr>StatusCode = 200, RspBody = ''ok''\<rparr>, st)
      else (NotRouted, st))"

section \<open>The worker\<close>

datatype 'k cluster_choice = MemoryCluster MemoryClusterReader | LiveCluster "'k LiveClusterReader"

text \<open>Which of the two definitions of \<^verbatim>\<open>newClusterReader\<close> is built depends on the build tag \<^verbatim>\<open>live\<close>.\<close>

definition newClusterReader :: "bool \<Rightarrow> ('k, 'conf) cloud \<Rightarrow> environ \<Rightarrow> 'k cluster_choice result" where
  "newClusterReader live C env =
     (if live then map_sum (\<lambda>e. e) LiveCluster (NewLiveClusterReader C env)
      else Inr (MemoryCluster \<lparr>ByClusterNS = (\<lambda>_. [])\<rparr>))"

text \<open>The parts of the GitLab side, when a token is set.\<close>

record gitlab_parts =
  glComments :: gitLabClient
  glStatuses :: gitLabClient
  glMRChanges :: gitLabClient

record ('s, 'k) worker_parts =
  wpJobs :: queue_choice
  wpSyncer :: "'s auth_method Syncer"
  wpGitLab :: "gitlab_parts option"
  wpCluster :: "'k cluster_choice"

definition build_gitlab :: "url_parser \<Rightarrow> environ \<Rightarrow> string \<Rightarrow> gitlab_parts option result" where
  "build_gitlab url_parse env repoURL =
     (case GitLabOptionsFromEnv url_parse env repoURL of
        Inl e \<Rightarrow> Inl e
      | Inr None \<Rightarrow> Inr None
      | Inr (Some opts) \<Rightarrow>
          (case NewGitLabCommentStore opts of
             Inl e \<Rightarrow> Inl e
           | Inr cs \<Rightarrow>
               (case NewGitLabStatusPublisher opts of
                  Inl e \<Rightarrow> Inl e
                | Inr ss \<Rightarrow>
                    (case NewGitLabMergeRequestReader opts of
                       Inl e \<Rightarrow> Inl e
                     | Inr mr \<Rightarrow> Inr (Some \<lparr>glComments = cs, glStatuses = ss, glMRChanges = mr\<rparr>)))))"

definition buildWorker ::
  "(string \<Rightarrow> string \<Rightarrow> string \<Rightarrow> 's result) \<Rightarrow> (string \<Rightarrow> string \<Rightarrow> string \<Rightarrow> 's result) \<Rightarrow> url_parser \<Rightarrow>
   bool \<Rightarrow> ('k, 'conf) cloud \<Rightarrow> environ \<Rightarrow> string \<Rightarrow> ('s, 'k) worker_parts result option" where
  "buildWorker from_file from_key url_parse live C env root =
     (case QueueFromEnv env of
        None \<Rightarrow> None
      | Some (Inl e) \<Rightarrow> Some (Inl e)
      | Some (Inr q) \<Rightarrow>
          Some (case AuthFromEnv from_file from_key env of
                  Inl e \<Rightarrow> Inl e
                | Inr auth \<Rightarrow>
                    (case build_gitlab url_parse env (env ''THULE_REPO_URL'') of
                       Inl e \<Rightarrow> Inl e
                     | Inr gl \<Rightarrow>
                         (case newClusterReader live C env of
                            Inl e \<Rightarrow> Inl e
                          | Inr cluster \<Rightarrow>
                              Inr \<lparr>wpJobs = q,
                                   wpSyncer = NewSyncer (env ''THULE_REPO_URL'') (getEnv env ''THULE_REPO_REF'' ''master'')
                                                root auth,
                                   wpGitLab = gl, wpCluster = cluster\<rparr>))))"

text \<open>The planner of the worker: its comments and checks go to GitLab when that is enabled.\<close>

definition worker_comments ::
  "'h http_client \<Rightarrow> url_parser \<Rightarrow> gitlab_parts option \<Rightarrow> int \<Rightarrow> string \<Rightarrow> MemoryCommentStore \<times> 'h \<Rightarrow>
   Comment \<times> MemoryCommentStore \<times> 'h" where
  "worker_comments http url_parse gl mr body st =
     (case gl of
        None \<Rightarrow> (let (c, m) = PostOrSupersede mr body (fst st) in (c, (m, snd st)))
      | Some cl \<Rightarrow> (let (c, h) = GitLabPostOrSupersede http url_parse (glComments cl) mr body (snd st) in (c, (fst st, h))))"

definition worker_statuses ::
  "'h http_client \<Rightarrow> url_parser \<Rightarrow> gitlab_parts option \<Rightarrow> StatusCheck \<Rightarrow> MemoryStatusPublisher \<times> 'h \<Rightarrow>
   MemoryStatusPublisher \<times> 'h" where
  "worker_statuses http url_parse gl status st =
     (case gl of
        None \<Rightarrow> (SetStatus status (fst st), snd st)
      | Some cl \<Rightarrow> (fst st, GitLabSetStatus http url_parse (glStatuses cl) status (snd st)))"

definition worker_planner ::
  "'h http_client \<Rightarrow> url_parser \<Rightarrow> gitlab_parts option \<Rightarrow> string \<Rightarrow>
   (MemoryStore, MemoryCommentStore \<times> 'h, MemoryStatusPublisher \<times> 'h) Planner" where
  "worker_planner http url_parse gl root =
     \<lparr>repoRoot = root, plannerComments = Some (worker_comments http url_parse gl),
      plannerStatus = Some (worker_statuses http url_parse gl), plannerRuns = Some mem_run_ops,
      policyEval = Some Evaluate\<rparr>"

text \<open>The reader the planner is given; the live one keeps its clients between the calls.\<close>

definition worker_cluster ::
  "('k, 'conf) cloud \<Rightarrow> ('k, 'res) kube \<Rightarrow> 'k cluster_choice \<Rightarrow> ClusterReader" where
  "worker_cluster C K cl =
     (case cl of
        MemoryCluster m \<Rightarrow> PlainReader (ListResources (Some m))
      | LiveCluster l \<Rightarrow>
          ProjectAwareReader (\<lambda>projectID clusterRef namespace desired.
            fst (ListResourcesWithProject C K projectID clusterRef namespace desired l)))"

text \<open>
  What a round of the worker meets outside: the order in which discovery visits its map, the world of
  each project, the clock and the answers of the GitLab server. The cluster of a project's world is the
  one the worker was built with.
\<close>

record 'h round_world =
  rwPerm :: "string list \<Rightarrow> string list"
  rwWorlds :: "nat \<Rightarrow> MemoryStore world"
  rwNow :: int
  rwHTTP :: 'h

type_synonym 'h WorkerPlanState = "(MemoryStore, MemoryCommentStore \<times> 'h, MemoryStatusPublisher \<times> 'h) PState"

definition worker_deps ::
  "'r redis_net \<Rightarrow> 'h http_client \<Rightarrow> url_parser \<Rightarrow> ('g, 's auth_method) git \<Rightarrow> ('k, 'conf) cloud \<Rightarrow> ('k, 'res) kube \<Rightarrow>
   string \<Rightarrow> ('s, 'k) worker_parts \<Rightarrow> (MemoryQueue \<times> 'r, 'g, 'h WorkerPlanState, 'h round_world) workerDeps" where
  "worker_deps R http url_parse G C K root w =
     \<lparr>depJobs = choice_dequeue R (wpJobs w),
      depSyncer = Some (repo_syncer G (wpSyncer w)),
      depPlan = (\<lambda>rw g evt p.
        PlanForEvent (rwPerm rw) (worker_planner http url_parse (wpGitLab w) root)
          (\<lambda>i. (rwWorlds rw i)\<lparr>wcluster := worker_cluster C K (wpCluster w)\<rparr>) (rwNow rw) evt p),
      depMRFiles = map_option (\<lambda>gl rw mr. fst (MRChangedFiles http url_parse (glMRChanges gl) mr (rwHTTP rw)))
        (wpGitLab w),
      depDiff = RepoChangedFiles G\<rparr>"

definition worker_start :: "'h \<Rightarrow> 'h WorkerPlanState" where
  "worker_start h =
     \<lparr>runsS = NewMemoryStore, commentsS = (NewMemoryCommentStore, h), statusS = (NewMemoryStatusPublisher, h)\<rparr>"

text \<open>\<open>main\<close>: build, then run the loop; an error of \<open>buildWorker\<close> ends the process.\<close>

definition worker_main ::
  "'r redis_net \<Rightarrow> 'h http_client \<Rightarrow> url_parser \<Rightarrow> ('g, 's auth_method) git \<Rightarrow> ('k, 'conf) cloud \<Rightarrow> ('k, 'res) kube \<Rightarrow>
   (string \<Rightarrow> string \<Rightarrow> string \<Rightarrow> 's result) \<Rightarrow> (string \<Rightarrow> string \<Rightarrow> string \<Rightarrow> 's result) \<Rightarrow> bool \<Rightarrow> environ \<Rightarrow>
   (Call \<times> 'h round_world) list \<Rightarrow> 'r \<Rightarrow> 'g \<Rightarrow> 'h \<Rightarrow>
   (round_outcome list \<times> (MemoryQueue \<times> 'r, 'g, 'h WorkerPlanState) workerState) result option" where
  "worker_main R http url_parse G C K from_file from_key live env rounds r g h =
     (let root = getEnv env ''THULE_REPO_ROOT'' ''.''
      in (case buildWorker from_file from_key url_parse live C env root of
            None \<Rightarrow> None
          | Some (Inl e) \<Rightarrow> Some (Inl (''worker init failed: '' @ e))
          | Some (Inr w) \<Rightarrow>
              Some (Inr (runWorker (worker_deps R http url_parse G C K root w) env rounds
                ((case wpJobs w of UseMemory m \<Rightarrow> m | UseRedis _ _ \<Rightarrow> \<lparr>chan = [], buffer = 0\<rparr>), r) g (worker_start h)))))"

text \<open>\<open>run\<close> of the API: \<open>listen\<close> serves until it fails. The outer None is the panic of the queue.\<close>

definition api_run :: "(string \<Rightarrow> string option) \<Rightarrow> environ \<Rightarrow> string option option" where
  "api_run listen env =
     (case api_setup env of
        None \<Rightarrow> None
      | Some (Inl e) \<Rightarrow> Some (Some e)
      | Some (Inr a) \<Rightarrow> Some (map_option (\<lambda>e. ''api stopped: '' @ e) (listen (apiAddr a))))"

end
