(* ===== verification/Programs_Spec.thy ===== *)
theory Programs_Spec
  imports Programs
begin

text \<open>
  What holds of the programs as they are built: without Redis the API refines the in-memory service;
  with Redis the API and the worker are linked; the worker drains its Redis list and reports every
  plan; and what a worker without the build tag \<^verbatim>\<open>live\<close> can see.
\<close>

section \<open>Without Redis the API is the in-memory service\<close>

definition mem_view :: "'r ApiState \<Rightarrow> MemState" where
  "mem_view st =
     \<lparr>storeS = storeS st, lockS = lockS st, dedupeS = fst (dedupeS st), queueS = fst (queueS st)\<rparr>"

definition in_memory :: "api_parts \<Rightarrow> bool" where
  "in_memory a \<longleftrightarrow>
     (case apiJobs a of UseMemory _ \<Rightarrow> True | UseRedis _ _ \<Rightarrow> False) \<and>
     (case apiDedupe a of MemoryDedupe _ \<Rightarrow> True | _ \<Rightarrow> False)"

lemma mem_view_simps [simp]:
  "storeS (mem_view st) = storeS st" "lockS (mem_view st) = lockS st"
  "dedupeS (mem_view st) = fst (dedupeS st)" "queueS (mem_view st) = fst (queueS st)"
  "mem_view (st\<lparr>storeS := x\<rparr>) = (mem_view st)\<lparr>storeS := x\<rparr>"
  "mem_view (st\<lparr>lockS := y\<rparr>) = (mem_view st)\<lparr>lockS := y\<rparr>"
  "mem_view (st\<lparr>dedupeS := z\<rparr>) = (mem_view st)\<lparr>dedupeS := fst z\<rparr>"
  "mem_view (st\<lparr>queueS := w\<rparr>) = (mem_view st)\<lparr>queueS := fst w\<rparr>"
  by (simp_all add: mem_view_def)

lemma api_service_sel [simp]:
  "store (api_service R n a) = store (mem_service (apiTTL a))"
  "locker (api_service R n a) = locker (mem_service (apiTTL a))"
  "jobs (api_service R n a) = choice_enqueue R n (apiJobs a)"
  "dedupeTTL (api_service R n a) = apiTTL a"
  "dedupe (api_service R n a) = choice_dedupe R (apiDedupe a)"
  by (simp_all add: api_service_def mem_service_def New_def)

lemma mem_service_sel [simp]:
  "jobs (mem_service ttl) = Enqueue" "dedupeTTL (mem_service ttl) = ttl"
  "dedupe (mem_service ttl) = Some \<lparr>opDedupeReserve = DedupeReserve, opDedupeRelease = DedupeRelease\<rparr>"
  by (simp_all add: mem_service_def New_def)

lemma delivery_views [simp]:
  "mem_view (commit_delivery (api_service R n a) ev st) = commit_delivery (mem_service (apiTTL a)) ev (mem_view st)"
  "mem_view (release_delivery (api_service R n a) ev st) = release_delivery (mem_service (apiTTL a)) ev (mem_view st)"
  by (simp_all add: commit_delivery_def release_delivery_def)

lemma undo_view:
  "in_memory a \<Longrightarrow>
     mem_view (undo_dedupe (api_service R n a) ev st) = undo_dedupe (mem_service (apiTTL a)) ev (mem_view st)"
  by (auto simp: undo_dedupe_def active_dedupe_def in_memory_def choice_dedupe_def case_prod_beta
      split: dedupe_choice.splits)

lemma enqueue_view:
  "in_memory a \<Longrightarrow>
     map_prod id mem_view (enqueue_job (api_service R n a) c ev st)
       = enqueue_job (mem_service (apiTTL a)) c ev (mem_view st)"
  by (cases "Enqueue c (job_of_event ev) (fst (queueS st))")
    (auto simp: enqueue_job_def in_memory_def choice_enqueue_def undo_view
      split: enqueue_outcome.split queue_choice.splits)

lemma lock_view:
  "in_memory a \<Longrightarrow>
     map_prod id mem_view (lock_and_enqueue (api_service R n a) perm c ev st)
       = lock_and_enqueue (mem_service (apiTTL a)) perm c ev (mem_view st)"
  by (auto simp: lock_and_enqueue_def undo_view enqueue_view split: option.split prod.split)

lemma plan_view:
  assumes "in_memory a"
  shows "map_prod id mem_view (handle_plan (api_service R n a) perm c ev st)
    = handle_plan (mem_service (apiTTL a)) perm c ev (mem_view st)"
proof -
  obtain m where "apiDedupe a = MemoryDedupe m"
    using assms by (auto simp: in_memory_def split: dedupe_choice.splits)
  then show ?thesis
    by (cases "DedupeReserve (clock c) (dedupeKey ev) (apiTTL a) (fst (dedupeS st))")
      (auto simp: handle_plan_def active_dedupe_def choice_dedupe_def lock_view [OF assms]
        split: sum.split bool.split)
qed

lemma handle_view:
  assumes "in_memory a"
  shows "map_prod id mem_view (HandleMergeRequestEvent (api_service R n a) perm c ev st)
    = HandleMergeRequestEvent (mem_service (apiTTL a)) perm c ev (mem_view st)"
  by (auto simp: HandleMergeRequestEvent_def handle_close_def plan_view [OF assms]
      split: option.split prod.split bool.split)

text \<open>Serving requests one after the other.\<close>

type_synonym api_request = "(string list \<Rightarrow> string list) \<times> Call \<times> string \<times> Request"

fun serve_all :: "'r redis_net \<Rightarrow> bool \<Rightarrow> api_parts \<Rightarrow> number_env \<Rightarrow> api_request list \<Rightarrow> 'r ApiState \<Rightarrow> api_reply list \<times> 'r ApiState" where
  "serve_all R n a ne [] st = ([], st)"
| "serve_all R n a ne ((perm, c, path, r) # reqs) st =
     (let (reply, st1) = api_serve R n a ne perm c path r st; (replies, st2) = serve_all R n a ne reqs st1
      in (reply # replies, st2))"

text \<open>The event of the service a request stands for, if it is for the webhook and let through.\<close>

definition request_input :: "api_parts \<Rightarrow> number_env \<Rightarrow> api_request \<Rightarrow> svc_input option" where
  "request_input a ne req =
     (case req of (perm, c, path, r) \<Rightarrow>
        if path = ''/webhook'' then map_option (Deliver perm c) (accepted_event (apiSecret a) ne r) else None)"

lemma api_serve_view:
  assumes "in_memory a"
  shows "mem_view (snd (api_serve R n a ne perm c path r st)) =
    (case request_input a ne (perm, c, path, r) of
       None \<Rightarrow> mem_view st
     | Some i \<Rightarrow> snd (svc_input_step (apiTTL a) i (mem_view st)))"
proof -
  let ?h = "NewHandler (apiSecret a) (api_service R n a)"
  have h: "secret ?h = apiSecret a" "orch ?h = api_service R n a" by (simp_all add: NewHandler_def)
  have snd_serve: "snd (api_serve R n a ne perm c ''/webhook'' r st) = snd (ServeHTTP ?h ne perm c r st)"
    by (simp add: api_serve_def split: prod.split option.split)
  show ?thesis
  proof (cases "path = ''/webhook''")
    case True
    show ?thesis
    proof (cases "accepted_event (apiSecret a) ne r")
      case None
      then obtain rsp where "ServeHTTP ?h ne perm c r st = (Some rsp, st)"
        using ServeHTTP_rejected [of ?h ne r perm c st] h by metis
      then show ?thesis using True None snd_serve by (simp add: request_input_def)
    next
      case (Some ev)
      then have "snd (ServeHTTP ?h ne perm c r st) = snd (HandleMergeRequestEvent (api_service R n a) perm c ev st)"
        using ServeHTTP_accepted [of ?h ne r ev perm c st] h by simp
      moreover have "mem_view (snd (HandleMergeRequestEvent (api_service R n a) perm c ev st)) =
          snd (HandleMergeRequestEvent (mem_service (apiTTL a)) perm c ev (mem_view st))"
        using handle_view [OF assms, of R n perm c ev st] by (metis snd_map_prod)
      ultimately show ?thesis using True Some snd_serve by (simp add: request_input_def Let_def)
    qed
  qed (simp add: request_input_def api_serve_def)
qed

lemma serve_all_view:
  assumes "in_memory a"
  shows "mem_view (snd (serve_all R n a ne reqs st)) =
    snd (run_service (apiTTL a) (List.map_filter (request_input a ne) reqs) (mem_view st))"
proof (induction reqs arbitrary: st)
  case (Cons req reqs)
  obtain perm c path r where req: "req = (perm, c, path, r)" by (cases req) auto
  show ?case
    using Cons.IH [of "snd (api_serve R n a ne perm c path r st)"] api_serve_view [OF assms, of R n ne perm c path r st]
    by (simp add: req List.map_filter_simps case_prod_beta Let_def split: option.splits)
qed (simp add: List.map_filter_simps)

lemma setup_in_memory:
  assumes "api_setup env = Some (Inr a)" and "ToLower (getEnv env ''THULE_QUEUE'' ''memory'') \<noteq> ''redis''"
    and "dedupe_mode env = ''memory''"
  shows "in_memory a \<and> (\<exists>n. mem_view (api_init a r) = mem_init n)"
proof -
  obtain nb where q: "apiJobs a = UseMemory \<lparr>chan = [], buffer = nb\<rparr>"
    using assms(1,2)
    by (auto simp: api_setup_def QueueFromEnv_def NewMemoryQueue_def split: option.splits sum.splits if_splits)
  have d: "apiDedupe a = MemoryDedupe NewMemoryDedupeStore"
    using assms(1,3) by (auto simp: api_setup_def DedupeFromEnv_def Let_def split: option.splits sum.splits if_splits)
  have "mem_view (api_init a r) = mem_init nb" by (simp add: mem_view_def api_init_def q d mem_init_def)
  then show ?thesis using q d by (auto simp: in_memory_def)
qed

text \<open>
  C6. Without Redis the API program is the in-memory service: whatever requests it serves after its
  start, its stores are those of the service after the events of the requests that are for the
  webhook, are authentic and can be decoded, in their order, with the configured time to live.
\<close>

theorem api_refines_service:
  assumes "api_setup env = Some (Inr a)" and "ToLower (getEnv env ''THULE_QUEUE'' ''memory'') \<noteq> ''redis''"
    and "dedupe_mode env = ''memory''"
  shows "\<exists>n. mem_view (snd (serve_all R nilFiles a ne reqs (api_init a r))) =
    snd (run_service (apiTTL a) (List.map_filter (request_input a ne) reqs) (mem_init n))"
proof -
  obtain n where "in_memory a" "mem_view (api_init a r) = mem_init n"
    using setup_in_memory [OF assms, of r] by (elim conjE exE)
  then show ?thesis using serve_all_view [of a R nilFiles ne reqs "api_init a r"] by (intro exI [of _ n]) simp
qed

section \<open>Redis links the two programs\<close>

definition queue_settings :: "string list" where
  "queue_settings =
     [''THULE_QUEUE'', ''THULE_REDIS_ADDR'', ''THULE_REDIS_PASSWORD'', ''THULE_REDIS_DB'', ''THULE_REDIS_QUEUE'']"

lemma QueueFromEnv_cong:
  assumes "map env queue_settings = map env' queue_settings"
    and "ToLower (getEnv env ''THULE_QUEUE'' ''memory'') = ''redis''"
  shows "QueueFromEnv env' = QueueFromEnv env"
proof -
  have same: "getEnv env' k d = getEnv env k d" "getEnvInt env' k i = getEnvInt env k i" "env' k = env k"
    if "k \<in> set queue_settings" for k d i
  proof -
    show "env' k = env k" using assms(1) that by simp
    then show "getEnv env' k d = getEnv env k d" "getEnvInt env' k i = getEnvInt env k i"
      by (simp_all add: getEnv_def getEnvInt_def split: option.split)
  qed
  have "set queue_settings =
      {''THULE_QUEUE'', ''THULE_REDIS_ADDR'', ''THULE_REDIS_PASSWORD'', ''THULE_REDIS_DB'', ''THULE_REDIS_QUEUE''}"
    by (simp add: queue_settings_def)
  then show ?thesis using assms(2) same by (simp add: QueueFromEnv_def split: sum.split)
qed

lemma setup_redis:
  assumes "api_setup env = Some (Inr a)" and "ToLower (getEnv env ''THULE_QUEUE'' ''memory'') = ''redis''"
  obtains opts rq where "QueueFromEnv env = Some (Inr (UseRedis opts rq))" "apiJobs a = UseRedis opts rq"
  using assms by (auto simp: api_setup_def QueueFromEnv_def split: option.splits sum.splits if_splits)

lemma build_jobs:
  assumes "buildWorker ff fk up live C env root = Some (Inr w)"
  shows "QueueFromEnv env = Some (Inr (wpJobs w))"
  using assms by (auto simp: buildWorker_def split: option.splits sum.splits)

lemma setup_same_queue:
  assumes "api_setup env = Some (Inr a)" and "apiJobs a = UseRedis opts rq"
    and "buildWorker ff fk up live C env' root = Some (Inr w)" and "map env queue_settings = map env' queue_settings"
  shows "wpJobs w = UseRedis opts rq"
proof -
  have q: "QueueFromEnv env = Some (Inr (UseRedis opts rq))"
    using assms(1,2) by (auto simp: api_setup_def split: option.splits sum.splits)
  then have "ToLower (getEnv env ''THULE_QUEUE'' ''memory'') = ''redis''"
    by (auto simp: QueueFromEnv_def split: if_splits option.splits sum.splits)
  then show ?thesis using q QueueFromEnv_cong [OF assms(4)] build_jobs [OF assms(3)] by simp
qed

text \<open>
  C16. With Redis a job of the API reaches the worker: when the two programs are started with the
  same settings of the queue and its list is empty, the job the API sends for an event is what the
  worker's next call receives, with every field of the event.
\<close>

theorem redis_links_api_and_worker:
  assumes "api_setup env = Some (Inr a)" and "buildWorker ff fk up live C env' root = Some (Inr w)"
    and "map env queue_settings = map env' queue_settings"
    and "ToLower (getEnv env ''THULE_QUEUE'' ''memory'') = ''redis''"
    and "\<And>opts. redis_list (RPush (R opts)) (BLPop (R opts)) (entries opts)"
    and "\<And>opts k r. entries opts r k \<noteq> [] \<Longrightarrow> \<exists>res r'. BLPop (R opts) k r = (Some (Inr res), r')"
    and "\<And>opts k. entries opts (snd (queueS st)) k = []" and "int64_job (job_of_event ev)"
    and "enqueue_job (api_service R nilFiles a) c ev st = (HandleOk, st')"
  shows "fst (choice_dequeue R (wpJobs w) c' (m, snd (queueS st'))) = Dequeued (job_of_event ev)"
proof -
  obtain opts rq where q: "QueueFromEnv env = Some (Inr (UseRedis opts rq))" "apiJobs a = UseRedis opts rq"
    using setup_redis [OF assms(1,4)] by blast
  have w: "wpJobs w = UseRedis opts rq" using setup_same_queue [OF assms(1) q(2) assms(2,3)] .
  have sent: "RedisEnqueue (RPush (R opts)) rq nilFiles (job_of_event ev) (snd (queueS st)) = (Enqueued, snd (queueS st'))"
    using assms(9) q(2)
    by (auto simp: enqueue_job_def choice_enqueue_def commit_delivery_def case_prod_beta
        prod_eq_iff split: prod.splits enqueue_outcome.splits)
  have "holds_jobs (entries opts) rq (snd (queueS st)) []" using assms(7) by (simp add: holds_jobs_def)
  from enqueue_holds [OF assms(5) this _ _ sent]
  have held: "holds_jobs (entries opts) rq (snd (queueS st')) [job_of_event ev]"
    using assms(8) by (simp add: int64_job_def)
  then have "entries opts (snd (queueS st')) (rqKey rq) \<noteq> []" by (auto simp: holds_jobs_def)
  then obtain res r' where "BLPop (R opts) (rqKey rq) (snd (queueS st')) = (Some (Inr res), r')" using assms(6) by blast
  from dequeue_holds [OF assms(5) held this] show ?thesis
    by (auto simp: choice_dequeue_def w)
qed

text \<open>
  Unless told otherwise the API keeps its dedupe keys where its queue is: in the same Redis
  database when the queue is in Redis, so that several API processes share them, and in its own
  memory otherwise.
\<close>

theorem dedupe_follows_queue:
  assumes "api_setup env = Some (Inr a)" and "env ''THULE_DEDUPE'' = []"
  shows "case apiJobs a of
      UseRedis opts _ \<Rightarrow> \<exists>s. apiDedupe a = RedisDedupe opts s
    | UseMemory _ \<Rightarrow> apiDedupe a = MemoryDedupe NewMemoryDedupeStore"
proof -
  have "ToLower ''auto'' = ''auto''" by code_simp
  then have mode: "dedupe_mode env =
      (if ToLower (getEnv env ''THULE_QUEUE'' ''memory'') = ''redis'' then ''redis'' else ''memory'')"
    using assms(2) by (simp add: dedupe_mode_def getEnv_def Let_def)
  show ?thesis
    using assms(1) mode
    by (auto simp: api_setup_def QueueFromEnv_def DedupeFromEnv_def Let_def
        split: option.splits sum.splits if_splits)
qed

text \<open>
  A worker that is built without the tag \<^verbatim>\<open>live\<close>, as the quick start of the README runs it, never
  sees a cluster: the plan of a project lists every desired identifier as CREATE, whatever is
  deployed.
\<close>

theorem plain_build_plans_creates:
  assumes "buildWorker ff fk up False C env root = Some (Inr w)"
    and "live_resources (worker_cluster C K (wpCluster w)) conf desired = Inr actual"
  shows "map ChangeID (PlanChanges (project_plan p e conf desired actual)) = sorted_keys (map ID desired) \<and>
    list_all (\<lambda>ch. ChangeAction ch = Create) (PlanChanges (project_plan p e conf desired actual))"
proof -
  have "wpCluster w = MemoryCluster \<lparr>ByClusterNS = (\<lambda>_. [])\<rparr>"
    using assms(1) by (auto simp: buildWorker_def newClusterReader_def split: option.splits sum.splits)
  then have "actual = []"
    using assms(2) by (simp add: worker_cluster_def live_resources_def ListResources_def)
  then show ?thesis
    using Compute_nothing_live [of e desired "diff_options conf"] by (simp add: project_plan_def case_prod_beta)
qed

section \<open>The worker as it is built\<close>

text \<open>
  The jobs in the Redis list of a queue, and that every entry is one. The second law of
  \<^const>\<open>job_source\<close> needs a client that waits while the list is empty, as \<^verbatim>\<open>BLPOP\<close> without a
  timeout does.
\<close>

definition redis_jobs :: "('r \<Rightarrow> string \<Rightarrow> string list) \<Rightarrow> RedisQueue \<Rightarrow> MemoryQueue \<times> 'r \<Rightarrow> Job list" where
  "redis_jobs entries rq st = List.map_filter unmarshal_job (entries (snd st) (rqKey rq))"

definition all_jobs :: "('r \<Rightarrow> string \<Rightarrow> string list) \<Rightarrow> RedisQueue \<Rightarrow> MemoryQueue \<times> 'r \<Rightarrow> bool" where
  "all_jobs entries rq st \<longleftrightarrow> list_all (\<lambda>v. unmarshal_job v \<noteq> None) (entries (snd st) (rqKey rq))"

definition blocking_list ::
  "(string \<Rightarrow> 'r \<Rightarrow> string list result option \<times> 'r) \<Rightarrow> ('r \<Rightarrow> string \<Rightarrow> string list) \<Rightarrow> bool" where
  "blocking_list blpop entries \<longleftrightarrow>
     (\<forall>k r. if entries r k = [] then blpop k r = (None, r) else \<exists>res r'. blpop k r = (Some (Inr res), r'))"

lemma map_filter_all:
  "map f xs = map Some ys \<Longrightarrow> List.map_filter f xs = ys \<and> list_all (\<lambda>x. f x \<noteq> None) xs"
proof (induction xs arbitrary: ys)
  case (Cons x xs)
  then obtain y zs where "ys = y # zs" by (cases ys) auto
  then show ?case using Cons by (simp add: List.map_filter_simps)
qed (simp add: List.map_filter_simps)

lemma redis_job_source:
  assumes laws: "redis_list (RPush (R opts)) (BLPop (R opts)) entries" and bl: "blocking_list (BLPop (R opts)) entries"
  shows "job_source (choice_dequeue R (UseRedis opts rq)) (redis_jobs entries rq) (all_jobs entries rq)"
proof
  fix st :: "MemoryQueue \<times> 'a" and c :: Call and j js
  assume good: "all_jobs entries rq st" and js: "redis_jobs entries rq st = j # js"
  have "entries (snd st) (rqKey rq) \<noteq> []" using js by (auto simp: redis_jobs_def List.map_filter_simps)
  then obtain res r' where pop: "BLPop (R opts) (rqKey rq) (snd st) = (Some (Inr res), r')"
    using bl unfolding blocking_list_def by meson
  then obtain v vs where e: "entries (snd st) (rqKey rq) = v # vs" "res = [rqKey rq, v]"
      "entries r' = (entries (snd st))(rqKey rq := vs)"
    using laws unfolding redis_list_def by blast
  then obtain j' where "unmarshal_job v = Some j'" using good by (auto simp: all_jobs_def)
  then show "\<exists>st'. choice_dequeue R (UseRedis opts rq) c st = (Dequeued j, st') \<and>
      redis_jobs entries rq st' = js \<and> all_jobs entries rq st'"
    using e pop good js
    by (auto simp: choice_dequeue_def RedisDequeue_def redis_jobs_def all_jobs_def List.map_filter_simps)
next
  fix st :: "MemoryQueue \<times> 'a" and c :: Call
  assume good: "all_jobs entries rq st" and none: "redis_jobs entries rq st = []"
  have "entries (snd st) (rqKey rq) = []"
    using good none by (cases "entries (snd st) (rqKey rq)")
      (auto simp: redis_jobs_def all_jobs_def List.map_filter_simps split: option.splits)
  then have "BLPop (R opts) (rqKey rq) (snd st) = (None, snd st)" using bl unfolding blocking_list_def by metis
  then show "choice_dequeue R (UseRedis opts rq) c st = (DequeueBlocked, st)"
    by (simp add: choice_dequeue_def RedisDequeue_def)
qed

text \<open>
  C10. A worker on Redis works off its list: started on a list whose entries are the given jobs and
  followed for some rounds, it takes that many of them, each once and in order, whatever happens to
  the ones before, and waits when there are no more.
\<close>

theorem worker_drains_redis:
  assumes "redis_list (RPush (R opts)) (BLPop (R opts)) entries" and "blocking_list (BLPop (R opts)) entries"
    and "buildWorker from_file from_key url_parse live C env (getEnv env ''THULE_REPO_ROOT'' ''.'') = Some (Inr w)"
    and "wpJobs w = UseRedis opts rq" and "holds_jobs entries rq r js"
    and "list_all (\<lambda>cw. ctxErr (fst cw) = None) rounds"
  shows "\<exists>rs st. worker_main R http url_parse G C K from_file from_key live env rounds r g h = Some (Inr (rs, st)) \<and>
    map round_job rs = map Some (take (length rounds) js) @ replicate (length rounds - length js) None"
proof -
  let ?d = "worker_deps R http url_parse G C K (getEnv env ''THULE_REPO_ROOT'' ''.'') w"
  let ?q = "(\<lparr>chan = [], buffer = 0\<rparr>, r)"
  obtain rs st where run: "runWorker ?d env rounds ?q g (worker_start h) = (rs, st)" by force
  have src: "job_source (choice_dequeue R (UseRedis opts rq)) (redis_jobs entries rq) (all_jobs entries rq)"
    using assms(1,2) by (rule redis_job_source)
  have held: "map unmarshal_job (entries r (rqKey rq)) = map Some js" using assms(5) by (simp add: holds_jobs_def)
  have "redis_jobs entries rq ?q = js" "all_jobs entries rq ?q"
    using map_filter_all [OF held] by (simp_all add: redis_jobs_def all_jobs_def)
  moreover have "depJobs ?d = choice_dequeue R (UseRedis opts rq)" by (simp add: worker_deps_def assms(4))
  ultimately have "map round_job rs = map Some (take (length rounds) js) @ replicate (length rounds - length js) None"
    using job_source.drains [OF src _ assms(6) _ run] by simp
  then show ?thesis using assms(3,4) run by (simp add: worker_main_def)
qed

section \<open>From the webhook to the planner\<close>

text \<open>
  C5. An accepted event reaches the planner: when the API accepts an event and queues it in Redis,
  behind the jobs already in the list, and a worker with the same queue settings is started and
  followed for one round more than there were jobs before it, that round plans the event, with every
  field as it came and with exactly its changed files when it names any, or fails because the commit
  cannot be synced. An event without files is planned with files the worker looks up.
\<close>

theorem accepted_event_is_planned:
  assumes "api_setup env = Some (Inr a)" and "apiJobs a = UseRedis opts rq"
    and "buildWorker from_file from_key url_parse live C env' (getEnv env' ''THULE_REPO_ROOT'' ''.'') = Some (Inr w)"
    and "map env queue_settings = map env' queue_settings"
    and "redis_list (RPush (R opts)) (BLPop (R opts)) (entries opts)" and "blocking_list (BLPop (R opts)) (entries opts)"
    and "holds_jobs (entries opts) rq (snd (queueS st)) js" and "int64_job (job_of_event ev)"
    and "HandleMergeRequestEvent (api_service R nilFiles a) perm c ev st = (HandleOk, st')"
    and "queueS st' \<noteq> queueS st"
    and "list_all (\<lambda>cw. ctxErr (fst cw) = None) rounds" and "length rounds = Suc (length js)"
  shows "\<exists>rs r wst. worker_main R http url_parse G C K from_file from_key live env' rounds (snd (queueS st')) g h
      = Some (Inr (rs @ [r], wst)) \<and> length rs = length js \<and>
    ((\<exists>evt err. r = Planned (job_of_event ev) evt err \<and> planned_event ev evt) \<or>
     (\<exists>e g0 g1. r = SyncFailed (job_of_event ev) e \<and> Sync G (wpSyncer w) (HeadSHA ev) g0 = (Some e, g1)))"
proof -
  let ?d = "worker_deps R http url_parse G C K (getEnv env' ''THULE_REPO_ROOT'' ''.'') w"
  let ?q = "(\<lparr>chan = [], buffer = 0\<rparr>, snd (queueS st'))"
  have w: "wpJobs w = UseRedis opts rq"
    using setup_same_queue [OF assms(1,2,3,4)] .
  obtain q where q: "choice_enqueue R nilFiles (apiJobs a) c (job_of_event ev) (queueS st) = (Enqueued, q)" "queueS st' = q"
    using accepted_sends [OF assms(9,10)] by (metis api_service_sel(3))
  then have "RedisEnqueue (RPush (R opts)) rq nilFiles (job_of_event ev) (snd (queueS st)) = (Enqueued, snd (queueS st'))"
    using assms(2) by (cases "queueS st'") (auto simp: choice_enqueue_def split: prod.splits)
  from enqueue_holds [OF assms(5,7) _ _ this]
  have held: "holds_jobs (entries opts) rq (snd (queueS st')) (js @ [job_of_event ev])"
    using assms(8) by (simp add: int64_job_def)
  have src: "job_source (choice_dequeue R (UseRedis opts rq)) (redis_jobs (entries opts) rq) (all_jobs (entries opts) rq)"
    using assms(5,6) by (rule redis_job_source)
  have dj: "depJobs ?d = choice_dequeue R (UseRedis opts rq)" by (simp add: worker_deps_def w)
  have start: "redis_jobs (entries opts) rq ?q = js @ [job_of_event ev]" "all_jobs (entries opts) rq ?q"
    using map_filter_all [OF held [unfolded holds_jobs_def]] by (simp_all add: redis_jobs_def all_jobs_def)
  obtain cws cw where rounds: "rounds = cws @ [cw]" using assms(12) by (cases rounds rule: rev_cases) auto
  have ctx: "list_all (\<lambda>cw. ctxErr (fst cw) = None) cws" "ctxErr (fst cw) = None" "length cws = length js"
    using assms(11,12) by (simp_all add: rounds)
  obtain rs wst where run: "runWorker ?d env' (cws @ [cw]) ?q g (worker_start h) = (rs, wst)" by force
  obtain rs' every st1 where
    last: "rs = rs' @ [fst (handle_job ?d env' every (clock (fst cw)) (snd cw) (job_of_event ev) st1)]" "length rs' = length js"
    using job_source.handles_last [OF src dj ctx(1,2) start(2,1) ctx(3) run] by blast
  have main: "worker_main R http url_parse G C K from_file from_key live env' rounds (snd (queueS st')) g h = Some (Inr (rs, wst))"
    using assms(3) w run by (simp add: worker_main_def rounds)
  have sync: "sy = repo_syncer G (wpSyncer w)" if "depSyncer ?d = Some sy" for sy
    using that by (simp add: worker_deps_def)
  show ?thesis
  proof (cases rule: handle_job_result [of ?d env' every "clock (fst cw)" "snd cw" ev st1])
    case (planned evt err)
    then show ?thesis using main last by blast
  next
    case (failed sy e g1)
    then have "Sync G (wpSyncer w) (HeadSHA ev) (wg st1) = (Some e, g1)"
      using sync [OF failed(2)] by (simp add: repo_syncer_def)
    then show ?thesis using failed(1) main last by blast
  qed
qed

section \<open>Every plan is reported\<close>

text \<open>Without a GitLab token the worker keeps comments and checks in memory, with the same contracts.\<close>

interpretation local_worker: planner_parts Start Complete AddArtifact SetLatestSHA IsStale runs latestSHA run_inv free_ids
  "worker_comments http url_parse None" "\<lambda>mr st. ListComments mr (fst st)"
  "worker_statuses http url_parse None" "\<lambda>mr sha st. ListStatuses mr sha (fst st)"
  for http :: "'h http_client" and url_parse
proof unfold_locales
  fix mr mr' :: int and body :: string and st st' :: "MemoryCommentStore \<times> 'h" and c
  assume "worker_comments http url_parse None mr body st = (c, st')"
  then have post: "PostOrSupersede mr body (fst st) = (c, fst st')"
    by (auto simp: worker_comments_def case_prod_beta)
  then show "CommentMR c = mr \<and> CommentBody c = body \<and> \<not> Superseded c \<and>
      (\<exists>old. ListComments mr (fst st') = old @ [c] \<and> list_all Superseded old)"
    by (rule mem_comments.post_new)
  show "mr' \<noteq> mr \<Longrightarrow> ListComments mr' (fst st') = ListComments mr' (fst st)"
    using mem_comments.post_other [OF post] .
qed (simp add: worker_statuses_def mem_status.set_list)

lemma build_without_token:
  assumes "buildWorker ff fk up live C env root = Some (Inr w)" and "TrimSpace (env ''THULE_GITLAB_TOKEN'') = []"
  shows "wpGitLab w = None"
  using assms by (auto simp: buildWorker_def build_gitlab_def GitLabOptionsFromEnv_def split: option.splits sum.splits)

lemma planned_by:
  assumes "worker_round (worker_deps R http url_parse G C K root w) env every cw st = (Planned j evt err, st')"
  obtains s where "PlanForEvent (rwPerm (snd cw)) (worker_planner http url_parse (wpGitLab w) root)
      (\<lambda>i. (rwWorlds (snd cw) i)\<lparr>wcluster := worker_cluster C K (wpCluster w)\<rparr>) (rwNow (snd cw)) evt s = (err, wp st')"
    and "s = wp st" and "MergeReqID evt = jMergeReqID j" and "HeadSHA evt = jHeadSHA j"
proof -
  let ?d = "worker_deps R http url_parse G C K root w"
  obtain jq where "handle_job ?d env every (clock (fst cw)) (snd cw) j (st\<lparr>wq := jq\<rparr>) = (Planned j evt err, st')"
    using assms by (rule planned_round_job)
  from handle_planned [OF this] obtain st1 where s1: "sync_job ?d every (clock (fst cw)) j (st\<lparr>wq := jq\<rparr>) = (None, st1)"
    and evt: "evt = job_event j (job_files ?d env (snd cw) j (wg st1))"
    and plan: "(err, wp st') = depPlan ?d (snd cw) (wg st1) evt (wp st1)" by blast
  have "wp st1 = wp st"
    using s1 by (auto simp: sync_job_def run_maintenance_def split: option.splits prod.splits if_splits)
  then show ?thesis using that [of "wp st"] plan evt by (simp add: worker_deps_def job_event_def)
qed

text \<open>
  C11. Every job a worker without GitLab plans is reported: after the round, the last status of the
  job's commit is success or failed as the planner's result says; on success exactly one comment is in
  force on its merge request, and on failure the comments are untouched. This holds while no one
  else uses the run store and there are run numbers left.
\<close>

theorem worker_reports_plan:
  assumes "buildWorker from_file from_key url_parse live C env root = Some (Inr w)"
    and "TrimSpace (env ''THULE_GITLAB_TOKEN'') = []"
    and "worker_round (worker_deps R http url_parse G C K root w) env every cw st = (Planned j evt err, st')"
    and "alone (rwWorlds (snd cw))" and "run_inv (runsS (wp st))"
    and "int (length (DiscoverFromChangedFiles (rwPerm (snd cw)) (ChangedFiles evt))) < 2 ^ 63 - nextRunID (runsS (wp st))"
  shows "ListStatuses (jMergeReqID j) (jHeadSHA j) (fst (statusS (wp st'))) \<noteq> [] \<and>
    StatusState (last (ListStatuses (jMergeReqID j) (jHeadSHA j) (fst (statusS (wp st')))))
      = (if err = None then CheckSuccess else CheckFailed) \<and>
    (if err = None
     then \<exists>c. filter (\<lambda>c. \<not> Superseded c) (ListComments (jMergeReqID j) (fst (commentsS (wp st')))) = [c]
     else commentsS (wp st') = commentsS (wp st))"
proof -
  let ?p = "worker_planner http url_parse (wpGitLab w) root"
  let ?ws = "\<lambda>i. (rwWorlds (snd cw) i)\<lparr>wcluster := worker_cluster C K (wpCluster w)\<rparr>"
  have plan: "PlanForEvent (rwPerm (snd cw)) ?p ?ws (rwNow (snd cw)) evt (wp st) = (err, wp st')"
    and id: "MergeReqID evt = jMergeReqID j" "HeadSHA evt = jHeadSHA j"
    using planned_by [OF assms(3)] by metis+
  have p: "plannerRuns ?p = Some mem_runs.run_ops" "plannerComments ?p = Some (worker_comments http url_parse None)"
      "plannerStatus ?p = Some (worker_statuses http url_parse None)"
    using build_without_token [OF assms(1,2)] by (simp_all add: worker_planner_def mem_run_ops_eq)
  have alone: "alone ?ws" using assms(4) by (simp add: alone_def)
  have vis: "mem_runs.visited (rwPerm (snd cw)) evt \<le> free_ids (runsS (wp st))"
    using assms(6) by (simp add: mem_runs.visited_def free_ids_def)
  show ?thesis
    using local_worker.plan_reports [OF p(1) alone assms(5) vis p(2,3) plan]
    by (auto simp: local_worker.cs.active_def local_worker.ss.current_def id split: if_splits)
qed

section \<open>Examples\<close>

text \<open>No settings at all, and the queue in Redis.\<close>

definition default_parts :: api_parts where
  "default_parts =
     \<lparr>apiAddr = '':8080'', apiSecret = [], apiJobs = UseMemory \<lparr>chan = [], buffer = 100\<rparr>,
      apiDedupe = MemoryDedupe NewMemoryDedupeStore, apiTTL = 300 * 10 ^ 9\<rparr>"

definition redis_env :: environ where
  "redis_env k = (if k = ''THULE_QUEUE'' then ''redis'' else [])"

definition redis_parts :: api_parts where
  "redis_parts =
     \<lparr>apiAddr = '':8080'', apiSecret = [],
      apiJobs = UseRedis \<lparr>Addr = ''127.0.0.1:6379'', Password = [], DB = 0\<rparr> (NewRedisQueue ''thule:jobs''),
      apiDedupe = RedisDedupe \<lparr>Addr = ''127.0.0.1:6379'', Password = [], DB = 0\<rparr> (NewRedisDedupeStore ''thule:dedupe:''),
      apiTTL = 300 * 10 ^ 9\<rparr>"

lemma lower_case: "list_all (\<lambda>c. lower_char c = c) ''memoryautodis''"
  by code_simp

lemmas lower_words = lower_case [simplified]

lemma default_setup:
  "api_setup (\<lambda>_. []) = Some (Inr default_parts)" "dedupe_mode (\<lambda>_. []) = ''memory''"
  "ToLower (getEnv (\<lambda>_. []) ''THULE_QUEUE'' ''memory'') \<noteq> ''redis''"
  by (simp_all add: api_setup_def QueueFromEnv_def getEnv_def getEnvInt_def NewMemoryQueue_def DedupeFromEnv_def
      dedupe_mode_def lower_words ParseDuration_5m default_parts_def)

lemma redis_setup: "api_setup redis_env = Some (Inr redis_parts)"
  by (simp add: api_setup_def QueueFromEnv_def getEnv_def getEnvInt_def DedupeFromEnv_def
      dedupe_mode_def lower_words ParseDuration_5m redis_parts_def redis_env_def)

definition list_redis :: "(string \<Rightarrow> string list) redis" where
  "list_redis =
     \<lparr>RPush = list_rpush, BLPop = list_blpop, SetNX = (\<lambda>k v ttl m. (Inr True, m)), Del = (\<lambda>k m. (None, m))\<rparr>"

lemma list_redis_laws:
  "redis_list (RPush list_redis) (BLPop list_redis) (\<lambda>m. m)" "blocking_list (BLPop list_redis) (\<lambda>m. m)"
  by (auto simp: redis_list_def blocking_list_def list_redis_def list_rpush_def list_blpop_def split: list.splits)

definition no_cloud :: "(unit, unit) cloud" where
  "no_cloud =
     \<lparr>FindDefaultCredentials = None, NewService = None, StatFile = (\<lambda>_. StatNotExist),
      BuildConfigFromFlags = (\<lambda>_. Inl []), InClusterConfig = Inl [], ListClusters = (\<lambda>_. Inr []),
      GKEConfig = (\<lambda>_ _. ()), NewDynamicClient = (\<lambda>_. None), NewDiscoveryClient = (\<lambda>_. None),
      MakeClient = (\<lambda>_. ())\<rparr>"

definition plain_worker :: "queue_choice \<Rightarrow> (unit, unit) worker_parts" where
  "plain_worker jq =
     \<lparr>wpJobs = jq, wpSyncer = NewSyncer [] ''master'' ''.'' NoAuth, wpGitLab = None,
      wpCluster = MemoryCluster \<lparr>ByClusterNS = (\<lambda>_. [])\<rparr>\<rparr>"

lemma plain_workers:
  "buildWorker (\<lambda>_ _ _. Inl []) (\<lambda>_ _ _. Inl []) (\<lambda>_. Inl []) False no_cloud redis_env ''.''
     = Some (Inr (plain_worker (apiJobs redis_parts)))"
  "buildWorker (\<lambda>_ _ _. Inl []) (\<lambda>_ _ _. Inl []) (\<lambda>_. Inl []) False no_cloud (\<lambda>_. []) ''.''
     = Some (Inr (plain_worker (apiJobs default_parts)))"
  by (simp_all add: default_parts_def NewMemoryQueue_def buildWorker_def QueueFromEnv_def AuthFromEnv_def build_gitlab_def GitLabOptionsFromEnv_def
      newClusterReader_def getEnv_def getEnvInt_def redis_env_def lower_words plain_worker_def redis_parts_def)

theorem api_refines_service_witness:
  "\<exists>n. mem_view (snd (serve_all (\<lambda>_. list_redis) True default_parts plain_numbers
        [(\<lambda>xs. xs, ex_call, ''/webhook'', sample_request ''open'')] (api_init default_parts (\<lambda>_. [])))) =
     snd (run_service (apiTTL default_parts)
       (List.map_filter (request_input default_parts plain_numbers)
         [(\<lambda>xs. xs, ex_call, ''/webhook'', sample_request ''open'')]) (mem_init n))"
  by (rule api_refines_service [OF default_setup(1) default_setup(3) default_setup(2)])

theorem redis_links_api_and_worker_witness:
  "fst (choice_dequeue (\<lambda>_. list_redis) (wpJobs (plain_worker (apiJobs redis_parts))) ex_call
     (\<lparr>chan = [], buffer = 0\<rparr>,
      snd (queueS (snd (enqueue_job (api_service (\<lambda>_. list_redis) True redis_parts) ex_call
        (ex_event ''d1'' 7 [''a'']) (api_init redis_parts (\<lambda>_. []))))))) =
   Dequeued (job_of_event (ex_event ''d1'' 7 [''a'']))"
proof (rule redis_links_api_and_worker [OF redis_setup plain_workers(1), where entries = "\<lambda>_ m. m" and c = ex_call
    and st = "api_init redis_parts (\<lambda>_. [])" and nilFiles = True])
  show "ToLower (getEnv redis_env ''THULE_QUEUE'' ''memory'') = ''redis''"
    by (simp add: getEnv_def redis_env_def lower_words)
  show "redis_list (RPush list_redis) (BLPop list_redis) (\<lambda>m. m)" by (rule list_redis_laws)
  show "\<exists>res r'. BLPop list_redis k m = (Some (Inr res), r')" if "m k \<noteq> []" for k m
    using that by (cases "m k") (auto simp: list_redis_def list_blpop_def)
  show "int64_job (job_of_event (ex_event ''d1'' 7 [''a'']))"
    by (simp add: int64_job_def ex_event_def)
  show "enqueue_job (api_service (\<lambda>_. list_redis) True redis_parts) ex_call (ex_event ''d1'' 7 [''a''])
      (api_init redis_parts (\<lambda>_. [])) =
    (HandleOk, snd (enqueue_job (api_service (\<lambda>_. list_redis) True redis_parts) ex_call (ex_event ''d1'' 7 [''a''])
      (api_init redis_parts (\<lambda>_. []))))"
    by (simp add: enqueue_job_def choice_enqueue_def redis_parts_def RedisEnqueue_def Marshal_job list_redis_def
        list_rpush_def)
qed (simp_all add: api_init_def)

theorem dedupe_follows_queue_witness:
  "\<exists>s. apiDedupe redis_parts = RedisDedupe \<lparr>Addr = ''127.0.0.1:6379'', Password = [], DB = 0\<rparr> s"
proof -
  have "redis_env ''THULE_DEDUPE'' = []" by (simp add: redis_env_def)
  from dedupe_follows_queue [OF redis_setup this]
  show ?thesis by (simp only: redis_parts_def api_parts.simps queue_choice.case)
qed

theorem plain_build_plans_creates_witness:
  "list_all (\<lambda>ch. ChangeAction ch = Create)
     (PlanChanges (project_plan (worker_planner (\<lambda>_ h. (Inl [], h)) (\<lambda>_. Inl []) None ''.'' :: (_, _ \<times> unit, _ \<times> unit) Planner)
       sample_diff_env sample_config [sample_resource] []))"
proof -
  have "live_resources (worker_cluster no_cloud (pod_kube (\<lambda>_. GetNotFound)) (wpCluster (plain_worker (apiJobs redis_parts))))
      sample_config [sample_resource] = Inr []"
    by (simp add: live_resources_def worker_cluster_def plain_worker_def ListResources_def)
  from plain_build_plans_creates [OF plain_workers(1) this] show ?thesis by blast
qed

text \<open>A round that finds two sample jobs in Redis, and one that plans a job of the in-memory queue.\<close>

definition sample_round_world :: "unit round_world" where
  "sample_round_world = \<lparr>rwPerm = rev, rwWorlds = (\<lambda>_. sample_world (\<lambda>r. r)), rwNow = 0, rwHTTP = ()\<rparr>"

definition no_http :: "unit http_client" where
  "no_http = (\<lambda>_ h. (Inl ''no network'', h))"

definition job_lists :: "string \<Rightarrow> string list" where
  "job_lists k = (if k = ''thule:jobs'' then map (\<lambda>j. json_text (job_any True j)) sample_jobs else [])"

theorem worker_drains_redis_witness:
  "\<exists>rs st. worker_main (\<lambda>_. list_redis) no_http (\<lambda>_. Inl []) (sample_git :: (_, unit auth_method) git) no_cloud (pod_kube (\<lambda>_. GetNotFound))
      (\<lambda>_ _ _. Inl []) (\<lambda>_ _ _. Inl []) False redis_env
      [(ex_call, sample_round_world), (ex_call, sample_round_world), (ex_call, sample_round_world)]
      job_lists [] () = Some (Inr (rs, st)) \<and>
    map round_job rs = map Some sample_jobs @ [None]"
proof -
  let ?rounds = "[(ex_call, sample_round_world), (ex_call, sample_round_world), (ex_call, sample_round_world)]"
  have root: "getEnv redis_env ''THULE_REPO_ROOT'' ''.'' = ''.''" by (simp add: getEnv_def redis_env_def)
  have built: "buildWorker (\<lambda>_ _ _. Inl []) (\<lambda>_ _ _. Inl []) (\<lambda>_. Inl []) False no_cloud redis_env
      (getEnv redis_env ''THULE_REPO_ROOT'' ''.'') = Some (Inr (plain_worker (apiJobs redis_parts)))"
    unfolding root by (rule plain_workers(1))
  have jq: "wpJobs (plain_worker (apiJobs redis_parts)) =
      UseRedis \<lparr>Addr = ''127.0.0.1:6379'', Password = [], DB = 0\<rparr> (NewRedisQueue ''thule:jobs'')"
    by (simp add: plain_worker_def redis_parts_def)
  have "unmarshal_job (json_text (job_any True j)) = Some j" if "j \<in> set sample_jobs" for j
    using that by (intro unmarshal_job_text) (auto simp: sample_jobs_def empty_job_def)
  then have held: "holds_jobs (\<lambda>m. m) (NewRedisQueue ''thule:jobs'') job_lists sample_jobs"
    by (simp add: holds_jobs_def job_lists_def NewRedisQueue_def)
  have ctx: "list_all (\<lambda>cw. ctxErr (fst cw) = None) ?rounds" by (simp add: ex_call_def)
  have "length sample_jobs = 2" "length ?rounds = 3" by (simp_all add: sample_jobs_def)
  then have "map Some (take (length ?rounds) sample_jobs) @ replicate (length ?rounds - length sample_jobs) None
      = map Some sample_jobs @ [None]"
    by (simp add: numeral_eq_Suc)
  then show ?thesis
    using worker_drains_redis [OF list_redis_laws built jq held ctx,
      of no_http sample_git "pod_kube (\<lambda>_. GetNotFound)" "[]" "()"] by (simp only:)
qed

text \<open>One event sent by the API and planned by the worker.\<close>

lemma redis_accepts:
  "\<exists>st'. HandleMergeRequestEvent (api_service (\<lambda>_. list_redis) True redis_parts) (\<lambda>xs. xs) ex_call (ex_event ''d1'' 7 [''a''])
      (api_init redis_parts (\<lambda>_. [])) = (HandleOk, st') \<and> queueS st' \<noteq> queueS (api_init redis_parts (\<lambda>_. []))"
proof -
  obtain l where a: "Acquire ''r'' ''.'' 7 NewMemoryLocker = ((True, 7), l)"
    using Acquire_granted [of NewMemoryLocker "''r''" "''.''" 7] by (metis lock_owner_New prod.collapse)
  have "(\<lambda>_. [])(k := [v]) \<noteq> (\<lambda>_. [])" for k :: string and v :: string by (metis fun_upd_same list.distinct(1))
  then show ?thesis
    using a ex_discover
    by (simp add: HandleMergeRequestEvent_def handle_plan_def lock_and_enqueue_def enqueue_job_def mem_service_def
        svc_defs eval_event api_init_def Reserve_def NewMemoryDeliveryStore_def choice_enqueue_def choice_dedupe_def
        redis_parts_def RedisEnqueue_def RedisDedupeReserve_def Marshal_job list_redis_def list_rpush_def)
qed

theorem accepted_event_is_planned_witness:
  "\<exists>err wst. worker_main (\<lambda>_. list_redis) no_http (\<lambda>_. Inl []) (sample_git :: (_, unit auth_method) git) no_cloud
      (pod_kube (\<lambda>_. GetNotFound)) (\<lambda>_ _ _. Inl []) (\<lambda>_ _ _. Inl []) False redis_env [(ex_call, sample_round_world)]
      (snd (queueS (snd (HandleMergeRequestEvent (api_service (\<lambda>_. list_redis) True redis_parts) (\<lambda>xs. xs) ex_call
         (ex_event ''d1'' 7 [''a'']) (api_init redis_parts (\<lambda>_. [])))))) [] ()
    = Some (Inr ([Planned (job_of_event (ex_event ''d1'' 7 [''a''])) (ex_event ''d1'' 7 [''a'']) err], wst))"
proof -
  let ?ev = "ex_event ''d1'' 7 [''a'']" and ?w = "plain_worker (apiJobs redis_parts)"
  obtain st' where acc: "HandleMergeRequestEvent (api_service (\<lambda>_. list_redis) True redis_parts) (\<lambda>xs. xs) ex_call ?ev
      (api_init redis_parts (\<lambda>_. [])) = (HandleOk, st')" "queueS st' \<noteq> queueS (api_init redis_parts (\<lambda>_. []))"
    using redis_accepts by blast
  have root: "getEnv redis_env ''THULE_REPO_ROOT'' ''.'' = ''.''" by (simp add: getEnv_def redis_env_def)
  have built: "buildWorker (\<lambda>_ _ _. Inl []) (\<lambda>_ _ _. Inl []) (\<lambda>_. Inl []) False no_cloud redis_env
      (getEnv redis_env ''THULE_REPO_ROOT'' ''.'') = Some (Inr ?w)"
    unfolding root by (rule plain_workers(1))
  have jq: "apiJobs redis_parts = UseRedis \<lparr>Addr = ''127.0.0.1:6379'', Password = [], DB = 0\<rparr> (NewRedisQueue ''thule:jobs'')"
    by (simp add: redis_parts_def)
  have none: "holds_jobs (\<lambda>m. m) (NewRedisQueue ''thule:jobs'') (snd (queueS (api_init redis_parts (\<lambda>_. [])))) []"
    by (simp add: holds_jobs_def api_init_def)
  have int: "int64_job (job_of_event ?ev)" by (simp add: int64_job_def ex_event_def)
  have ctx: "list_all (\<lambda>cw. ctxErr (fst cw) = None) [(ex_call, sample_round_world)]"
      "length [(ex_call, sample_round_world)] = Suc (length ([] :: Job list))" by (simp_all add: ex_call_def)
  have off: "Sync G (wpSyncer ?w) sha g0 = (None, g0)" for G :: "(string, unit auth_method) git" and sha g0
    by (simp add: plain_worker_def NewSyncer_def Sync_def)
  have files: "planned_event ?ev evt \<Longrightarrow> evt = ?ev" for evt by (auto simp: planned_event_def ex_event_def)
  obtain rs r wst where main: "worker_main (\<lambda>_. list_redis) no_http (\<lambda>_. Inl []) (sample_git :: (_, unit auth_method) git) no_cloud
      (pod_kube (\<lambda>_. GetNotFound)) (\<lambda>_ _ _. Inl []) (\<lambda>_ _ _. Inl []) False redis_env [(ex_call, sample_round_world)]
      (snd (queueS st')) [] () = Some (Inr (rs @ [r], wst))" "length rs = length ([] :: Job list)"
    and r: "(\<exists>evt err. r = Planned (job_of_event ?ev) evt err \<and> planned_event ?ev evt) \<or>
     (\<exists>e g0 g1. r = SyncFailed (job_of_event ?ev) e \<and>
        Sync (sample_git :: (_, unit auth_method) git) (wpSyncer ?w) (HeadSHA ?ev) g0 = (Some e, g1))"
    using accepted_event_is_planned [where entries = "\<lambda>_ m. m", OF redis_setup jq built refl list_redis_laws none int acc ctx,
        of no_http sample_git "pod_kube (\<lambda>_. GetNotFound)" "[]" "()"] by (elim exE conjE)
  obtain err where "r = Planned (job_of_event ?ev) ?ev err" using r off files by auto
  then show ?thesis using main acc(1) by auto
qed

definition no_redis :: "unit redis" where
  "no_redis =
     \<lparr>RPush = (\<lambda>_ _ r. (Some ''refused'', r)), BLPop = (\<lambda>_ r. (Some (Inl ''refused''), r)),
      SetNX = (\<lambda>_ _ _ r. (Inl ''refused'', r)), Del = (\<lambda>_ r. (Some ''refused'', r))\<rparr>"

definition sample_worker_state :: "(MemoryQueue \<times> unit, string, unit WorkerPlanState) workerState" where
  "sample_worker_state =
     \<lparr>wq = (\<lparr>chan = [job_of_event sample_event], buffer = 100\<rparr>, ()), wg = [], wp = worker_start (),
      jobsSinceMaintenance = 0\<rparr>"

theorem worker_reports_plan_witness:
  "\<exists>err st'. worker_round (worker_deps (\<lambda>_. no_redis) no_http (\<lambda>_. Inl []) sample_git no_cloud (pod_kube (\<lambda>_. GetNotFound)) ''.''
      (plain_worker (apiJobs default_parts))) (\<lambda>_. []) 200 (ex_call, sample_round_world) sample_worker_state
      = (Planned (job_of_event sample_event) sample_event err, st') \<and>
    StatusState (last (ListStatuses 5 ''abc'' (fst (statusS (wp st'))))) = (if err = None then CheckSuccess else CheckFailed)"
proof -
  let ?d = "worker_deps (\<lambda>_. no_redis) no_http (\<lambda>_. Inl []) sample_git no_cloud (pod_kube (\<lambda>_. GetNotFound)) ''.''
      (plain_worker (apiJobs default_parts))"
  have off: "\<not> sEnabled s" if "depSyncer ?d = Some s" for s
    using that by (auto simp: worker_deps_def repo_syncer_def plain_worker_def NewSyncer_def Enabled_def)
  have "ChangedFiles sample_event \<noteq> []" by (simp add: sample_event_def)
  then have "\<exists>err. fst (handle_job ?d (\<lambda>_. []) 200 (clock ex_call) sample_round_world (job_of_event sample_event)
      (sample_worker_state\<lparr>wq := (\<lparr>chan = [], buffer = 100\<rparr>, ())\<rparr>)) = Planned (job_of_event sample_event) sample_event err"
    by (cases rule: handle_job_result [of ?d "\<lambda>_. []" 200 "clock ex_call" sample_round_world sample_event
          "sample_worker_state\<lparr>wq := (\<lparr>chan = [], buffer = 100\<rparr>, ())\<rparr>"])
      (auto simp: planned_event_def dest: off)
  moreover have "depJobs ?d ex_call (wq sample_worker_state)
      = (Dequeued (job_of_event sample_event), (\<lparr>chan = [], buffer = 100\<rparr>, ()))"
    by (simp add: worker_deps_def plain_worker_def default_parts_def choice_dequeue_def Dequeue_def ex_call_def
        sample_worker_state_def)
  ultimately obtain err st' where r: "worker_round ?d (\<lambda>_. []) 200 (ex_call, sample_round_world) sample_worker_state
      = (Planned (job_of_event sample_event) sample_event err, st')"
    by (simp add: worker_round_def) (metis prod.collapse)
  have "alone (rwWorlds (snd (ex_call, sample_round_world)))" "run_inv (runsS (wp sample_worker_state))"
    "int (length (DiscoverFromChangedFiles (rwPerm (snd (ex_call, sample_round_world))) (ChangedFiles sample_event)))
      < 2 ^ 63 - nextRunID (runsS (wp sample_worker_state))"
    using sample_hyps(2-4)
    by (simp_all add: sample_round_world_def sample_worker_state_def worker_start_def sample_start_def)
  from worker_reports_plan [OF plain_workers(2) _ r this] r show ?thesis
    by (auto simp: sample_event_def job_of_event_def TrimSpace_def trim_front_def trim_back_def)
qed

end
