(* ===== verification/Spec2Isabelle.thy ===== *)
theory Spec2Isabelle
  imports Programs_Spec
begin

text \<open>
  A verification development for Thule, a read-only planner for Kubernetes GitOps repositories
  (the Go sources under \<^verbatim>\<open>src/\<close>).

  \<^bold>\<open>The program.\<close> GitLab sends a webhook for a merge request to the API program (\<^verbatim>\<open>cmd/thule-api\<close>).
  The handler (\<^verbatim>\<open>internal/webhook\<close>) authenticates and decodes it, and the service
  (\<^verbatim>\<open>internal/orchestrator/service.go\<close>) turns it into at most one job: it reserves the delivery
  identifier, drops repeated requests, locks the project directories the changed files lie in
  (\<^verbatim>\<open>internal/project\<close>, \<^verbatim>\<open>internal/lock\<close>, \<^verbatim>\<open>internal/storage\<close>) and sends the job to a queue
  (\<^verbatim>\<open>internal/queue\<close>, in memory or in Redis). The worker program (\<^verbatim>\<open>cmd/thule-worker\<close>) takes jobs from
  the queue, brings a clone of the repository to the commit (\<^verbatim>\<open>internal/repo\<close>), works out the changed
  files and calls the planner (\<^verbatim>\<open>internal/orchestrator/planner.go\<close>). For every project the planner
  loads \<^verbatim>\<open>thule.conf\<close> (\<^verbatim>\<open>internal/config\<close>, \<^verbatim>\<open>pkg/thuleconfig\<close>), renders the manifests
  (\<^verbatim>\<open>internal/render\<close>), reads the live resources (\<^verbatim>\<open>cluster_memory.go\<close>, \<^verbatim>\<open>cluster_live.go\<close>), compares
  the two (\<^verbatim>\<open>internal/diff\<close>), applies policy rules (\<^verbatim>\<open>internal/policy\<close>) and writes one comment
  (\<^verbatim>\<open>internal/report\<close>), a status check (\<^verbatim>\<open>internal/vcs\<close>) and a record of the run (\<^verbatim>\<open>internal/run\<close>). The
  command line (\<^verbatim>\<open>cmd/thule\<close>) previews a plan locally.
\<close>

text \<open>
  \<^bold>\<open>The theories,\<close> in the order they build on each other. The definitions carry the names of the
  source wherever Isabelle allows it.

  \<^item> \<open>Prelude\<close>: collections of facts, generic lemmas. \<open>Go_Strings\<close>, \<open>Go_Path\<close>, \<open>Json_Lex\<close>, \<open>Go_Value\<close>,
    \<open>Go_Json\<close>, \<open>Go_Env\<close>, \<open>Sha256\<close>: what the program uses of Go and its standard library (strings,
    decimal numbers, \<^verbatim>\<open>path/filepath\<close>, \<^verbatim>\<open>encoding/json\<close> in both directions with the round trip
    \<open>Unmarshal_Marshal\<close>, \<^verbatim>\<open>time.ParseDuration\<close>, SHA-256 and HMAC with a test vector).
  \<^item> \<open>Discovery\<close>, \<open>Lock\<close>, \<open>Storage\<close>, \<open>Queue\<close>: the parts of the service, each with its state as a record
    and its contract as a locale (\<open>project_locker\<close>, \<open>delivery_store\<close>, \<open>dedupe_store\<close>, \<open>job_queue\<close>)
    interpreted on the in-memory implementation.
  \<^item> \<open>Service\<close>: \<open>HandleMergeRequestEvent\<close> over the four interfaces; the locale \<open>orchestrator_parts\<close>
    joins their contracts and carries the proofs (\<open>handle_outcome\<close>, \<open>handle_locks\<close>, \<open>at_most_once\<close>).
  \<^item> \<open>Webhook\<close>: \<open>ServeHTTP\<close> and \<open>decodeEvent\<close>. A request has an effect only when it is authentic
    (\<open>webhook_guard\<close>); repeating it is harmless (\<open>webhook_idempotent\<close>); closing hooks free projects.
  \<^item> \<open>Config\<close>, \<open>Render\<close>, \<open>Diff\<close> with \<open>Diff_Spec\<close>, \<open>Policy\<close>, \<open>Report\<close>, \<open>Run_Store\<close>, \<open>Vcs\<close>: the parts of
    the planner. \<open>decode_print\<close> is the round trip of the configuration dialect, \<open>render_spec\<close> says
    what is rendered, \<open>compute_actions\<close> that the plan is exact, \<open>deep_copy_floats\<close> what copying a body
    through JSON does to its numbers, \<open>plan_shown_in_full\<close> and \<open>aggregated_comment_fits\<close> that the
    comment is complete and stays below the limit of the host, \<open>one_active_comment\<close> and \<open>list_pages\<close> what the stores
    promise; \<open>run_store\<close>, \<open>comment_store\<close> and \<open>status_publisher\<close> are their contracts.
  \<^item> \<open>Planner\<close> with \<open>Planner_Spec\<close>: \<open>PlanForEvent\<close> with every optional part. The contracts of the
    stores give that runs are settled (\<open>plan_settles_runs\<close>) and the outcome is reported, proved once
    in the locale \<open>planner_parts\<close> and used for the in-memory planner and for the worker.
  \<^item> \<open>Repo\<close>, \<open>Redis_Queue\<close>, \<open>Worker\<close>: the clone, the Redis queue and the loop \<open>runWorker\<close>. The locale
    \<open>job_source\<close> says what the loop needs of a queue and gives that it drains it
    (\<open>worker_drains_queue\<close>, and \<open>worker_drains_redis\<close> for Redis); a job is planned from its own commit
    (\<open>plans_the_checked_out_commit\<close>); the clone is maintained once per period (\<open>maintenance_period\<close>).
  \<^item> \<open>GitLab\<close>, \<open>Cluster_Live\<close>: the clients of the two servers. \<open>gitlab_one_active_plan\<close>,
    \<open>live_plan_deletions\<close>, \<open>forbidden_is_neutral\<close>, \<open>default_namespace_is_not_matched\<close>.
  \<^item> \<open>Cli\<close>, \<open>Programs\<close> with \<open>Programs_Spec\<close>: the three programs as they are put together from the
    environment. \<open>api_refines_service\<close> shows that the API program without Redis is the in-memory
    service, by the projection \<open>mem_view\<close> of its state; \<open>redis_links_api_and_worker\<close> that Redis
    joins the two programs; \<open>accepted_event_is_planned\<close> follows an event from the API through Redis
    to the planner; \<open>worker_reports_plan\<close> that every planned job is reported.
\<close>

text \<open>
  \<^bold>\<open>How the code is modelled.\<close> A Go string is a byte string; a struct is a record, an interface a
  record of operations over a state of its own, nil an option. Errors are values of a sum type
  with the text of the source; where a message ends with a text of a library, that ending is left out.
  Operations that the source guards with a mutex are atomic functions on their state. Integers are
  \<open>int\<close> with the wrap-around of Go's 64 bits written out where a value can reach it (identifiers of
  runs and comments, paging); a panic is the value None. A call of a queue sees in the record \<open>Call\<close>
  whether its context is done and what the scheduler picks, so the theorems hold for every schedule.
  A long-running loop is followed for a list of rounds, each with what the world outside answers.

  \<^bold>\<open>Parameters.\<close> Code outside the repository is an argument: the YAML library, go-git, the HTTP client,
  \<^verbatim>\<open>url.Parse\<close>, the Redis client, the Kubernetes and Google Cloud clients, the readers of SSH keys,
  the file system, the environment and the clock. What a theorem relies on of them is a named
  hypothesis with documented behaviour: \<open>redis_list\<close> and \<open>blocking_list\<close> (lists of Redis),
  \<open>notes_api\<close> (notes of GitLab: what a request that succeeds lists, adds or replaces; any request may
  fail), \<open>tracks_head\<close> (a forced checkout of a hash moves the work tree there, one of the zero hash to
  master), \<open>honest\<close> (a reply of the API server describes the object asked for, with the usual spelling
  of its version), \<open>counts_maintenance\<close> (what a clone counts as maintenance), \<open>iteration_order\<close> (a map
  is visited once per key). A client of Redis depends on the address, password and database it was made
  for (\<open>redis_net\<close>). How a number of a JSON text is rounded to a \<^verbatim>\<open>float64\<close> and printed again is the
  field \<open>float64_text\<close> of \<open>diff_env\<close>.

  \<^bold>\<open>Bounds and fuel.\<close> \<open>climb\<close> terminates by a measure and \<open>discovery_ends\<close> bounds its steps. The fuel
  of the JSON parser and of \<open>ParseDuration\<close> is the length of the text; every step consumes a byte, and
  \<open>parse_seq_fuel\<close> and \<open>duration_items_fuel\<close> say that more fuel changes nothing. JSON texts nest at
  most 10000 deep, as in the library. Theorems about runs assume that run numbers below 2^63 are
  left; \<open>redis_hands_over_jobs\<close> that merge request numbers fit 64 bits.

  \<^bold>\<open>Not modelled.\<close> Log output, signal handling, listening sockets and timeouts of requests, which
  change no state of the program; invalid UTF-8 in JSON texts, which Go replaces; scalars of YAML with
  a type of their own, such as timestamps, which are strings here; how the standard multiplexer
  answers paths without a route. Every operation of a store is atomic, as its mutex makes it, but
  \<open>HandleMergeRequestEvent\<close> takes no lock around its steps: two handlers that run at the same time may
  interleave between them, and the model runs one after the other. A handler that waits for room in
  the queue ends in the outcome \<open>HandleBlocked\<close>; its later return is a history of its own. The cache of Kubernetes clients is modelled in
  \<open>getClient\<close>; in the composed worker every call starts from the clients of the start, which gives
  the same result as long as the cloud answers alike.
\<close>

end
